theory Spec2Isabelle
  imports Main
begin

section \<open>The platform: processes, files, clock, runner\<close>

text \<open>
  The action talks to the outside world through \<^verbatim>\<open>@actions/core\<close>,
  \<^verbatim>\<open>@actions/exec\<close>, \<^verbatim>\<open>fs\<close>, \<^verbatim>\<open>os\<close>, \<^verbatim>\<open>path\<close>, the clock and timers.
  Every such call is recorded, in order, as an event of a trace; what the outside world
  answers is read from an environment that sees the whole history so far.
\<close>

text \<open>
  What a spawned process does: it runs and exits with a code, having printed some text on
  stdout, or it cannot be started at all (the executable is not found, the spawn fails), in
  which case \<^verbatim>\<open>exec.exec\<close> rejects whatever its options are.
\<close>

datatype outcome = Exited int string | SpawnError string

datatype event =
    Info string
  | LogError string
  | Warning string
  | StartGroup string
  | EndGroup
  | SaveState string string
  | SetOutput string string
  | ExportVariable string string
  | SetFailed string
  | Exec string "string list" outcome
  | Mkdir string "string option"
  | WriteFile string string "string option"
  | DateNow int
  | Sleep nat

type_synonym trace = "event list"

text \<open>
  \<open>getInput\<close> and \<open>getState\<close> are the values \<^verbatim>\<open>core.getInput\<close> and
  \<^verbatim>\<open>core.getState\<close> return (the empty string when unset); \<open>homedir\<close> is
  \<^verbatim>\<open>os.homedir()\<close>; \<open>path_join\<close> is \<^verbatim>\<open>path.join\<close> on two segments;
  \<open>fs_mkdir\<close> and \<open>fs_writeFile\<close> answer \<open>None\<close> when the call resolves and
  \<open>Some msg\<close> when it rejects with an error of that message; \<open>date_now\<close> is
  \<^verbatim>\<open>Date.now()\<close> in milliseconds.
\<close>

record env =
  getInput :: "string \<Rightarrow> string"
  getState :: "string \<Rightarrow> string"
  homedir :: string
  path_join :: "string \<Rightarrow> string \<Rightarrow> string"
  run_process :: "trace \<Rightarrow> string \<Rightarrow> string list \<Rightarrow> outcome"
  fs_mkdir :: "trace \<Rightarrow> string \<Rightarrow> string option"
  fs_writeFile :: "trace \<Rightarrow> string \<Rightarrow> string \<Rightarrow> string option"
  date_now :: "trace \<Rightarrow> int"

text \<open>
  A statement either completes with a value or throws an \<^verbatim>\<open>Error\<close>, identified
  by its message. An action maps the trace so far to its completion and the extended trace,
  or to \<open>None\<close> when it never completes.
\<close>

datatype 'a result = Returned 'a | Thrown string

type_synonym 'a action = "trace \<Rightarrow> ('a result \<times> trace) option"

definition ret :: "'a \<Rightarrow> 'a action" where
  "ret a tr = Some (Returned a, tr)"

definition throw :: "string \<Rightarrow> 'a action" where
  "throw msg tr = Some (Thrown msg, tr)"

definition emit :: "event \<Rightarrow> unit action" where
  "emit e tr = Some (Returned (), tr @ [e])"

definition andThen :: "'a action \<Rightarrow> ('a \<Rightarrow> 'b action) \<Rightarrow> 'b action" where
  "andThen m k tr =
     (case m tr of
        None \<Rightarrow> None
      | Some (Returned a, tr') \<Rightarrow> k a tr'
      | Some (Thrown e, tr') \<Rightarrow> Some (Thrown e, tr'))"

text \<open>\<^verbatim>\<open>try { body } catch (error) { handler }\<close>: the handler runs when the body throws.\<close>

definition tryCatch :: "'a action \<Rightarrow> (string \<Rightarrow> 'a action) \<Rightarrow> 'a action" where
  "tryCatch body handler tr =
     (case body tr of
        None \<Rightarrow> None
      | Some (Returned a, tr1) \<Rightarrow> Some (Returned a, tr1)
      | Some (Thrown e, tr1) \<Rightarrow> handler e tr1)"

text \<open>
  \<^verbatim>\<open>try { body } catch (error) { handler } finally { fin }\<close>: the handler runs when
  the body throws, \<open>fin\<close> runs in every case, and a throwing \<open>fin\<close> overrides the
  completion it follows.
\<close>

definition tryCatchFinally ::
  "'a action \<Rightarrow> (string \<Rightarrow> 'a action) \<Rightarrow> unit action \<Rightarrow> 'a action" where
  "tryCatchFinally body handler fin tr =
     (case tryCatch body handler tr of
        None \<Rightarrow> None
      | Some (r, tr2) \<Rightarrow>
          (case fin tr2 of
             None \<Rightarrow> None
           | Some (Returned _, tr3) \<Rightarrow> Some (r, tr3)
           | Some (Thrown e', tr3) \<Rightarrow> Some (Thrown e', tr3)))"

text \<open>\<^verbatim>\<open>`${error}`\<close> of an \<^verbatim>\<open>Error\<close> object is its name, a colon and its message.\<close>

definition errorToString :: "string \<Rightarrow> string" where
  "errorToString msg = ''Error: '' @ msg"

subsection \<open>Strings and numbers of the language\<close>

definition isSpace :: "char \<Rightarrow> bool" where
  "isSpace c = (c = CHR 0x09 \<or> c = CHR 0x0A \<or> c = CHR 0x0B \<or> c = CHR 0x0C
                \<or> c = CHR 0x0D \<or> c = CHR 0x20)"

text \<open>\<^verbatim>\<open>String.prototype.trim\<close>, on the ASCII white space and line terminators.\<close>

definition trim :: "string \<Rightarrow> string" where
  "trim s = rev (dropWhile isSpace (rev (dropWhile isSpace s)))"

definition digitChar :: "nat \<Rightarrow> char" where
  "digitChar d = ''0123456789'' ! d"

function showNat :: "nat \<Rightarrow> string" where
  "showNat n = (if n < 10 then [digitChar n] else showNat (n div 10) @ [digitChar (n mod 10)])"
  by pat_completeness auto
termination
  by (relation "measure (\<lambda>n. n)") auto

definition showInt :: "int \<Rightarrow> string" where
  "showInt i = (if i < 0 then ''-'' @ showNat (nat (- i)) else showNat (nat i))"

text \<open>
  A number as \<^verbatim>\<open>parseInt\<close> yields it: \<open>NaN\<close> or an integer (integers beyond
  \<open>2^53\<close> are not rounded here).
\<close>

datatype jsnum = NaN | Num int

definition showNum :: "jsnum \<Rightarrow> string" where
  "showNum x = (case x of NaN \<Rightarrow> ''NaN'' | Num i \<Rightarrow> showInt i)"

definition showBool :: "bool \<Rightarrow> string" where
  "showBool b = (if b then ''true'' else ''false'')"

definition isDigit :: "char \<Rightarrow> bool" where
  "isDigit c = (48 \<le> (of_char c :: nat) \<and> (of_char c :: nat) \<le> 57)"

definition digitsValue :: "string \<Rightarrow> int" where
  "digitsValue ds = foldl (\<lambda>a c. 10 * a + (int (of_char c) - 48)) 0 ds"

text \<open>
  \<^verbatim>\<open>parseInt(s, 10)\<close>: leading white space is skipped, one sign is read, then the
  longest run of decimal digits; with no digit the result is \<open>NaN\<close>.
\<close>

definition parseInt :: "string \<Rightarrow> jsnum" where
  "parseInt s =
     (let t = dropWhile isSpace s;
          neg = (case t of [] \<Rightarrow> False | c # _ \<Rightarrow> c = CHR ''-'');
          u = (case t of [] \<Rightarrow> [] | c # r \<Rightarrow> if c = CHR ''-'' \<or> c = CHR ''+'' then r else t);
          ds = takeWhile isDigit u
      in if ds = [] then NaN
         else Num (if neg then - digitsValue ds else digitsValue ds))"

text \<open>\<^verbatim>\<open>elapsed > timeoutSeconds\<close>: every comparison with \<open>NaN\<close> is false.\<close>

definition greaterThan_js :: "int \<Rightarrow> jsnum \<Rightarrow> bool" where
  "greaterThan_js elapsed timeoutSeconds =
     (case timeoutSeconds of NaN \<Rightarrow> False | Num t \<Rightarrow> elapsed > t)"

text \<open>\<^verbatim>\<open>a || b\<close> on strings: the empty string is falsy.\<close>

definition orElse :: "string \<Rightarrow> string \<Rightarrow> string" where
  "orElse a b = (if a = [] then b else a)"

subsection \<open>The library calls\<close>

definition info :: "string \<Rightarrow> unit action" where
  "info msg = emit (Info msg)"

definition logError :: "string \<Rightarrow> unit action" where
  "logError msg = emit (LogError msg)"

definition warning :: "string \<Rightarrow> unit action" where
  "warning msg = emit (Warning msg)"

definition startGroup :: "string \<Rightarrow> unit action" where
  "startGroup name = emit (StartGroup name)"

definition endGroup :: "unit action" where
  "endGroup = emit EndGroup"

definition saveState :: "string \<Rightarrow> string \<Rightarrow> unit action" where
  "saveState name val = emit (SaveState name val)"

definition setOutput :: "string \<Rightarrow> string \<Rightarrow> unit action" where
  "setOutput name val = emit (SetOutput name val)"

definition exportVariable :: "string \<Rightarrow> string \<Rightarrow> unit action" where
  "exportVariable name val = emit (ExportVariable name val)"

definition setFailed :: "string \<Rightarrow> unit action" where
  "setFailed msg = emit (SetFailed msg)"

definition sleep :: "nat \<Rightarrow> unit action" where
  "sleep ms = emit (Sleep ms)"

definition dateNow :: "env \<Rightarrow> int action" where
  "dateNow env tr = (let t = date_now env tr in Some (Returned t, tr @ [DateNow t]))"

record exec_options =
  ignoreReturnCode :: bool
  silent :: bool

definition default_options :: exec_options where
  "default_options = \<lparr>ignoreReturnCode = False, silent = False\<rparr>"

text \<open>
  \<^verbatim>\<open>exec.exec(cmd, args, options)\<close> resolves to the exit code, the listener having
  received stdout. It rejects when the process cannot be started, and when the exit code is
  not zero unless \<open>ignoreReturnCode\<close> is set (the tool path of the message is rendered
  as the command name).
\<close>

definition exec :: "env \<Rightarrow> string \<Rightarrow> string list \<Rightarrow> exec_options \<Rightarrow> (int \<times> string) action" where
  "exec env cmd args opts tr =
     (let out = run_process env tr cmd args;
          tr' = tr @ [Exec cmd args out]
      in case out of
           SpawnError msg \<Rightarrow> Some (Thrown msg, tr')
         | Exited code text \<Rightarrow>
             if code \<noteq> 0 \<and> \<not> ignoreReturnCode opts
             then Some (Thrown (''The process '' @ [CHR 0x27] @ cmd @ [CHR 0x27]
                                @ '' failed with exit code '' @ showInt code), tr')
             else Some (Returned (code, text), tr'))"

definition mkdir :: "env \<Rightarrow> string \<Rightarrow> unit action" where
  "mkdir env dir tr =
     (let r = fs_mkdir env tr dir; tr' = tr @ [Mkdir dir r]
      in case r of None \<Rightarrow> Some (Returned (), tr') | Some msg \<Rightarrow> Some (Thrown msg, tr'))"

definition writeFile :: "env \<Rightarrow> string \<Rightarrow> string \<Rightarrow> unit action" where
  "writeFile env file content tr =
     (let r = fs_writeFile env tr file content; tr' = tr @ [WriteFile file content r]
      in case r of None \<Rightarrow> Some (Returned (), tr') | Some msg \<Rightarrow> Some (Thrown msg, tr'))"

section \<open>The installer\<close>

definition check_mark :: string where
  "check_mark = [CHR 0xE2, CHR 0x9C, CHR 0x93]"

definition tmpBinary :: string where
  "tmpBinary = ''/tmp/k0s''"

text \<open>The shell pipeline that asks the release API for the newest tag.\<close>

definition resolve_latest_cmd :: string where
  "resolve_latest_cmd =
     ''curl -sL https://api.github.com/repos/k0sproject/k0s/releases/latest | grep ''
     @ [CHR 0x27, CHR 0x22] @ ''tag_name'' @ [CHR 0x22, CHR 0x27]
     @ '' | cut -d'' @ [CHR 0x27, CHR 0x22, CHR 0x27] @ '' -f4''"

text \<open>The \<^verbatim>\<open>switch (arch)\<close> of \<^verbatim>\<open>installK0s\<close>; its default case throws.\<close>

definition binaryArchOf :: "string \<Rightarrow> string action" where
  "binaryArchOf arch =
     (if arch = ''x86_64'' then ret ''amd64''
      else if arch = ''aarch64'' \<or> arch = ''arm64'' then ret ''arm64''
      else if arch = ''armv7l'' then ret ''arm''
      else throw (''Unsupported architecture: '' @ arch))"

definition downloadUrlOf :: "string \<Rightarrow> string \<Rightarrow> string" where
  "downloadUrlOf actualVersion binaryArch =
     ''https://github.com/k0sproject/k0s/releases/download/'' @ actualVersion
     @ ''/k0s-'' @ actualVersion @ ''-'' @ binaryArch"

definition installK0s :: "env \<Rightarrow> string \<Rightarrow> unit action" where
  "installK0s env version =
     andThen (startGroup ''Installing k0s'') (\<lambda>_.
     tryCatchFinally
       (andThen (info (''Installing k0s '' @ version @ ''...'')) (\<lambda>_.
        andThen (exec env ''uname'' [''-m''] default_options) (\<lambda>(_, archOutput).
        let arch = trim archOutput in
        andThen (binaryArchOf arch) (\<lambda>binaryArch.
        andThen (info (''  Architecture: '' @ arch @ '' -> '' @ binaryArch)) (\<lambda>_.
        andThen (if version = ''latest''
                 then andThen (info ''Resolving latest version...'') (\<lambda>_.
                      andThen (exec env ''bash'' [''-c'', resolve_latest_cmd] default_options)
                        (\<lambda>(_, versionOutput).
                      let actualVersion = trim versionOutput in
                      andThen (info (''  Latest version: '' @ actualVersion)) (\<lambda>_.
                      ret actualVersion)))
                 else ret version) (\<lambda>actualVersion.
        let downloadUrl = downloadUrlOf actualVersion binaryArch in
        andThen (info (''  Downloading from: '' @ downloadUrl)) (\<lambda>_.
        andThen (exec env ''curl'' [''-sfL'', downloadUrl, ''-o'', tmpBinary] default_options) (\<lambda>_.
        andThen (info ''  Installing binary to /usr/local/bin/k0s...'') (\<lambda>_.
        andThen (exec env ''sudo'' [''install'', tmpBinary, ''/usr/local/bin/k0s''] default_options)
          (\<lambda>_.
        andThen (exec env ''rm'' [''-f'', tmpBinary] default_options) (\<lambda>_.
        andThen (info ''  Verifying installation...'') (\<lambda>_.
        andThen (exec env ''k0s'' [''version''] default_options) (\<lambda>_.
        info (check_mark @ '' k0s installed successfully''))))))))))))))
       (\<lambda>error. throw (''Failed to install k0s: '' @ errorToString error))
       endGroup)"

section \<open>The controller launcher\<close>

definition startK0s :: "env \<Rightarrow> unit action" where
  "startK0s env =
     andThen (startGroup ''Starting k0s cluster'') (\<lambda>_.
     tryCatchFinally
       (andThen (info ''Starting k0s as controller...'') (\<lambda>_.
        andThen (exec env ''sudo'' [''k0s'', ''install'', ''controller'', ''--single'']
                   default_options) (\<lambda>_.
        andThen (exec env ''sudo'' [''k0s'', ''start''] default_options) (\<lambda>_.
        andThen (info ''  Waiting for kubeconfig generation...'') (\<lambda>_.
        andThen (sleep 10000) (\<lambda>_.
        let kubeconfigDir = path_join env (homedir env) ''.kube'';
            kubeconfigPath = path_join env kubeconfigDir ''config'' in
        andThen (tryCatch (mkdir env kubeconfigDir) (\<lambda>error. ret ())) (\<lambda>_.
        andThen (info ''  Extracting kubeconfig...'') (\<lambda>_.
        andThen (exec env ''sudo'' [''k0s'', ''kubeconfig'', ''admin''] default_options)
          (\<lambda>(_, kubeconfigContent).
        andThen (writeFile env kubeconfigPath kubeconfigContent) (\<lambda>_.
        andThen (exec env ''chmod'' [''600'', kubeconfigPath] default_options) (\<lambda>_.
        andThen (setOutput ''kubeconfig'' kubeconfigPath) (\<lambda>_.
        andThen (exportVariable ''KUBECONFIG'' kubeconfigPath) (\<lambda>_.
        andThen (info (''  KUBECONFIG exported: '' @ kubeconfigPath)) (\<lambda>_.
        info (check_mark @ '' k0s cluster started successfully'')))))))))))))))
       (\<lambda>error. throw (''Failed to start k0s: '' @ errorToString error))
       endGroup)"

section \<open>The readiness poller\<close>

definition diag_options :: exec_options where
  "diag_options = \<lparr>ignoreReturnCode = True, silent = False\<rparr>"

definition probe_options :: exec_options where
  "probe_options = \<lparr>ignoreReturnCode = True, silent = True\<rparr>"

definition showDiagnostics :: "env \<Rightarrow> unit action" where
  "showDiagnostics env =
     andThen (startGroup ''Diagnostic Information'') (\<lambda>_.
     tryCatchFinally
       (andThen (info ''=== k0s Status ==='') (\<lambda>_.
        andThen (exec env ''sudo'' [''k0s'', ''status''] diag_options) (\<lambda>_.
        andThen (info ''=== k0s Controller Logs ==='') (\<lambda>_.
        andThen (exec env ''sudo''
                   [''journalctl'', ''-u'', ''k0scontroller'', ''-n'', ''100'', ''--no-pager'']
                   diag_options) (\<lambda>_.
        andThen (info ''=== Kubectl Cluster Info ==='') (\<lambda>_.
        andThen (exec env ''kubectl'' [''cluster-info''] diag_options) (\<lambda>_.
        andThen (info ''=== Nodes ==='') (\<lambda>_.
        andThen (exec env ''kubectl'' [''get'', ''nodes'', ''-o'', ''wide''] diag_options) (\<lambda>_.
        andThen (info ''=== Kube-system Pods ==='') (\<lambda>_.
        andThen (exec env ''kubectl'' [''get'', ''pods'', ''-n'', ''kube-system''] diag_options) (\<lambda>_.
        ret ())))))))))))
       (\<lambda>error. warning (''Failed to gather diagnostics: '' @ errorToString error))
       endGroup)"

text \<open>The two \<^verbatim>\<open>grep -v\<close> pipelines: exit code 0 means that a line was found.\<close>

definition nodes_not_ready_cmd :: string where
  "nodes_not_ready_cmd =
     ''kubectl get nodes --no-headers | grep -v '' @ [CHR 0x22] @ '' Ready '' @ [CHR 0x22]"

definition pods_not_running_cmd :: string where
  "pods_not_running_cmd =
     ''kubectl get pods -n kube-system --no-headers | grep -v '' @ [CHR 0x22]
     @ ''Running'' @ [CHR 0x5C] @ ''|Completed'' @ [CHR 0x22]"

text \<open>How one pass through the body of \<^verbatim>\<open>while (true)\<close> ends.\<close>

datatype flow = Break | Continue

text \<open>
  The four layered checks of the loop body: service status, API server, nodes, system pods.
  Each probe runs only when the one before it has passed; \<open>Break\<close> is the
  \<^verbatim>\<open>break\<close> of the innermost branch.
\<close>

definition checkLayers :: "env \<Rightarrow> flow action" where
  "checkLayers env =
     andThen (exec env ''sudo'' [''k0s'', ''status''] probe_options) (\<lambda>(statusResult, _).
     if statusResult = 0 then
       andThen (info ''  k0s is running'') (\<lambda>_.
       andThen (exec env ''kubectl'' [''cluster-info''] probe_options) (\<lambda>(kubectlResult, _).
       if kubectlResult = 0 then
         andThen (info ''  kubectl can connect to API server'') (\<lambda>_.
         andThen (exec env ''bash'' [''-c'', nodes_not_ready_cmd] probe_options)
           (\<lambda>(nodesReady, _).
         if nodesReady \<noteq> 0 then
           andThen (info ''  All nodes are Ready'') (\<lambda>_.
           andThen (exec env ''bash'' [''-c'', pods_not_running_cmd] probe_options)
             (\<lambda>(podsRunning, _).
           if podsRunning \<noteq> 0 then
             andThen (info ''  All kube-system pods are running'') (\<lambda>_. ret Break)
           else
             andThen (info ''  Some kube-system pods not running yet'') (\<lambda>_. ret Continue)))
         else
           andThen (info ''  Some nodes not Ready yet'') (\<lambda>_. ret Continue)))
       else
         andThen (info ''  kubectl cannot connect yet'') (\<lambda>_. ret Continue)))
     else
       andThen (info ''  k0s not running yet'') (\<lambda>_. ret Continue))"

text \<open>
  The body of the loop of \<^verbatim>\<open>waitForClusterReady\<close>: the deadline check, the
  layered checks, and, unless the loop is left, the log line and the sleep of five seconds.
\<close>

definition pollCycle :: "env \<Rightarrow> jsnum \<Rightarrow> int \<Rightarrow> flow action" where
  "pollCycle env timeoutSeconds startTime =
     andThen (dateNow env) (\<lambda>now.
     let elapsed = (now - startTime) div 1000 in
     andThen (if greaterThan_js elapsed timeoutSeconds
              then andThen (logError ''Timeout waiting for cluster to be ready'') (\<lambda>_.
                   andThen (showDiagnostics env) (\<lambda>_.
                   throw ''Timeout waiting for cluster to be ready''))
              else ret ()) (\<lambda>_.
     andThen (checkLayers env) (\<lambda>flow.
     case flow of
       Break \<Rightarrow> ret Break
     | Continue \<Rightarrow>
         andThen (info (''  Cluster not ready yet, waiting... ('' @ showInt elapsed @ ''/''
                        @ showNum timeoutSeconds @ ''s)'')) (\<lambda>_.
         andThen (sleep 5000) (\<lambda>_.
         ret Continue)))))"

text \<open>\<^verbatim>\<open>while (true) { ... }\<close>: the value is \<open>None\<close> when the loop never ends.\<close>

partial_function (option) pollLoop ::
  "env \<Rightarrow> jsnum \<Rightarrow> int \<Rightarrow> trace \<Rightarrow> (unit result \<times> trace) option" where
  "pollLoop env timeoutSeconds startTime tr =
     (case pollCycle env timeoutSeconds startTime tr of
        None \<Rightarrow> None
      | Some (Returned Break, tr') \<Rightarrow> Some (Returned (), tr')
      | Some (Returned Continue, tr') \<Rightarrow> pollLoop env timeoutSeconds startTime tr'
      | Some (Thrown e, tr') \<Rightarrow> Some (Thrown e, tr'))"

definition waitForClusterReady :: "env \<Rightarrow> jsnum \<Rightarrow> unit action" where
  "waitForClusterReady env timeoutSeconds =
     andThen (startGroup ''Waiting for cluster ready'') (\<lambda>_.
     tryCatchFinally
       (andThen (info (''Waiting for k0s cluster to be ready (timeout: ''
                       @ showNum timeoutSeconds @ ''s)...'')) (\<lambda>_.
        andThen (dateNow env) (\<lambda>startTime.
        andThen (pollLoop env timeoutSeconds startTime) (\<lambda>_.
        info (check_mark @ '' k0s cluster is fully ready!'')))))
       (\<lambda>error. throw (''Failed waiting for cluster: '' @ errorToString error))
       endGroup)"

section \<open>The entry points\<close>

definition main :: "env \<Rightarrow> unit action" where
  "main env =
     tryCatch
       (andThen (info ''Starting k0s setup...'') (\<lambda>_.
        andThen (saveState ''isPost'' ''true'') (\<lambda>_.
        let version = orElse (getInput env ''version'') ''latest'';
            waitForReady = (getInput env ''wait-for-ready'' = ''true'');
            timeout = parseInt (orElse (getInput env ''timeout'') ''300'') in
        andThen (info (''Configuration: version='' @ version @ '', wait-for-ready=''
                       @ showBool waitForReady @ '', timeout='' @ showNum timeout @ ''s'')) (\<lambda>_.
        andThen (installK0s env version) (\<lambda>_.
        andThen (startK0s env) (\<lambda>_.
        andThen (if waitForReady then waitForClusterReady env timeout else ret ()) (\<lambda>_.
        info (check_mark @ '' k0s setup completed successfully!''))))))))
       (\<lambda>error. throw error)"

text \<open>
  \<^verbatim>\<open>run\<close> of the entry file. The teardown \<^verbatim>\<open>cleanup\<close> lives in a module that is
  not part of the sources at hand, so it is a parameter.
\<close>

definition run :: "env \<Rightarrow> unit action \<Rightarrow> unit action" where
  "run env cleanup =
     tryCatch
       (let isPost = getState env ''isPost'' in
        if isPost = ''true'' then cleanup else main env)
       (\<lambda>error. setFailed error)"

section \<open>Observations on traces\<close>

text \<open>The calls that reach the network: the release query and the download.\<close>

fun is_resolution :: "event \<Rightarrow> bool" where
  "is_resolution (Exec cmd args out) = (cmd = ''bash'' \<and> args = [''-c'', resolve_latest_cmd])"
| "is_resolution _ = False"

fun is_download :: "event \<Rightarrow> bool" where
  "is_download (Exec cmd args out) = (cmd = ''curl'')"
| "is_download _ = False"

definition is_network_call :: "event \<Rightarrow> bool" where
  "is_network_call e = (is_resolution e \<or> is_download e)"

definition supported_archs :: "string list" where
  "supported_archs = [''x86_64'', ''aarch64'', ''arm64'', ''armv7l'']"

text \<open>
  What a release query that exited with code 0 printed, trimmed (the value
  \<^verbatim>\<open>actualVersion\<close> is bound to), and the URL a download was started from.
\<close>

fun resolved_tag :: "event \<Rightarrow> string option" where
  "resolved_tag (Exec cmd args (Exited code stdout)) =
     (if cmd = ''bash'' \<and> args = [''-c'', resolve_latest_cmd] \<and> code = 0
      then Some (trim stdout) else None)"
| "resolved_tag _ = None"

fun download_url :: "event \<Rightarrow> string option" where
  "download_url (Exec cmd args out) =
     (case args of
        [a, url, b, c] \<Rightarrow> if cmd = ''curl'' then Some url else None
      | _ \<Rightarrow> None)"
| "download_url _ = None"

text \<open>
  What an architecture probe that exited with code 0 printed, trimmed (the value
  \<^verbatim>\<open>arch\<close> is bound to).
\<close>

fun probed_arch :: "event \<Rightarrow> string option" where
  "probed_arch (Exec cmd args (Exited code stdout)) =
     (if cmd = ''uname'' \<and> args = [''-m''] \<and> code = 0 then Some (trim stdout) else None)"
| "probed_arch _ = None"

text \<open>Every event that satisfies \<open>Q\<close> comes after some event that satisfies \<open>P\<close>.\<close>

fun preceded_by :: "(event \<Rightarrow> bool) \<Rightarrow> (event \<Rightarrow> bool) \<Rightarrow> trace \<Rightarrow> bool" where
  "preceded_by P Q [] = True"
| "preceded_by P Q (e # es) = (P e \<or> (\<not> Q e \<and> preceded_by P Q es))"

text \<open>The architecture probe has answered with a supported architecture.\<close>

fun arch_supported :: "event \<Rightarrow> bool" where
  "arch_supported (Exec cmd args (Exited code stdout)) =
     (cmd = ''uname'' \<and> args = [''-m''] \<and> code = 0 \<and> trim stdout \<in> set supported_archs)"
| "arch_supported _ = False"

text \<open>Events that are no part of the architecture probe, the resolution and the download.\<close>

definition no_installer_event :: "event \<Rightarrow> bool" where
  "no_installer_event e = (\<not> is_resolution e \<and> \<not> is_download e \<and> probed_arch e = None)"

text \<open>
  The URLs that \<^verbatim>\<open>downloadUrl\<close> can be bound to, given the events so far: built from the
  token that the switch of the installer yields for the probed architecture and from the
  explicit version or, for \<^verbatim>\<open>latest\<close>, the value captured at the resolution.
\<close>

definition expected_urls :: "string \<Rightarrow> trace \<Rightarrow> string list" where
  "expected_urls version es =
     (case List.map_filter probed_arch es of
        [arch] \<Rightarrow>
          (case binaryArchOf arch [] of
             Some (Returned binaryArch, _) \<Rightarrow>
               if version = ''latest''
               then map (\<lambda>tag. downloadUrlOf tag binaryArch) (List.map_filter resolved_tag es)
               else [downloadUrlOf version binaryArch]
           | _ \<Rightarrow> [])
      | _ \<Rightarrow> [])"

text \<open>
  The discipline of the version resolution over the events of a run. The release query runs
  once when the version is \<^verbatim>\<open>latest\<close> and the architecture probe has answered with a
  supported architecture, and not at all otherwise; it runs after that probe. A download comes
  after the probe and, for \<^verbatim>\<open>latest\<close>, after a release query that has returned; there is
  at most one, and its URL is the expected one.
\<close>

definition resolution_discipline :: "string \<Rightarrow> trace \<Rightarrow> bool" where
  "resolution_discipline version es =
     (length (filter is_resolution es)
        = (if version = ''latest'' \<and> list_ex arch_supported es then 1 else 0)
      \<and> preceded_by arch_supported is_resolution es
      \<and> preceded_by arch_supported is_download es
      \<and> (version = ''latest'' \<longrightarrow> preceded_by (\<lambda>e. resolved_tag e \<noteq> None) is_download es)
      \<and> length (filter is_download es) \<le> 1
      \<and> (list_ex is_download es \<longrightarrow>
            length (expected_urls version es) = 1
            \<and> List.map_filter download_url es = expected_urls version es))"

text \<open>The removal of the temporary download, the privileged install, the verification.\<close>

fun is_cleanup :: "event \<Rightarrow> bool" where
  "is_cleanup (Exec cmd args out) = (cmd = ''rm'' \<and> args = [''-f'', tmpBinary])"
| "is_cleanup _ = False"

fun cleanup_succeeded :: "event \<Rightarrow> bool" where
  "cleanup_succeeded (Exec cmd args (Exited code stdout)) =
     (cmd = ''rm'' \<and> args = [''-f'', tmpBinary] \<and> code = 0)"
| "cleanup_succeeded _ = False"

fun download_succeeded :: "event \<Rightarrow> bool" where
  "download_succeeded (Exec cmd args (Exited code stdout)) = (cmd = ''curl'' \<and> code = 0)"
| "download_succeeded _ = False"

fun install_succeeded :: "event \<Rightarrow> bool" where
  "install_succeeded (Exec cmd args (Exited code stdout)) =
     (cmd = ''sudo'' \<and> args = [''install'', tmpBinary, ''/usr/local/bin/k0s''] \<and> code = 0)"
| "install_succeeded _ = False"

fun is_verification :: "event \<Rightarrow> bool" where
  "is_verification (Exec cmd args out) = (cmd = ''k0s'' \<and> args = [''version''])"
| "is_verification _ = False"

fun verification_succeeded :: "event \<Rightarrow> bool" where
  "verification_succeeded (Exec cmd args (Exited code stdout)) =
     (cmd = ''k0s'' \<and> args = [''version''] \<and> code = 0)"
| "verification_succeeded _ = False"

text \<open>The events an action adds to the trace it starts from (none when it never completes).\<close>

definition emitted :: "'a action \<Rightarrow> trace \<Rightarrow> trace" where
  "emitted m tr = (case m tr of None \<Rightarrow> [] | Some (r, tr') \<Rightarrow> drop (length tr) tr')"

text \<open>The credential file: where it lives, the events that write it or publish its path.\<close>

definition kubeconfigPath :: "env \<Rightarrow> string" where
  "kubeconfigPath env = path_join env (path_join env (homedir env) ''.kube'') ''config''"

fun is_credential_write :: "event \<Rightarrow> bool" where
  "is_credential_write (WriteFile file content r) = True"
| "is_credential_write _ = False"

fun is_publication :: "event \<Rightarrow> bool" where
  "is_publication (SetOutput name v) = True"
| "is_publication (ExportVariable name v) = True"
| "is_publication _ = False"

definition no_credential_event :: "event \<Rightarrow> bool" where
  "no_credential_event e = (\<not> is_credential_write e \<and> \<not> is_publication e)"

fun is_chmod_600 :: "string \<Rightarrow> event \<Rightarrow> bool" where
  "is_chmod_600 file (Exec cmd args out) = (cmd = ''chmod'' \<and> args = [''600'', file])"
| "is_chmod_600 file _ = False"

fun chmod_600_succeeded :: "string \<Rightarrow> event \<Rightarrow> bool" where
  "chmod_600_succeeded file (Exec cmd args (Exited code stdout)) =
     (cmd = ''chmod'' \<and> args = [''600'', file] \<and> code = 0)"
| "chmod_600_succeeded file _ = False"

text \<open>
  The steps of the launcher before the write, each having succeeded: the registration of the
  controller service, its start, the extraction of the credential; and a write of a file that
  went through.
\<close>

fun controller_registered :: "event \<Rightarrow> bool" where
  "controller_registered (Exec cmd args (Exited code stdout)) =
     (cmd = ''sudo'' \<and> args = [''k0s'', ''install'', ''controller'', ''--single''] \<and> code = 0)"
| "controller_registered _ = False"

fun controller_started :: "event \<Rightarrow> bool" where
  "controller_started (Exec cmd args (Exited code stdout)) =
     (cmd = ''sudo'' \<and> args = [''k0s'', ''start''] \<and> code = 0)"
| "controller_started _ = False"

fun credential_extracted :: "event \<Rightarrow> bool" where
  "credential_extracted (Exec cmd args (Exited code stdout)) =
     (cmd = ''sudo'' \<and> args = [''k0s'', ''kubeconfig'', ''admin''] \<and> code = 0)"
| "credential_extracted _ = False"

fun write_succeeded :: "string \<Rightarrow> event \<Rightarrow> bool" where
  "write_succeeded file (WriteFile f content r) = (f = file \<and> r = None)"
| "write_succeeded file _ = False"

text \<open>Every write that went through is directly followed by \<^verbatim>\<open>chmod 600\<close> on the same file.\<close>

fun chmod_follows_write :: "trace \<Rightarrow> bool" where
  "chmod_follows_write [] = True"
| "chmod_follows_write (WriteFile file content None # es) =
     (case es of [] \<Rightarrow> False | e # es' \<Rightarrow> is_chmod_600 file e \<and> chmod_follows_write es)"
| "chmod_follows_write (e # es) = chmod_follows_write es"

text \<open>
  The discipline of the credential file over the events of a run. The file is written at most
  once, at \<^verbatim>\<open><home>/.kube/config\<close>; a write that went through is directly followed by
  \<^verbatim>\<open>chmod 600\<close>; nothing but that path is published, first as the output, then as the
  variable, once each; a write comes
  only after the verification of the installed binary, the registration and the start of the
  controller and the extraction of the credential have succeeded; a publication comes only
  after the write and the \<^verbatim>\<open>chmod\<close> have succeeded.
\<close>

fun written_file :: "event \<Rightarrow> string option" where
  "written_file (WriteFile file content r) = Some file"
| "written_file _ = None"

definition credential_discipline :: "env \<Rightarrow> trace \<Rightarrow> bool" where
  "credential_discipline env es =
     ((List.map_filter written_file es = []
         \<or> List.map_filter written_file es = [kubeconfigPath env])
      \<and> chmod_follows_write es
      \<and> filter is_publication es
            \<in> {[], [SetOutput ''kubeconfig'' (kubeconfigPath env)],
                [SetOutput ''kubeconfig'' (kubeconfigPath env),
                 ExportVariable ''KUBECONFIG'' (kubeconfigPath env)]}
      \<and> preceded_by verification_succeeded is_credential_write es
      \<and> preceded_by controller_registered is_credential_write es
      \<and> preceded_by controller_started is_credential_write es
      \<and> preceded_by credential_extracted is_credential_write es
      \<and> preceded_by (write_succeeded (kubeconfigPath env)) is_publication es
      \<and> preceded_by (chmod_600_succeeded (kubeconfigPath env)) is_publication es)"

text \<open>
  The file has been written, exactly once, its permissions set, and its path published both
  ways.
\<close>

definition credential_in_place :: "env \<Rightarrow> trace \<Rightarrow> bool" where
  "credential_in_place env es =
     (List.map_filter written_file es = [kubeconfigPath env]
      \<and> list_ex (write_succeeded (kubeconfigPath env)) es
      \<and> list_ex (chmod_600_succeeded (kubeconfigPath env)) es
      \<and> filter is_publication es
            = [SetOutput ''kubeconfig'' (kubeconfigPath env),
               ExportVariable ''KUBECONFIG'' (kubeconfigPath env)])"

text \<open>What \<^verbatim>\<open>main\<close> reads from its inputs, and the three events it starts with.\<close>

definition versionInput :: "env \<Rightarrow> string" where
  "versionInput env = orElse (getInput env ''version'') ''latest''"

definition waitForReadyInput :: "env \<Rightarrow> bool" where
  "waitForReadyInput env = (getInput env ''wait-for-ready'' = ''true'')"

definition timeoutInput :: "env \<Rightarrow> jsnum" where
  "timeoutInput env = parseInt (orElse (getInput env ''timeout'') ''300'')"

definition main_prologue :: "env \<Rightarrow> trace" where
  "main_prologue env =
     [Info ''Starting k0s setup...'', SaveState ''isPost'' ''true'',
      Info (''Configuration: version='' @ versionInput env @ '', wait-for-ready=''
            @ showBool (waitForReadyInput env) @ '', timeout='' @ showNum (timeoutInput env)
            @ ''s'')]"

definition main_epilogue :: trace where
  "main_epilogue = [Info (check_mark @ '' k0s setup completed successfully!'')]"

text \<open>
  The runner keeps what \<^verbatim>\<open>core.saveState\<close> has stored and hands it to the post phase of
  the same step, where \<^verbatim>\<open>core.getState\<close> reads it: the last value saved under a name,
  the empty string when there is none.
\<close>

fun saved_value :: "string \<Rightarrow> event \<Rightarrow> string option" where
  "saved_value name (SaveState n v) = (if n = name then Some v else None)"
| "saved_value name _ = None"

definition savedState :: "trace \<Rightarrow> string \<Rightarrow> string" where
  "savedState tr name =
     (let vs = List.map_filter (saved_value name) tr in if vs = [] then [] else last vs)"

definition post_phase :: "env \<Rightarrow> trace \<Rightarrow> env" where
  "post_phase env tr = env\<lparr>getState := savedState tr\<rparr>"

fun is_state_change :: "event \<Rightarrow> bool" where
  "is_state_change (SaveState n v) = True"
| "is_state_change _ = False"

text \<open>The events of the readiness poller: its log group, its clock reads, its probes.\<close>

fun is_poller_start :: "event \<Rightarrow> bool" where
  "is_poller_start (StartGroup name) = (name = ''Waiting for cluster ready'')"
| "is_poller_start _ = False"

fun is_readiness_check :: "event \<Rightarrow> bool" where
  "is_readiness_check (StartGroup name) = (name = ''Waiting for cluster ready'')"
| "is_readiness_check (DateNow t) = True"
| "is_readiness_check (Exec cmd args out) =
     ((cmd = ''sudo'' \<and> args = [''k0s'', ''status'']) \<or> cmd = ''kubectl''
      \<or> (cmd = ''bash'' \<and> (args = [''-c'', nodes_not_ready_cmd]
                            \<or> args = [''-c'', pods_not_running_cmd])))"
| "is_readiness_check _ = False"

text \<open>The first two steps of \<^verbatim>\<open>main\<close>, installation and controller start, both return.\<close>

definition reaches_wait_step :: "env \<Rightarrow> trace \<Rightarrow> bool" where
  "reaches_wait_step env tr =
     (case installK0s env (versionInput env) (tr @ main_prologue env) of
        Some (Returned u, tr2) \<Rightarrow>
          (case startK0s env tr2 of Some (Returned u', tr3) \<Rightarrow> True | _ \<Rightarrow> False)
      | _ \<Rightarrow> False)"

text \<open>
  The two events \<^verbatim>\<open>waitForClusterReady\<close> starts with. \<open>loop_entry\<close> is the start time
  and the history with which a run of \<^verbatim>\<open>main\<close> enters the loop of the poller, if it gets
  there.
\<close>

definition poller_header :: "jsnum \<Rightarrow> trace" where
  "poller_header t =
     [StartGroup ''Waiting for cluster ready'',
      Info (''Waiting for k0s cluster to be ready (timeout: '' @ showNum t @ ''s)...'')]"

definition loop_entry :: "env \<Rightarrow> trace \<Rightarrow> (int \<times> trace) option" where
  "loop_entry env tr =
     (case installK0s env (versionInput env) (tr @ main_prologue env) of
        Some (Returned u, tr2) \<Rightarrow>
          (case startK0s env tr2 of
             Some (Returned u', tr3) \<Rightarrow>
               if waitForReadyInput env
               then let startTime = date_now env (tr3 @ poller_header (timeoutInput env))
                    in Some (startTime,
                             tr3 @ poller_header (timeoutInput env) @ [DateNow startTime])
               else None
           | _ \<Rightarrow> None)
      | _ \<Rightarrow> None)"

text \<open>
  The history after \<open>n\<close> passes through the loop body, none of which has left the loop:
  the stages of a run of the poller, also of one that never ends.
\<close>

fun after_cycles :: "env \<Rightarrow> jsnum \<Rightarrow> int \<Rightarrow> nat \<Rightarrow> trace \<Rightarrow> trace option" where
  "after_cycles env t s 0 h = Some h"
| "after_cycles env t s (Suc n) h =
     (case pollCycle env t s h of
        Some (Returned Continue, h') \<Rightarrow> after_cycles env t s n h'
      | _ \<Rightarrow> None)"

text \<open>The two messages of the poller's timeout, as thrown in the loop and as rethrown.\<close>

definition timeout_message :: string where
  "timeout_message = ''Timeout waiting for cluster to be ready''"

definition wrapped_timeout_message :: string where
  "wrapped_timeout_message = ''Failed waiting for cluster: Error: '' @ timeout_message"

fun is_timeout_log :: "event \<Rightarrow> bool" where
  "is_timeout_log (LogError msg) = (msg = timeout_message)"
| "is_timeout_log _ = False"

fun is_diagnostics_start :: "event \<Rightarrow> bool" where
  "is_diagnostics_start (StartGroup name) = (name = ''Diagnostic Information'')"
| "is_diagnostics_start _ = False"

fun is_clock_read :: "event \<Rightarrow> bool" where
  "is_clock_read (DateNow t) = True"
| "is_clock_read _ = False"

fun is_warning :: "event \<Rightarrow> bool" where
  "is_warning (Warning msg) = True"
| "is_warning _ = False"

text \<open>The commands a trace has run, in order, and the five probes of the diagnostics.\<close>

fun command_of :: "event \<Rightarrow> (string \<times> string list) option" where
  "command_of (Exec cmd args out) = Some (cmd, args)"
| "command_of _ = None"

definition diagnostic_probes :: "(string \<times> string list) list" where
  "diagnostic_probes =
     [(''sudo'', [''k0s'', ''status'']),
      (''sudo'', [''journalctl'', ''-u'', ''k0scontroller'', ''-n'', ''100'', ''--no-pager'']),
      (''kubectl'', [''cluster-info'']),
      (''kubectl'', [''get'', ''nodes'', ''-o'', ''wide'']),
      (''kubectl'', [''get'', ''pods'', ''-n'', ''kube-system''])]"

fun failed_to_start :: "event \<Rightarrow> bool" where
  "failed_to_start (Exec cmd args (SpawnError msg)) = True"
| "failed_to_start _ = False"

fun is_probe :: "event \<Rightarrow> bool" where
  "is_probe (Exec cmd args out) = True"
| "is_probe _ = False"

text \<open>The warning that the diagnostics log for a probe that could not be started.\<close>

fun failure_warning :: "event \<Rightarrow> event option" where
  "failure_warning (Exec cmd args (SpawnError msg)) =
     Some (Warning (''Failed to gather diagnostics: Error: '' @ msg))"
| "failure_warning _ = None"

text \<open>Events that are no part of a deadline check or of what follows it when it fires.\<close>

definition no_deadline_event :: "event \<Rightarrow> bool" where
  "no_deadline_event e = (\<not> is_clock_read e \<and> \<not> is_timeout_log e \<and> \<not> is_diagnostics_start e)"

text \<open>
  The discipline of the diagnostics over the events of their log group. The probes attempted
  are the first ones of the five, in their order; only the last probe attempted can have
  failed to start; when none has failed to start, all five have been attempted, whatever their
  exit codes; the warnings logged are those of the probes that failed to start.
\<close>

definition diagnostics_discipline :: "trace \<Rightarrow> bool" where
  "diagnostics_discipline es =
     (List.map_filter command_of es
        = take (length (List.map_filter command_of es)) diagnostic_probes
      \<and> list_all (\<lambda>e. \<not> failed_to_start e) (butlast (filter is_probe es))
      \<and> (\<not> list_ex failed_to_start es \<longrightarrow> List.map_filter command_of es = diagnostic_probes)
      \<and> filter is_warning es = List.map_filter failure_warning es)"

text \<open>
  The events of a pass through the loop body in which all four layers pass: the clock read
  of the deadline check, then the four probes, each followed by its log line.
\<close>

definition ready_cycle ::
  "int \<Rightarrow> string \<Rightarrow> string \<Rightarrow> int \<Rightarrow> string \<Rightarrow> int \<Rightarrow> string \<Rightarrow> trace" where
  "ready_cycle now o1 o2 n o3 p o4 =
     [DateNow now,
      Exec ''sudo'' [''k0s'', ''status''] (Exited 0 o1), Info ''  k0s is running'',
      Exec ''kubectl'' [''cluster-info''] (Exited 0 o2),
      Info ''  kubectl can connect to API server'',
      Exec ''bash'' [''-c'', nodes_not_ready_cmd] (Exited n o3), Info ''  All nodes are Ready'',
      Exec ''bash'' [''-c'', pods_not_running_cmd] (Exited p o4),
      Info ''  All kube-system pods are running'']"

fun node_check_failed :: "event \<Rightarrow> bool" where
  "node_check_failed (Exec cmd args (Exited code stdout)) =
     (cmd = ''bash'' \<and> args = [''-c'', nodes_not_ready_cmd] \<and> code = 0)"
| "node_check_failed _ = False"

text \<open>
  A cluster that never becomes ready: from every history the layered checks complete without
  all four layers passing (and without a probe that cannot be started).
\<close>

definition never_ready :: "env \<Rightarrow> bool" where
  "never_ready env = (\<forall>h. \<exists>h'. checkLayers env h = Some (Returned Continue, h'))"

section \<open>Concrete platforms\<close>

definition inputs_of :: "(string \<times> string) list \<Rightarrow> string \<Rightarrow> string" where
  "inputs_of kvs name = (case map_of kvs name of None \<Rightarrow> [] | Some v \<Rightarrow> v)"

text \<open>
  A runner on which every command succeeds: \<^verbatim>\<open>uname -m\<close> prints \<^verbatim>\<open>x86_64\<close>, the
  release query prints a tag, both \<^verbatim>\<open>grep -v\<close> pipelines find no line (exit code 1),
  and the clock advances by what has been slept.
\<close>

definition slept :: "trace \<Rightarrow> int" where
  "slept tr = int (sum_list (map (\<lambda>e. case e of Sleep ms \<Rightarrow> ms | _ \<Rightarrow> 0) tr))"

definition happy_process :: "trace \<Rightarrow> string \<Rightarrow> string list \<Rightarrow> outcome" where
  "happy_process tr cmd args =
     (if cmd = ''uname'' then Exited 0 (''x86_64'' @ [CHR 0x0A])
      else if cmd = ''bash'' \<and> args = [''-c'', resolve_latest_cmd]
      then Exited 0 (''v1.30.0+k0s.0'' @ [CHR 0x0A])
      else if cmd = ''bash'' then Exited 1 []
      else Exited 0 [])"

definition happy_env :: "(string \<times> string) list \<Rightarrow> env" where
  "happy_env kvs =
     \<lparr>getInput = inputs_of kvs, getState = (\<lambda>name. []), homedir = ''/home/runner'',
      path_join = (\<lambda>a b. a @ ''/'' @ b), run_process = happy_process,
      fs_mkdir = (\<lambda>tr dir. None), fs_writeFile = (\<lambda>tr file content. None),
      date_now = slept\<rparr>"

text \<open>The same runner on a machine whose \<^verbatim>\<open>uname -m\<close> prints \<^verbatim>\<open>mips\<close>.\<close>

definition mips_process :: "trace \<Rightarrow> string \<Rightarrow> string list \<Rightarrow> outcome" where
  "mips_process tr cmd args =
     (if cmd = ''uname'' then Exited 0 (''mips'' @ [CHR 0x0A]) else happy_process tr cmd args)"

definition mips_env :: "(string \<times> string) list \<Rightarrow> env" where
  "mips_env kvs = (happy_env kvs)\<lparr>run_process := mips_process\<rparr>"


text \<open>A runner on which the privileged install of the binary fails.\<close>

definition install_fails_process :: "trace \<Rightarrow> string \<Rightarrow> string list \<Rightarrow> outcome" where
  "install_fails_process tr cmd args =
     (if cmd = ''sudo'' \<and> args = [''install'', tmpBinary, ''/usr/local/bin/k0s'']
      then Exited 1 [] else happy_process tr cmd args)"

definition install_fails_env :: "(string \<times> string) list \<Rightarrow> env" where
  "install_fails_env kvs = (happy_env kvs)\<lparr>run_process := install_fails_process\<rparr>"

text \<open>A runner on which the installed binary does not run.\<close>

definition verify_fails_process :: "trace \<Rightarrow> string \<Rightarrow> string list \<Rightarrow> outcome" where
  "verify_fails_process tr cmd args =
     (if cmd = ''k0s'' then Exited 1 [] else happy_process tr cmd args)"

definition verify_fails_env :: "(string \<times> string) list \<Rightarrow> env" where
  "verify_fails_env kvs = (happy_env kvs)\<lparr>run_process := verify_fails_process\<rparr>"


text \<open>A runner on which the service never comes up.\<close>

definition never_up_process :: "trace \<Rightarrow> string \<Rightarrow> string list \<Rightarrow> outcome" where
  "never_up_process tr cmd args =
     (if cmd = ''sudo'' \<and> args = [''k0s'', ''status''] then Exited 1 []
      else happy_process tr cmd args)"

definition never_up_env :: "(string \<times> string) list \<Rightarrow> env" where
  "never_up_env kvs = (happy_env kvs)\<lparr>run_process := never_up_process\<rparr>"

text \<open>
  A runner without \<^verbatim>\<open>kubectl\<close> on its path, on which the service never comes up:
  \<^verbatim>\<open>exec.exec\<close> rejects when it cannot locate the executable.
\<close>

definition no_kubectl_process :: "trace \<Rightarrow> string \<Rightarrow> string list \<Rightarrow> outcome" where
  "no_kubectl_process tr cmd args =
     (if cmd = ''kubectl'' then SpawnError ''Unable to locate executable file: kubectl''
      else never_up_process tr cmd args)"

definition no_kubectl_env :: "(string \<times> string) list \<Rightarrow> env" where
  "no_kubectl_env kvs = (happy_env kvs)\<lparr>run_process := no_kubectl_process\<rparr>"

section \<open>Reasoning about actions\<close>

text \<open>
  \<open>wp m Q tr\<close>: started from \<open>tr\<close>, the action completes, and its completion and
  final trace satisfy \<open>Q\<close>. \<open>emits_only P m\<close>: whenever \<open>m\<close> completes it has only
  appended events that satisfy \<open>P\<close>. \<open>always_completes m\<close>: \<open>m\<close> cannot hang.
\<close>

definition wp :: "'a action \<Rightarrow> ('a result \<Rightarrow> trace \<Rightarrow> bool) \<Rightarrow> trace \<Rightarrow> bool" where
  "wp m Q tr = (case m tr of None \<Rightarrow> False | Some (r, tr') \<Rightarrow> Q r tr')"

definition emits_only :: "(event \<Rightarrow> bool) \<Rightarrow> 'a action \<Rightarrow> bool" where
  "emits_only P m = (\<forall>tr r tr'. m tr = Some (r, tr') \<longrightarrow> (\<exists>es. tr' = tr @ es \<and> list_all P es))"

definition always_completes :: "'a action \<Rightarrow> bool" where
  "always_completes m = (\<forall>tr. m tr \<noteq> None)"

subsection \<open>Symbolic execution\<close>

lemma wpE: "wp m Q tr \<Longrightarrow> \<exists>r tr'. m tr = Some (r, tr') \<and> Q r tr'"
  by (auto simp: wp_def split: option.splits)

lemma wpD: "wp m Q tr \<Longrightarrow> m tr = Some (r, tr') \<Longrightarrow> Q r tr'"
  by (auto simp: wp_def)

lemma wp_ret [simp]: "wp (ret a) Q tr = Q (Returned a) tr"
  by (simp add: wp_def ret_def)

lemma wp_throw [simp]: "wp (throw e) Q tr = Q (Thrown e) tr"
  by (simp add: wp_def throw_def)

lemma wp_emit [simp]: "wp (emit e) Q tr = Q (Returned ()) (tr @ [e])"
  by (simp add: wp_def emit_def)

lemma wp_andThen [simp]:
  "wp (andThen m k) Q tr =
     wp m (\<lambda>r tr'. case r of Returned a \<Rightarrow> wp (k a) Q tr' | Thrown e \<Rightarrow> Q (Thrown e) tr') tr"
  by (simp add: wp_def andThen_def split: option.split result.split prod.split)

lemma wp_tryCatch [simp]:
  "wp (tryCatch body handler) Q tr =
     wp body (\<lambda>r tr'. case r of Returned a \<Rightarrow> Q (Returned a) tr'
                               | Thrown e \<Rightarrow> wp (handler e) Q tr') tr"
  by (simp add: wp_def tryCatch_def split: option.split result.split prod.split)

lemma wp_tryCatchFinally [simp]:
  "wp (tryCatchFinally body handler fin) Q tr =
     wp (tryCatch body handler)
        (\<lambda>r tr'. wp fin (\<lambda>r' tr''. case r' of Returned _ \<Rightarrow> Q r tr''
                                             | Thrown e' \<Rightarrow> Q (Thrown e') tr'') tr') tr"
  by (simp add: wp_def tryCatchFinally_def split: option.split result.split prod.split)

lemma wp_dateNow [simp]:
  "wp (dateNow env) Q tr = Q (Returned (date_now env tr)) (tr @ [DateNow (date_now env tr)])"
  by (simp add: wp_def dateNow_def Let_def)

lemma wp_if [simp]:
  "wp (if c then m1 else m2) Q tr = (if c then wp m1 Q tr else wp m2 Q tr)"
  by simp

lemma wp_Let [simp]: "wp (Let v f) Q tr = wp (f v) Q tr"
  by simp

lemma wp_case_prod [simp]:
  "wp (case p of (a, b) \<Rightarrow> f a b) Q tr = wp (f (fst p) (snd p)) Q tr"
  by (simp add: case_prod_beta)

lemma wp_execI:
  assumes "\<And>msg. run_process env tr cmd args = SpawnError msg \<Longrightarrow>
             Q (Thrown msg) (tr @ [Exec cmd args (SpawnError msg)])"
    and "\<And>code text. run_process env tr cmd args = Exited code text \<Longrightarrow>
             code \<noteq> 0 \<Longrightarrow> \<not> ignoreReturnCode opts \<Longrightarrow>
             Q (Thrown (''The process '' @ [CHR 0x27] @ cmd @ [CHR 0x27]
                        @ '' failed with exit code '' @ showInt code))
               (tr @ [Exec cmd args (Exited code text)])"
    and "\<And>code text. run_process env tr cmd args = Exited code text \<Longrightarrow>
             code = 0 \<or> ignoreReturnCode opts \<Longrightarrow>
             Q (Returned (code, text)) (tr @ [Exec cmd args (Exited code text)])"
  shows "wp (exec env cmd args opts) Q tr"
  using assms by (auto simp: wp_def exec_def Let_def split: outcome.split)

lemma wp_mkdirI:
  assumes "fs_mkdir env tr dir = None \<Longrightarrow> Q (Returned ()) (tr @ [Mkdir dir None])"
    and "\<And>msg. fs_mkdir env tr dir = Some msg \<Longrightarrow>
           Q (Thrown msg) (tr @ [Mkdir dir (Some msg)])"
  shows "wp (mkdir env dir) Q tr"
  using assms by (auto simp: wp_def mkdir_def Let_def split: option.split)

lemma wp_writeFileI:
  assumes "fs_writeFile env tr file content = None \<Longrightarrow>
             Q (Returned ()) (tr @ [WriteFile file content None])"
    and "\<And>msg. fs_writeFile env tr file content = Some msg \<Longrightarrow>
             Q (Thrown msg) (tr @ [WriteFile file content (Some msg)])"
  shows "wp (writeFile env file content) Q tr"
  using assms by (auto simp: wp_def writeFile_def Let_def split: option.split)

lemma wp_exec_anyI:
  assumes "\<And>msg. Q (Thrown msg) (tr @ [Exec cmd args (SpawnError msg)])"
    and "\<And>code text. code \<noteq> 0 \<Longrightarrow> \<not> ignoreReturnCode opts \<Longrightarrow>
             Q (Thrown (''The process '' @ [CHR 0x27] @ cmd @ [CHR 0x27]
                        @ '' failed with exit code '' @ showInt code))
               (tr @ [Exec cmd args (Exited code text)])"
    and "\<And>code text. code = 0 \<or> ignoreReturnCode opts \<Longrightarrow>
             Q (Returned (code, text)) (tr @ [Exec cmd args (Exited code text)])"
  shows "wp (exec env cmd args opts) Q tr"
  using assms by (intro wp_execI) auto

lemma wp_exec_knownI:
  assumes "run_process env tr cmd args = Exited 0 stdout"
    and "Q (Returned (0, stdout)) (tr @ [Exec cmd args (Exited 0 stdout)])"
  shows "wp (exec env cmd args opts) Q tr"
  using assms by (simp add: wp_def exec_def)

lemma wp_mkdir_anyI:
  assumes "Q (Returned ()) (tr @ [Mkdir dir None])"
    and "\<And>msg. Q (Thrown msg) (tr @ [Mkdir dir (Some msg)])"
  shows "wp (mkdir env dir) Q tr"
  using assms by (intro wp_mkdirI) auto

lemma wp_writeFile_anyI:
  assumes "Q (Returned ()) (tr @ [WriteFile file content None])"
    and "\<And>msg. Q (Thrown msg) (tr @ [WriteFile file content (Some msg)])"
  shows "wp (writeFile env file content) Q tr"
  using assms by (intro wp_writeFileI) auto

text \<open>The switch on the architecture, with the token kept abstract.\<close>

lemma wp_binaryArchOfI:
  assumes "\<And>b. binaryArchOf arch = ret b \<Longrightarrow> b \<in> {''amd64'', ''arm64'', ''arm''} \<Longrightarrow>
             Q (Returned b) tr"
    and "binaryArchOf arch = throw (''Unsupported architecture: '' @ arch) \<Longrightarrow>
           Q (Thrown (''Unsupported architecture: '' @ arch)) tr"
  shows "wp (binaryArchOf arch) Q tr"
  using assms by (auto simp: binaryArchOf_def split: if_splits)

lemma wp_cong: "tr = tr' \<Longrightarrow> wp m Q tr = wp m Q tr'"
  by simp

lemmas wp_stepI = wp_exec_anyI wp_mkdir_anyI wp_writeFile_anyI wp_binaryArchOfI conjI impI allI

lemmas core_defs = info_def logError_def warning_def startGroup_def endGroup_def saveState_def
  setOutput_def exportVariable_def setFailed_def sleep_def

lemma ret_eq_iff [simp]: "(ret a = ret b) = (a = b)"
  by (auto simp: ret_def fun_eq_iff)

lemma ret_neq_throw [simp]: "ret a \<noteq> throw e" "throw e \<noteq> ret a"
  by (auto simp: ret_def throw_def fun_eq_iff)

lemma throw_eq_iff [simp]: "(throw a = throw b) = (a = b)"
  by (auto simp: throw_def fun_eq_iff)

lemmas exec_simps = errorToString_def default_options_def

lemma emitted_Some: "m tr = Some (r, tr @ es) \<Longrightarrow> emitted m tr = es"
  by (simp add: emitted_def)

lemma map_filter_append: "List.map_filter f (xs @ ys) = List.map_filter f xs @ List.map_filter f ys"
  by (simp add: List.map_filter_def)

subsection \<open>Which events an action can emit\<close>

lemma emits_onlyD:
  "emits_only P m \<Longrightarrow> m tr = Some (r, tr') \<Longrightarrow> \<exists>es. tr' = tr @ es \<and> list_all P es"
  by (simp add: emits_only_def)

lemma emits_only_ret: "emits_only P (ret a)"
  by (simp add: emits_only_def ret_def)

lemma emits_only_throw: "emits_only P (throw e)"
  by (simp add: emits_only_def throw_def)

lemma emits_only_emit: "P e \<Longrightarrow> emits_only P (emit e)"
  by (auto simp: emits_only_def emit_def)

lemma emits_only_andThen:
  assumes "emits_only P m" and "\<And>a. emits_only P (k a)"
  shows "emits_only P (andThen m k)"
  unfolding emits_only_def
proof (intro allI impI)
  fix tr r tr'
  assume run: "andThen m k tr = Some (r, tr')"
  then obtain r1 tr1 where m: "m tr = Some (r1, tr1)"
    by (auto simp: andThen_def split: option.splits)
  from emits_onlyD [OF assms(1) m] obtain es1 where es1: "tr1 = tr @ es1" "list_all P es1"
    by blast
  show "\<exists>es. tr' = tr @ es \<and> list_all P es"
  proof (cases r1)
    case (Returned a)
    with run m have "k a tr1 = Some (r, tr')"
      by (simp add: andThen_def)
    from emits_onlyD [OF assms(2) this] obtain es2 where "tr' = tr1 @ es2" "list_all P es2"
      by blast
    with es1 show ?thesis by auto
  next
    case (Thrown e)
    with run m have "tr' = tr1" by (simp add: andThen_def)
    with es1 show ?thesis by auto
  qed
qed

lemma emits_only_tryCatch:
  assumes "emits_only P body" and "\<And>e. emits_only P (handler e)"
  shows "emits_only P (tryCatch body handler)"
  unfolding emits_only_def
proof (intro allI impI)
  fix tr r tr'
  assume run: "tryCatch body handler tr = Some (r, tr')"
  then obtain r1 tr1 where m: "body tr = Some (r1, tr1)"
    by (auto simp: tryCatch_def split: option.splits)
  from emits_onlyD [OF assms(1) m] obtain es1 where es1: "tr1 = tr @ es1" "list_all P es1"
    by blast
  show "\<exists>es. tr' = tr @ es \<and> list_all P es"
  proof (cases r1)
    case (Returned a)
    with run m have "tr' = tr1" by (simp add: tryCatch_def)
    with es1 show ?thesis by auto
  next
    case (Thrown e)
    with run m have "handler e tr1 = Some (r, tr')"
      by (simp add: tryCatch_def)
    from emits_onlyD [OF assms(2) this] obtain es2 where "tr' = tr1 @ es2" "list_all P es2"
      by blast
    with es1 show ?thesis by auto
  qed
qed

lemma emits_only_tryCatchFinally:
  assumes "emits_only P body" and "\<And>e. emits_only P (handler e)" and "emits_only P fin"
  shows "emits_only P (tryCatchFinally body handler fin)"
  unfolding emits_only_def
proof (intro allI impI)
  fix tr r tr'
  assume run: "tryCatchFinally body handler fin tr = Some (r, tr')"
  then obtain r1 tr1 where m: "tryCatch body handler tr = Some (r1, tr1)"
    by (auto simp: tryCatchFinally_def split: option.splits)
  from emits_onlyD [OF emits_only_tryCatch [OF assms(1,2)] m]
  obtain es1 where es1: "tr1 = tr @ es1" "list_all P es1"
    by blast
  from run m obtain r2 where "fin tr1 = Some (r2, tr')"
    by (auto simp: tryCatchFinally_def split: option.splits result.splits)
  from emits_onlyD [OF assms(3) this] obtain es2 where "tr' = tr1 @ es2" "list_all P es2"
    by blast
  with es1 show "\<exists>es. tr' = tr @ es \<and> list_all P es" by auto
qed

lemma emits_only_exec: "(\<And>out. P (Exec cmd args out)) \<Longrightarrow> emits_only P (exec env cmd args opts)"
  by (auto simp: emits_only_def exec_def Let_def split: outcome.splits if_splits)

lemma emits_only_mkdir: "(\<And>r. P (Mkdir dir r)) \<Longrightarrow> emits_only P (mkdir env dir)"
  by (auto simp: emits_only_def mkdir_def Let_def split: option.splits)

lemma emits_only_writeFile:
  "(\<And>r. P (WriteFile file content r)) \<Longrightarrow> emits_only P (writeFile env file content)"
  by (auto simp: emits_only_def writeFile_def Let_def split: option.splits)

lemma emits_only_dateNow: "(\<And>t. P (DateNow t)) \<Longrightarrow> emits_only P (dateNow env)"
  by (auto simp: emits_only_def dateNow_def Let_def)

lemma emits_only_if:
  "(c \<Longrightarrow> emits_only P m1) \<Longrightarrow> (\<not> c \<Longrightarrow> emits_only P m2) \<Longrightarrow> emits_only P (if c then m1 else m2)"
  by simp

lemma emits_only_case_prod:
  "(\<And>a b. emits_only P (f a b)) \<Longrightarrow> emits_only P (case p of (a, b) \<Rightarrow> f a b)"
  by (simp split: prod.split)

lemma emits_only_case_flow:
  "emits_only P m1 \<Longrightarrow> emits_only P m2 \<Longrightarrow> emits_only P (case fl of Break \<Rightarrow> m1 | Continue \<Rightarrow> m2)"
  by (simp split: flow.split)

lemmas emits_only_intros = emits_only_ret emits_only_throw emits_only_emit emits_only_andThen
  emits_only_tryCatch emits_only_tryCatchFinally emits_only_exec emits_only_mkdir
  emits_only_writeFile emits_only_dateNow emits_only_if emits_only_case_prod emits_only_case_flow



subsection \<open>Actions that cannot hang\<close>

lemma always_completesD:
  assumes "always_completes m"
  obtains r tr' where "m tr = Some (r, tr')"
proof -
  from assms have "m tr \<noteq> None"
    unfolding always_completes_def by (rule spec)
  then show thesis using that by (cases "m tr") auto
qed

lemma always_completes_ret: "always_completes (ret a)"
  by (simp add: always_completes_def ret_def)

lemma always_completes_throw: "always_completes (throw e)"
  by (simp add: always_completes_def throw_def)

lemma always_completes_emit: "always_completes (emit e)"
  by (simp add: always_completes_def emit_def)

lemma always_completes_andThen:
  "always_completes m \<Longrightarrow> (\<And>a. always_completes (k a)) \<Longrightarrow> always_completes (andThen m k)"
  by (auto simp: always_completes_def andThen_def split: option.splits result.splits)

lemma always_completes_tryCatch:
  "always_completes body \<Longrightarrow> (\<And>e. always_completes (handler e))
   \<Longrightarrow> always_completes (tryCatch body handler)"
  by (auto simp: always_completes_def tryCatch_def split: option.splits result.splits)

lemma always_completes_tryCatchFinally:
  "always_completes body \<Longrightarrow> (\<And>e. always_completes (handler e)) \<Longrightarrow> always_completes fin
   \<Longrightarrow> always_completes (tryCatchFinally body handler fin)"
proof -
  assume b: "always_completes body" and h: "\<And>e. always_completes (handler e)"
    and f: "always_completes fin"
  show ?thesis
    unfolding always_completes_def
  proof
    fix tr
    have "always_completes (tryCatch body handler)"
      using b h by (rule always_completes_tryCatch)
    then obtain r1 tr1 where 1: "tryCatch body handler tr = Some (r1, tr1)"
      by (rule always_completesD)
    from f obtain r2 tr2 where 2: "fin tr1 = Some (r2, tr2)"
      by (rule always_completesD)
    from 1 2 show "tryCatchFinally body handler fin tr \<noteq> None"
      by (cases r2) (simp_all add: tryCatchFinally_def)
  qed
qed

lemma always_completes_exec: "always_completes (exec env cmd args opts)"
  by (simp add: always_completes_def exec_def Let_def split: outcome.split)

lemma always_completes_mkdir: "always_completes (mkdir env dir)"
  by (simp add: always_completes_def mkdir_def Let_def split: option.split)

lemma always_completes_writeFile: "always_completes (writeFile env file content)"
  by (simp add: always_completes_def writeFile_def Let_def split: option.split)

lemma always_completes_dateNow: "always_completes (dateNow env)"
  by (simp add: always_completes_def dateNow_def Let_def)

lemma always_completes_if:
  "(c \<Longrightarrow> always_completes m1) \<Longrightarrow> (\<not> c \<Longrightarrow> always_completes m2)
   \<Longrightarrow> always_completes (if c then m1 else m2)"
  by simp

lemma always_completes_case_prod:
  "(\<And>a b. always_completes (f a b)) \<Longrightarrow> always_completes (case p of (a, b) \<Rightarrow> f a b)"
  by (simp split: prod.split)

lemma always_completes_case_flow:
  "always_completes m1 \<Longrightarrow> always_completes m2
   \<Longrightarrow> always_completes (case fl of Break \<Rightarrow> m1 | Continue \<Rightarrow> m2)"
  by (simp split: flow.split)

lemmas always_completes_intros = always_completes_ret always_completes_throw
  always_completes_emit always_completes_andThen always_completes_tryCatch
  always_completes_tryCatchFinally always_completes_exec always_completes_mkdir
  always_completes_writeFile always_completes_dateNow always_completes_if
  always_completes_case_prod always_completes_case_flow

lemma emits_only_True: "emits_only P m \<Longrightarrow> emits_only (\<lambda>e. True) m"
  unfolding emits_only_def by (simp add: list_all_iff) blast

lemma completes_extends:
  assumes "always_completes m" and "emits_only P m"
  obtains r es where "m tr = Some (r, tr @ es)" and "list_all P es"
proof -
  from assms(1) obtain r tr' where run: "m tr = Some (r, tr')"
    by (rule always_completesD)
  from emits_onlyD [OF assms(2) run] obtain es where "tr' = tr @ es" "list_all P es"
    by blast
  with run that show thesis by blast
qed

lemma installK0s_emits:
  assumes "\<And>s. P (Info s)" and "P (StartGroup ''Installing k0s'')" and "P EndGroup"
    and "\<And>out. P (Exec ''uname'' [''-m''] out)"
    and "\<And>out. P (Exec ''bash'' [''-c'', resolve_latest_cmd] out)"
    and "\<And>url out. P (Exec ''curl'' [''-sfL'', url, ''-o'', tmpBinary] out)"
    and "\<And>out. P (Exec ''sudo'' [''install'', tmpBinary, ''/usr/local/bin/k0s''] out)"
    and "\<And>out. P (Exec ''rm'' [''-f'', tmpBinary] out)"
    and "\<And>out. P (Exec ''k0s'' [''version''] out)"
  shows "emits_only P (installK0s env version)"
  unfolding installK0s_def core_defs Let_def binaryArchOf_def
  by (intro emits_only_intros assms)

lemma startK0s_emits:
  assumes "\<And>s. P (Info s)" and "P (StartGroup ''Starting k0s cluster'')" and "P EndGroup"
    and "\<And>out. P (Exec ''sudo'' [''k0s'', ''install'', ''controller'', ''--single''] out)"
    and "\<And>out. P (Exec ''sudo'' [''k0s'', ''start''] out)"
    and "\<And>out. P (Exec ''sudo'' [''k0s'', ''kubeconfig'', ''admin''] out)"
    and "\<And>file out. P (Exec ''chmod'' [''600'', file] out)"
    and "P (Sleep 10000)" and "\<And>dir r. P (Mkdir dir r)"
    and "\<And>file content r. P (WriteFile file content r)"
    and "\<And>v. P (SetOutput ''kubeconfig'' v)" and "\<And>v. P (ExportVariable ''KUBECONFIG'' v)"
  shows "emits_only P (startK0s env)"
  unfolding startK0s_def core_defs Let_def
  by (intro emits_only_intros assms)

lemma showDiagnostics_emits:
  assumes "\<And>s. P (Info s)" and "\<And>s. P (Warning s)"
    and "P (StartGroup ''Diagnostic Information'')" and "P EndGroup"
    and "\<And>out. P (Exec ''sudo'' [''k0s'', ''status''] out)"
    and "\<And>out. P (Exec ''sudo''
           [''journalctl'', ''-u'', ''k0scontroller'', ''-n'', ''100'', ''--no-pager''] out)"
    and "\<And>out. P (Exec ''kubectl'' [''cluster-info''] out)"
    and "\<And>out. P (Exec ''kubectl'' [''get'', ''nodes'', ''-o'', ''wide''] out)"
    and "\<And>out. P (Exec ''kubectl'' [''get'', ''pods'', ''-n'', ''kube-system''] out)"
  shows "emits_only P (showDiagnostics env)"
  unfolding showDiagnostics_def core_defs
  by (intro emits_only_intros assms)

lemma checkLayers_emits:
  assumes "\<And>s. P (Info s)"
    and "\<And>out. P (Exec ''sudo'' [''k0s'', ''status''] out)"
    and "\<And>out. P (Exec ''kubectl'' [''cluster-info''] out)"
    and "\<And>out. P (Exec ''bash'' [''-c'', nodes_not_ready_cmd] out)"
    and "\<And>out. P (Exec ''bash'' [''-c'', pods_not_running_cmd] out)"
  shows "emits_only P (checkLayers env)"
  unfolding checkLayers_def core_defs
  by (intro emits_only_intros assms)

text \<open>The events of the poller other than the log lines.\<close>

lemma pollCycle_emits:
  assumes "\<And>s. P (Info s)" and "\<And>s. P (Warning s)"
    and "P (LogError ''Timeout waiting for cluster to be ready'')"
    and "P (StartGroup ''Diagnostic Information'')" and "P EndGroup"
    and "\<And>t. P (DateNow t)" and "P (Sleep 5000)"
    and "\<And>out. P (Exec ''sudo'' [''k0s'', ''status''] out)"
    and "\<And>out. P (Exec ''sudo''
           [''journalctl'', ''-u'', ''k0scontroller'', ''-n'', ''100'', ''--no-pager''] out)"
    and "\<And>out. P (Exec ''kubectl'' [''cluster-info''] out)"
    and "\<And>out. P (Exec ''kubectl'' [''get'', ''nodes'', ''-o'', ''wide''] out)"
    and "\<And>out. P (Exec ''kubectl'' [''get'', ''pods'', ''-n'', ''kube-system''] out)"
    and "\<And>out. P (Exec ''bash'' [''-c'', nodes_not_ready_cmd] out)"
    and "\<And>out. P (Exec ''bash'' [''-c'', pods_not_running_cmd] out)"
  shows "emits_only P (pollCycle env timeoutSeconds startTime)"
  unfolding pollCycle_def core_defs Let_def
  by (intro emits_only_intros showDiagnostics_emits checkLayers_emits assms)

text \<open>
  A run of the loop that ends has a last pass through the body, started from a history that
  the earlier passes have reached, and that pass left the loop or threw.
\<close>

lemma pollLoop_last_cycle_aux:
  assumes "pollLoop env t s tr = Some y"
  shows "\<forall>I. I tr \<and> (\<forall>h h'. I h \<and> pollCycle env t s h = Some (Returned Continue, h') \<longrightarrow> I h')
           \<longrightarrow> (\<exists>h. I h \<and> (pollCycle env t s h = Some (Returned Break, snd y) \<and> fst y = Returned ()
                              \<or> (\<exists>e. pollCycle env t s h = Some (Thrown e, snd y) \<and> fst y = Thrown e)))"
  using assms
proof (rule pollLoop.raw_induct [rotated], goal_cases)
  case (1 loop env t s tr y)
  show ?case
  proof (intro allI impI)
    fix I
    assume inv: "I tr \<and> (\<forall>h h'. I h \<and> pollCycle env t s h = Some (Returned Continue, h') \<longrightarrow> I h')"
    from 1(2) obtain r1 tr1 where cyc: "pollCycle env t s tr = Some (r1, tr1)"
      by (auto split: option.splits)
    show "\<exists>h. I h \<and> (pollCycle env t s h = Some (Returned Break, snd y) \<and> fst y = Returned ()
                     \<or> (\<exists>e. pollCycle env t s h = Some (Thrown e, snd y) \<and> fst y = Thrown e))"
    proof (cases r1)
      case (Thrown e)
      with 1(2) cyc have "y = (Thrown e, tr1)" by simp
      with cyc Thrown inv show ?thesis by auto
    next
      case (Returned fl)
      show ?thesis
      proof (cases fl)
        case Break
        with 1(2) cyc Returned have "y = (Returned (), tr1)" by simp
        with cyc Returned Break inv show ?thesis by auto
      next
        case Continue
        with 1(2) cyc Returned have next_run: "loop env t s tr1 = Some y" by simp
        from inv cyc Returned Continue have "I tr1" by blast
        from 1(1) [OF next_run]
        have "I tr1 \<and> (\<forall>h h'. I h \<and> pollCycle env t s h = Some (Returned Continue, h') \<longrightarrow> I h')
           \<longrightarrow> (\<exists>h. I h \<and> (pollCycle env t s h = Some (Returned Break, snd y) \<and> fst y = Returned ()
                              \<or> (\<exists>e. pollCycle env t s h = Some (Thrown e, snd y) \<and> fst y = Thrown e)))"
          by (rule spec)
        with inv \<open>I tr1\<close> show ?thesis by blast
      qed
    qed
  qed
qed

lemma pollLoop_last_cycle:
  assumes "pollLoop env t s tr = Some (r, tr')"
    and "I tr"
    and "\<And>h h'. I h \<Longrightarrow> pollCycle env t s h = Some (Returned Continue, h') \<Longrightarrow> I h'"
  shows "\<exists>h. I h \<and> (pollCycle env t s h = Some (Returned Break, tr') \<and> r = Returned ()
                    \<or> (\<exists>e. pollCycle env t s h = Some (Thrown e, tr') \<and> r = Thrown e))"
  using pollLoop_last_cycle_aux [OF assms(1)] assms(2,3) by simp blast

lemma pollLoop_emits:
  assumes "emits_only P (pollCycle env t s)"
  shows "emits_only P (pollLoop env t s)"
  unfolding emits_only_def
proof (intro allI impI)
  fix tr r tr'
  assume run: "pollLoop env t s tr = Some (r, tr')"
  have "\<exists>h. (\<exists>es. h = tr @ es \<and> list_all P es)
          \<and> (pollCycle env t s h = Some (Returned Break, tr') \<and> r = Returned ()
              \<or> (\<exists>e. pollCycle env t s h = Some (Thrown e, tr') \<and> r = Thrown e))"
  proof (rule pollLoop_last_cycle [OF run])
    show "\<exists>es. tr = tr @ es \<and> list_all P es" by simp
  next
    fix h h'
    assume "\<exists>es. h = tr @ es \<and> list_all P es"
      and "pollCycle env t s h = Some (Returned Continue, h')"
    with emits_onlyD [OF assms] show "\<exists>es. h' = tr @ es \<and> list_all P es"
      by fastforce
  qed
  then obtain h es r1 where h: "h = tr @ es" "list_all P es"
    and last: "pollCycle env t s h = Some (r1, tr')"
    by blast
  from emits_onlyD [OF assms last] h show "\<exists>es. tr' = tr @ es \<and> list_all P es"
    by fastforce
qed

lemma waitForClusterReady_emits:
  assumes "\<And>s. P (Info s)" and "\<And>s. P (Warning s)"
    and "P (LogError ''Timeout waiting for cluster to be ready'')"
    and "P (StartGroup ''Waiting for cluster ready'')"
    and "P (StartGroup ''Diagnostic Information'')" and "P EndGroup"
    and "\<And>t. P (DateNow t)" and "P (Sleep 5000)"
    and "\<And>out. P (Exec ''sudo'' [''k0s'', ''status''] out)"
    and "\<And>out. P (Exec ''sudo''
           [''journalctl'', ''-u'', ''k0scontroller'', ''-n'', ''100'', ''--no-pager''] out)"
    and "\<And>out. P (Exec ''kubectl'' [''cluster-info''] out)"
    and "\<And>out. P (Exec ''kubectl'' [''get'', ''nodes'', ''-o'', ''wide''] out)"
    and "\<And>out. P (Exec ''kubectl'' [''get'', ''pods'', ''-n'', ''kube-system''] out)"
    and "\<And>out. P (Exec ''bash'' [''-c'', nodes_not_ready_cmd] out)"
    and "\<And>out. P (Exec ''bash'' [''-c'', pods_not_running_cmd] out)"
  shows "emits_only P (waitForClusterReady env timeoutSeconds)"
  unfolding waitForClusterReady_def core_defs
  by (intro emits_only_intros pollLoop_emits pollCycle_emits assms)

lemma installK0s_completes: "always_completes (installK0s env version)"
  unfolding installK0s_def core_defs Let_def binaryArchOf_def
  by (intro always_completes_intros)

lemma startK0s_completes: "always_completes (startK0s env)"
  unfolding startK0s_def core_defs Let_def
  by (intro always_completes_intros)

lemma showDiagnostics_completes: "always_completes (showDiagnostics env)"
  unfolding showDiagnostics_def core_defs
  by (intro always_completes_intros)

lemma checkLayers_completes: "always_completes (checkLayers env)"
  unfolding checkLayers_def core_defs
  by (intro always_completes_intros)

lemma pollCycle_completes: "always_completes (pollCycle env timeoutSeconds startTime)"
  unfolding pollCycle_def core_defs Let_def
  by (intro always_completes_intros showDiagnostics_completes checkLayers_completes)

lemma andThen_emit: "andThen (emit e) k tr = k () (tr @ [e])"
  by (simp add: andThen_def emit_def)

lemma tryCatch_rethrow: "tryCatch m (\<lambda>error. throw error) = m"
  by (auto simp: tryCatch_def throw_def fun_eq_iff split: option.split result.split)

lemma main_eq:
  "main env tr =
     (case installK0s env (versionInput env) (tr @ main_prologue env) of
        None \<Rightarrow> None
      | Some (Thrown e, tr2) \<Rightarrow> Some (Thrown e, tr2)
      | Some (Returned u, tr2) \<Rightarrow>
          (case startK0s env tr2 of
             None \<Rightarrow> None
           | Some (Thrown e, tr3) \<Rightarrow> Some (Thrown e, tr3)
           | Some (Returned u, tr3) \<Rightarrow>
               if waitForReadyInput env
               then (case waitForClusterReady env (timeoutInput env) tr3 of
                       None \<Rightarrow> None
                     | Some (Thrown e, tr4) \<Rightarrow> Some (Thrown e, tr4)
                     | Some (Returned u, tr4) \<Rightarrow> Some (Returned (), tr4 @ main_epilogue))
               else Some (Returned (), tr3 @ main_epilogue)))"
  (is "_ = ?rhs")
proof -
  have "main env tr =
     andThen (installK0s env (versionInput env)) (\<lambda>_.
     andThen (startK0s env) (\<lambda>_.
     andThen (if waitForReadyInput env then waitForClusterReady env (timeoutInput env) else ret ())
       (\<lambda>_. info (check_mark @ '' k0s setup completed successfully!''))))
       (tr @ main_prologue env)"
    unfolding main_def tryCatch_rethrow Let_def
    by (simp add: core_defs andThen_emit versionInput_def waitForReadyInput_def timeoutInput_def
        main_prologue_def)
  also have "\<dots> = ?rhs"
    by (simp add: andThen_def core_defs emit_def ret_def main_epilogue_def
        split: option.split result.split prod.split)
  finally show ?thesis .
qed


lemma installK0s_run:
  obtains r es where "installK0s env version tr = Some (r, tr @ es)"
  using completes_extends [OF installK0s_completes emits_only_True [OF installK0s_emits]]
  by (metis (full_types))

lemma startK0s_run:
  obtains r es where "startK0s env tr = Some (r, tr @ es)"
  using completes_extends [OF startK0s_completes emits_only_True [OF startK0s_emits]]
  by (metis (full_types))

lemma waitForClusterReady_extends:
  assumes "waitForClusterReady env timeoutSeconds tr = Some (r, tr')"
  obtains es where "tr' = tr @ es"
  using emits_onlyD [OF emits_only_True [OF waitForClusterReady_emits] assms]
  by (metis (full_types))

text \<open>How a run of \<^verbatim>\<open>main\<close> that completes is made up.\<close>

lemma main_cases [consumes 1, case_names install_failed start_failed no_wait wait_failed ready]:
  assumes "main env tr = Some (r, tr')"
  obtains
    (install_failed) e es_i where
      "installK0s env (versionInput env) (tr @ main_prologue env)
         = Some (Thrown e, tr @ main_prologue env @ es_i)"
      "r = Thrown e" "tr' = tr @ main_prologue env @ es_i"
  | (start_failed) es_i e es_s where
      "installK0s env (versionInput env) (tr @ main_prologue env)
         = Some (Returned (), tr @ main_prologue env @ es_i)"
      "startK0s env (tr @ main_prologue env @ es_i)
         = Some (Thrown e, tr @ main_prologue env @ es_i @ es_s)"
      "r = Thrown e" "tr' = tr @ main_prologue env @ es_i @ es_s"
  | (no_wait) es_i es_s where
      "installK0s env (versionInput env) (tr @ main_prologue env)
         = Some (Returned (), tr @ main_prologue env @ es_i)"
      "startK0s env (tr @ main_prologue env @ es_i)
         = Some (Returned (), tr @ main_prologue env @ es_i @ es_s)"
      "\<not> waitForReadyInput env"
      "r = Returned ()" "tr' = tr @ main_prologue env @ es_i @ es_s @ main_epilogue"
  | (wait_failed) es_i es_s e es_w where
      "installK0s env (versionInput env) (tr @ main_prologue env)
         = Some (Returned (), tr @ main_prologue env @ es_i)"
      "startK0s env (tr @ main_prologue env @ es_i)
         = Some (Returned (), tr @ main_prologue env @ es_i @ es_s)"
      "waitForReadyInput env"
      "waitForClusterReady env (timeoutInput env) (tr @ main_prologue env @ es_i @ es_s)
         = Some (Thrown e, tr @ main_prologue env @ es_i @ es_s @ es_w)"
      "r = Thrown e" "tr' = tr @ main_prologue env @ es_i @ es_s @ es_w"
  | (ready) es_i es_s es_w where
      "installK0s env (versionInput env) (tr @ main_prologue env)
         = Some (Returned (), tr @ main_prologue env @ es_i)"
      "startK0s env (tr @ main_prologue env @ es_i)
         = Some (Returned (), tr @ main_prologue env @ es_i @ es_s)"
      "waitForReadyInput env"
      "waitForClusterReady env (timeoutInput env) (tr @ main_prologue env @ es_i @ es_s)
         = Some (Returned (), tr @ main_prologue env @ es_i @ es_s @ es_w)"
      "r = Returned ()"
      "tr' = tr @ main_prologue env @ es_i @ es_s @ es_w @ main_epilogue"
proof -
  obtain r_i es_i where i: "installK0s env (versionInput env) (tr @ main_prologue env)
      = Some (r_i, tr @ main_prologue env @ es_i)"
    using installK0s_run [of env "versionInput env" "tr @ main_prologue env"] by auto
  show thesis
  proof (cases r_i)
    case (Thrown e)
    with i have "main env tr = Some (Thrown e, tr @ main_prologue env @ es_i)"
      by (simp add: main_eq)
    with assms have "r = Thrown e" "tr' = tr @ main_prologue env @ es_i"
      by simp_all
    with i Thrown show thesis
      by (intro install_failed [of e es_i]) simp_all
  next
    case (Returned u)
    with i have i': "installK0s env (versionInput env) (tr @ main_prologue env)
      = Some (Returned (), tr @ main_prologue env @ es_i)"
      by simp
    obtain r_s es_s where s: "startK0s env (tr @ main_prologue env @ es_i)
        = Some (r_s, tr @ main_prologue env @ es_i @ es_s)"
      using startK0s_run [of env "tr @ main_prologue env @ es_i"] by auto
    show thesis
    proof (cases r_s)
      case (Thrown e)
      with i' s have "main env tr = Some (Thrown e, tr @ main_prologue env @ es_i @ es_s)"
        by (simp add: main_eq)
      with assms have "r = Thrown e" "tr' = tr @ main_prologue env @ es_i @ es_s"
        by simp_all
      with i' s Thrown show thesis
        by (intro start_failed [of es_i e es_s]) simp_all
    next
      case r_s: (Returned u')
      with s have s': "startK0s env (tr @ main_prologue env @ es_i)
        = Some (Returned (), tr @ main_prologue env @ es_i @ es_s)"
        by simp
      show thesis
      proof (cases "waitForReadyInput env")
        case False
        with i' s' have "main env tr
            = Some (Returned (), tr @ main_prologue env @ es_i @ es_s @ main_epilogue)"
          by (simp add: main_eq)
        with assms have "r = Returned ()"
          "tr' = tr @ main_prologue env @ es_i @ es_s @ main_epilogue"
          by simp_all
        with i' s' False show thesis
          by (intro no_wait [of es_i es_s]) simp_all
      next
        case True
        with i' s' have m: "main env tr =
          (case waitForClusterReady env (timeoutInput env) (tr @ main_prologue env @ es_i @ es_s) of
             None \<Rightarrow> None
           | Some (Thrown e, tr4) \<Rightarrow> Some (Thrown e, tr4)
           | Some (Returned u, tr4) \<Rightarrow> Some (Returned (), tr4 @ main_epilogue))"
          by (simp add: main_eq)
        with assms obtain r_w tr_w where
          w: "waitForClusterReady env (timeoutInput env) (tr @ main_prologue env @ es_i @ es_s)
                = Some (r_w, tr_w)"
          by (cases "waitForClusterReady env (timeoutInput env)
                       (tr @ main_prologue env @ es_i @ es_s)") auto
        then obtain es_w where tr_w: "tr_w = (tr @ main_prologue env @ es_i @ es_s) @ es_w"
          by (rule waitForClusterReady_extends)
        show thesis
        proof (cases r_w)
          case (Thrown e)
          with m w tr_w have "main env tr
              = Some (Thrown e, tr @ main_prologue env @ es_i @ es_s @ es_w)"
            by simp
          with assms have "r = Thrown e" "tr' = tr @ main_prologue env @ es_i @ es_s @ es_w"
            by simp_all
          with i' s' True w tr_w Thrown show thesis
            by (intro wait_failed [of es_i es_s e es_w]) simp_all
        next
          case (Returned u'')
          with m w tr_w have "main env tr
              = Some (Returned (), tr @ main_prologue env @ es_i @ es_s @ es_w @ main_epilogue)"
            by simp
          with assms have "r = Returned ()"
            "tr' = tr @ main_prologue env @ es_i @ es_s @ es_w @ main_epilogue"
            by simp_all
          with i' s' True w tr_w Returned show thesis
            by (intro ready [of es_i es_s es_w]) simp_all
        qed
      qed
    qed
  qed
qed


text \<open>The events of a completed run around its call of the installer.\<close>

lemma main_after_installer:
  assumes run: "main env tr = Some (r, tr')"
    and start: "emits_only P (startK0s env)"
    and wait: "emits_only P (waitForClusterReady env (timeoutInput env))"
    and epilogue: "list_all P main_epilogue"
  obtains r_i es_i rest where
    "installK0s env (versionInput env) (tr @ main_prologue env)
       = Some (r_i, tr @ main_prologue env @ es_i)"
    "tr' = tr @ main_prologue env @ es_i @ rest" "list_all P rest"
  using run
proof (cases rule: main_cases)
  case (install_failed e es_i)
  then show ?thesis using that [of "Thrown e" es_i "[]"] by simp
next
  case (start_failed es_i e es_s)
  from emits_onlyD [OF start start_failed(2)] have "list_all P es_s" by auto
  with start_failed show ?thesis using that [of "Returned ()" es_i es_s] by simp
next
  case (no_wait es_i es_s)
  from emits_onlyD [OF start no_wait(2)] have "list_all P es_s" by auto
  with no_wait epilogue show ?thesis
    using that [of "Returned ()" es_i "es_s @ main_epilogue"] by simp
next
  case (wait_failed es_i es_s e es_w)
  from emits_onlyD [OF start wait_failed(2)] have "list_all P es_s" by auto
  moreover from emits_onlyD [OF wait wait_failed(4)] have "list_all P es_w" by auto
  ultimately show ?thesis
    using wait_failed that [of "Returned ()" es_i "es_s @ es_w"] by simp
next
  case (ready es_i es_s es_w)
  from emits_onlyD [OF start ready(2)] have "list_all P es_s" by auto
  moreover from emits_onlyD [OF wait ready(4)] have "list_all P es_w" by auto
  ultimately show ?thesis
    using ready epilogue that [of "Returned ()" es_i "es_s @ es_w @ main_epilogue"] by simp
qed


text \<open>The events of a completed run around its call of the controller launcher.\<close>

lemma main_around_start [consumes 1, case_names not_started started]:
  assumes run: "main env tr = Some (r, tr')"
    and install: "emits_only P (installK0s env (versionInput env))"
    and wait: "emits_only P (waitForClusterReady env (timeoutInput env))"
    and prologue: "list_all P (main_prologue env)"
    and epilogue: "list_all P main_epilogue"
  obtains
    (not_started) es where "tr' = tr @ es" "list_all P es" "r \<noteq> Returned ()"
  | (started) before r_s es_s after where
      "startK0s env (tr @ before) = Some (r_s, tr @ before @ es_s)"
      "tr' = tr @ before @ es_s @ after" "list_all P before" "list_all P after"
      "r = Returned () \<longrightarrow> r_s = Returned ()"
  using run
proof (cases rule: main_cases)
  case (install_failed e es_i)
  from emits_onlyD [OF install install_failed(1)] have "list_all P es_i" by auto
  with install_failed prologue show ?thesis
    using not_started [of "main_prologue env @ es_i"] by simp
next
  case (start_failed es_i e es_s)
  from emits_onlyD [OF install start_failed(1)] have "list_all P es_i" by auto
  with start_failed prologue show ?thesis
    using started [of "main_prologue env @ es_i" "Thrown e" es_s "[]"] by simp
next
  case (no_wait es_i es_s)
  from emits_onlyD [OF install no_wait(1)] have "list_all P es_i" by auto
  with no_wait prologue epilogue show ?thesis
    using started [of "main_prologue env @ es_i" "Returned ()" es_s main_epilogue] by simp
next
  case (wait_failed es_i es_s e es_w)
  from emits_onlyD [OF install wait_failed(1)] have "list_all P es_i" by auto
  moreover from emits_onlyD [OF wait wait_failed(4)] have "list_all P es_w" by auto
  ultimately show ?thesis
    using wait_failed prologue
      started [of "main_prologue env @ es_i" "Returned ()" es_s es_w] by simp
next
  case (ready es_i es_s es_w)
  from emits_onlyD [OF install ready(1)] have "list_all P es_i" by auto
  moreover from emits_onlyD [OF wait ready(4)] have "list_all P es_w" by auto
  ultimately show ?thesis
    using ready prologue epilogue
      started [of "main_prologue env @ es_i" "Returned ()" es_s "es_w @ main_epilogue"]
    by simp
qed


lemma reaches_wait_stepD:
  assumes "reaches_wait_step env tr"
  obtains tr2 tr3 where
    "installK0s env (versionInput env) (tr @ main_prologue env) = Some (Returned (), tr2)"
    "startK0s env tr2 = Some (Returned (), tr3)"
proof (cases "installK0s env (versionInput env) (tr @ main_prologue env)")
  case None
  with assms show ?thesis by (simp add: reaches_wait_step_def)
next
  case (Some p)
  obtain r tr2 where p: "p = (r, tr2)" by (cases p)
  show ?thesis
  proof (cases r)
    case (Thrown e)
    with assms Some p show ?thesis by (simp add: reaches_wait_step_def)
  next
    case (Returned u)
    with assms Some p have s: "(case startK0s env tr2 of Some (Returned u', tr3) \<Rightarrow> True
        | _ \<Rightarrow> False)"
      by (simp add: reaches_wait_step_def)
    then obtain q where q: "startK0s env tr2 = Some q"
      by (cases "startK0s env tr2") simp_all
    obtain r' tr3 where q': "q = (r', tr3)" by (cases q)
    from s q q' have "r' = Returned ()"
      by (cases r') simp_all
    with that [of tr2 tr3] Some p Returned q q' show ?thesis by simp
  qed
qed

lemma main_at_wait_step:
  assumes "installK0s env (versionInput env) (tr @ main_prologue env) = Some (Returned (), tr2)"
    and "startK0s env tr2 = Some (Returned (), tr3)"
    and "waitForReadyInput env"
  shows "main env tr =
     (case waitForClusterReady env (timeoutInput env) tr3 of
        None \<Rightarrow> None
      | Some (Thrown e, tr4) \<Rightarrow> Some (Thrown e, tr4)
      | Some (Returned u, tr4) \<Rightarrow> Some (Returned (), tr4 @ main_epilogue))"
  using assms by (simp add: main_eq)


text \<open>The events of a completed run around its calls of the installer and the launcher.\<close>

lemma main_started_cases [consumes 1, case_names install_failed started]:
  assumes run: "main env tr = Some (r, tr')"
    and wait: "emits_only P (waitForClusterReady env (timeoutInput env))"
    and epilogue: "list_all P main_epilogue"
  obtains
    (install_failed) e es_i where
      "installK0s env (versionInput env) (tr @ main_prologue env)
         = Some (Thrown e, tr @ main_prologue env @ es_i)"
      "r = Thrown e" "tr' = tr @ main_prologue env @ es_i"
  | (started) es_i r_s es_s after where
      "installK0s env (versionInput env) (tr @ main_prologue env)
         = Some (Returned (), tr @ main_prologue env @ es_i)"
      "startK0s env (tr @ main_prologue env @ es_i)
         = Some (r_s, tr @ main_prologue env @ es_i @ es_s)"
      "tr' = tr @ main_prologue env @ es_i @ es_s @ after" "list_all P after"
      "r = Returned () \<longrightarrow> r_s = Returned ()"
  using run
proof (cases rule: main_cases)
  case (install_failed e es_i)
  then show ?thesis using that(1) [of e es_i] by simp
next
  case (start_failed es_i e es_s)
  then show ?thesis using started [of es_i "Thrown e" es_s "[]"] by simp
next
  case (no_wait es_i es_s)
  with epilogue show ?thesis using started [of es_i "Returned ()" es_s main_epilogue] by simp
next
  case (wait_failed es_i es_s e es_w)
  from emits_onlyD [OF wait wait_failed(4)] have "list_all P es_w" by auto
  with wait_failed show ?thesis using started [of es_i "Returned ()" es_s es_w] by simp
next
  case (ready es_i es_s es_w)
  from emits_onlyD [OF wait ready(4)] have "list_all P es_w" by auto
  with ready epilogue show ?thesis
    using started [of es_i "Returned ()" es_s "es_w @ main_epilogue"] by simp
qed

section \<open>The poller\<close>

lemma pollLoop_Break:
  "pollCycle env t s tr = Some (Returned Break, tr') \<Longrightarrow> pollLoop env t s tr = Some (Returned (), tr')"
  by (subst pollLoop.simps) simp

lemma pollLoop_Thrown:
  "pollCycle env t s tr = Some (Thrown e, tr') \<Longrightarrow> pollLoop env t s tr = Some (Thrown e, tr')"
  by (subst pollLoop.simps) simp

lemma pollLoop_Continue:
  "pollCycle env t s tr = Some (Returned Continue, tr') \<Longrightarrow> pollLoop env t s tr = pollLoop env t s tr'"
  by (subst pollLoop.simps) simp

lemma waitForClusterReady_eq:
  "waitForClusterReady env t tr =
     (case pollLoop env t
             (date_now env (tr @ [StartGroup ''Waiting for cluster ready'',
                Info (''Waiting for k0s cluster to be ready (timeout: '' @ showNum t @ ''s)...'')]))
             (tr @ [StartGroup ''Waiting for cluster ready'',
                Info (''Waiting for k0s cluster to be ready (timeout: '' @ showNum t @ ''s)...''),
                DateNow (date_now env (tr @ [StartGroup ''Waiting for cluster ready'',
                  Info (''Waiting for k0s cluster to be ready (timeout: '' @ showNum t
                        @ ''s)...'')]))]) of
        None \<Rightarrow> None
      | Some (Returned u, tr2) \<Rightarrow>
          Some (Returned (), tr2 @ [Info (check_mark @ '' k0s cluster is fully ready!''), EndGroup])
      | Some (Thrown e, tr2) \<Rightarrow>
          Some (Thrown (''Failed waiting for cluster: Error: '' @ e), tr2 @ [EndGroup]))"
  by (simp add: waitForClusterReady_def core_defs andThen_emit andThen_def tryCatchFinally_def
      tryCatch_def dateNow_def emit_def throw_def errorToString_def Let_def
      split: option.split result.split prod.split)

lemma showDiagnostics_returns_wp:
  "wp (showDiagnostics env)
     (\<lambda>r tr'. r = Returned () \<and> (\<exists>es. tr' = tr @ StartGroup ''Diagnostic Information'' # es
        \<and> diagnostics_discipline es \<and> list_all no_deadline_event es)) tr"
  unfolding showDiagnostics_def core_defs
  apply (simp add: exec_simps diag_options_def cong: wp_cong)
  apply ((rule wp_stepI; (simp add: exec_simps diag_options_def List.map_filter_simps
            diagnostic_probes_def diagnostics_discipline_def no_deadline_event_def
            cong: wp_cong)?)+)
  done

lemma pollCycle_eq:
  "pollCycle env t s tr =
     (if greaterThan_js ((date_now env tr - s) div 1000) t
      then (case showDiagnostics env (tr @ [DateNow (date_now env tr), LogError timeout_message]) of
              None \<Rightarrow> None
            | Some (Returned u, tr1) \<Rightarrow> Some (Thrown timeout_message, tr1)
            | Some (Thrown e, tr1) \<Rightarrow> Some (Thrown e, tr1))
      else (case checkLayers env (tr @ [DateNow (date_now env tr)]) of
              None \<Rightarrow> None
            | Some (Returned Break, tr1) \<Rightarrow> Some (Returned Break, tr1)
            | Some (Returned Continue, tr1) \<Rightarrow>
                Some (Returned Continue,
                      tr1 @ [Info (''  Cluster not ready yet, waiting... (''
                                   @ showInt ((date_now env tr - s) div 1000) @ ''/''
                                   @ showNum t @ ''s)''), Sleep 5000])
            | Some (Thrown e, tr1) \<Rightarrow> Some (Thrown e, tr1)))"
  by (simp add: pollCycle_def core_defs andThen_emit andThen_def dateNow_def emit_def throw_def
      ret_def Let_def timeout_message_def
      split: option.split result.split prod.split flow.split)

lemma checkLayers_Break_wp:
  "wp (checkLayers env)
     (\<lambda>r tr'. \<exists>es. tr' = tr @ es
        \<and> (r = Returned Break \<longrightarrow>
             (\<exists>o1 o2 n o3 p o4. n \<noteq> 0 \<and> p \<noteq> 0
                \<and> DateNow now # es = ready_cycle now o1 o2 n o3 p o4))
        \<and> (list_ex node_check_failed es \<longrightarrow> r = Returned Continue)) tr"
  unfolding checkLayers_def core_defs
  apply (simp add: exec_simps probe_options_def cong: wp_cong)
  apply ((rule wp_stepI; (simp add: exec_simps probe_options_def ready_cycle_def
            nodes_not_ready_cmd_def pods_not_running_cmd_def cong: wp_cong)?)+)
  done


text \<open>The diagnostics never throw and never hang.\<close>

lemma showDiagnostics_returns:
  obtains es where
    "showDiagnostics env tr = Some (Returned (), tr @ StartGroup ''Diagnostic Information'' # es)"
    and "diagnostics_discipline es" and "list_all no_deadline_event es"
  using wpE [OF showDiagnostics_returns_wp [of env tr]] by blast

text \<open>A pass through the loop body whose deadline check fires.\<close>

lemma pollCycle_timeout:
  assumes "greaterThan_js ((date_now env h - s) div 1000) t"
  obtains es where
    "pollCycle env t s h = Some (Thrown timeout_message,
       h @ [DateNow (date_now env h), LogError timeout_message]
         @ StartGroup ''Diagnostic Information'' # es)"
    and "showDiagnostics env (h @ [DateNow (date_now env h), LogError timeout_message])
           = Some (Returned (), (h @ [DateNow (date_now env h), LogError timeout_message])
                                @ StartGroup ''Diagnostic Information'' # es)"
    and "diagnostics_discipline es" and "list_all no_deadline_event es"
proof -
  obtain es where d: "showDiagnostics env (h @ [DateNow (date_now env h), LogError timeout_message])
      = Some (Returned (), (h @ [DateNow (date_now env h), LogError timeout_message])
                           @ StartGroup ''Diagnostic Information'' # es)"
    and n: "diagnostics_discipline es" "list_all no_deadline_event es"
    by (rule showDiagnostics_returns)
  from assms d have "pollCycle env t s h = Some (Thrown timeout_message,
       h @ [DateNow (date_now env h), LogError timeout_message]
         @ StartGroup ''Diagnostic Information'' # es)"
    by (simp add: pollCycle_eq)
  with d n that show thesis by blast
qed

text \<open>A pass through the loop body whose deadline check does not fire.\<close>

lemma pollCycle_no_timeout:
  assumes "\<not> greaterThan_js ((date_now env h - s) div 1000) t"
  shows "pollCycle env t s h =
     (case checkLayers env (h @ [DateNow (date_now env h)]) of
              None \<Rightarrow> None
            | Some (Returned Break, tr1) \<Rightarrow> Some (Returned Break, tr1)
            | Some (Returned Continue, tr1) \<Rightarrow>
                Some (Returned Continue,
                      tr1 @ [Info (''  Cluster not ready yet, waiting... (''
                                   @ showInt ((date_now env h - s) div 1000) @ ''/''
                                   @ showNum t @ ''s)''), Sleep 5000])
            | Some (Thrown e, tr1) \<Rightarrow> Some (Thrown e, tr1))"
  using assms by (simp add: pollCycle_eq)


lemma checkLayers_no_deadline: "emits_only no_deadline_event (checkLayers env)"
  by (rule checkLayers_emits) (simp_all add: no_deadline_event_def)

lemma pollCycle_no_timeout_events:
  assumes "\<not> greaterThan_js ((date_now env h - s) div 1000) t"
    and "pollCycle env t s h = Some (r, h')"
  obtains es where "h' = h @ DateNow (date_now env h) # es" and "list_all no_deadline_event es"
proof -
  obtain r1 h1 where c: "checkLayers env (h @ [DateNow (date_now env h)]) = Some (r1, h1)"
    using checkLayers_completes [of env] by (rule always_completesD)
  from emits_onlyD [OF checkLayers_no_deadline c]
  obtain es1 where h1: "h1 = (h @ [DateNow (date_now env h)]) @ es1"
    and q: "list_all no_deadline_event es1"
    by blast
  let ?more = "[Info (''  Cluster not ready yet, waiting... (''
                     @ showInt ((date_now env h - s) div 1000) @ ''/'' @ showNum t @ ''s)''),
                Sleep 5000]"
  from assms(2) c have "h' = h1 \<or> h' = h1 @ ?more"
    unfolding pollCycle_no_timeout [OF assms(1)]
    by (cases r1; cases "case r1 of Returned fl \<Rightarrow> fl | _ \<Rightarrow> Break") auto
  then show thesis
  proof
    assume "h' = h1"
    with h1 q that [of es1] show thesis by simp
  next
    assume "h' = h1 @ ?more"
    with h1 q that [of "es1 @ ?more"] show thesis
      by (simp add: no_deadline_event_def)
  qed
qed

text \<open>How a run of the loop that ends has ended: by the deadline or otherwise.\<close>

lemma pollLoop_outcome [consumes 1, case_names timed_out not_timed_out]:
  assumes "pollLoop env t s h0 = Some (r, tr')"
  obtains
    (timed_out) before es where
      "r = Thrown timeout_message"
      "tr' = h0 @ before @ [DateNow (date_now env (h0 @ before)), LogError timeout_message]
               @ StartGroup ''Diagnostic Information'' # es"
      "list_all (\<lambda>e. \<not> is_timeout_log e \<and> \<not> is_diagnostics_start e) before"
      "greaterThan_js ((date_now env (h0 @ before) - s) div 1000) t"
      "diagnostics_discipline es" "list_all no_deadline_event es"
  | (not_timed_out) es where
      "tr' = h0 @ es" "list_all (\<lambda>e. \<not> is_timeout_log e \<and> \<not> is_diagnostics_start e) es"
proof -
  let ?Q = "\<lambda>e. \<not> is_timeout_log e \<and> \<not> is_diagnostics_start e"
  have weaker: "list_all ?Q es" if "list_all no_deadline_event es" for es
    using that by (simp add: list_all_iff no_deadline_event_def)
  have "\<exists>h. (\<exists>es. h = h0 @ es \<and> list_all ?Q es)
          \<and> (pollCycle env t s h = Some (Returned Break, tr') \<and> r = Returned ()
              \<or> (\<exists>e. pollCycle env t s h = Some (Thrown e, tr') \<and> r = Thrown e))"
  proof (rule pollLoop_last_cycle [OF assms])
    show "\<exists>es. h0 = h0 @ es \<and> list_all ?Q es" by simp
  next
    fix h h'
    assume inv: "\<exists>es. h = h0 @ es \<and> list_all ?Q es"
      and cyc: "pollCycle env t s h = Some (Returned Continue, h')"
    have "\<not> greaterThan_js ((date_now env h - s) div 1000) t"
    proof
      assume "greaterThan_js ((date_now env h - s) div 1000) t"
      from pollCycle_timeout [OF this] cyc show False
        by (metis option.inject prod.inject result.distinct(1))
    qed
    from pollCycle_no_timeout_events [OF this cyc]
    obtain es' where "h' = h @ DateNow (date_now env h) # es'" "list_all no_deadline_event es'"
      by blast
    with inv weaker [of es'] show "\<exists>es. h' = h0 @ es \<and> list_all ?Q es"
      by auto
  qed
  then obtain h before r1 where h: "h = h0 @ before" "list_all ?Q before"
    and last: "pollCycle env t s h = Some (r1, tr')"
    and r: "r1 = Returned Break \<and> r = Returned () \<or> (\<exists>e. r1 = Thrown e \<and> r = Thrown e)"
    by blast
  show thesis
  proof (cases "greaterThan_js ((date_now env h - s) div 1000) t")
    case True
    from pollCycle_timeout [OF True] obtain es where
      c: "pollCycle env t s h = Some (Thrown timeout_message,
           h @ [DateNow (date_now env h), LogError timeout_message]
             @ StartGroup ''Diagnostic Information'' # es)"
      and d: "diagnostics_discipline es" "list_all no_deadline_event es"
      by blast
    from c last r have "r = Thrown timeout_message"
      "tr' = h @ [DateNow (date_now env h), LogError timeout_message]
               @ StartGroup ''Diagnostic Information'' # es"
      by auto
    with h d True show thesis
      by (intro timed_out [of before es]) simp_all
  next
    case False
    from pollCycle_no_timeout_events [OF False last]
    obtain es' where "tr' = h @ DateNow (date_now env h) # es'" "list_all no_deadline_event es'"
      by blast
    with h weaker [of es'] show thesis
      by (intro not_timed_out [of "before @ DateNow (date_now env h) # es'"]) simp_all
  qed
qed

text \<open>How a run of the poller that completes has ended.\<close>

lemma waitForClusterReady_outcome [consumes 1, case_names timed_out not_timed_out]:
  assumes "waitForClusterReady env t tr = Some (r, tr')"
  obtains
    (timed_out) before es where
      "r = Thrown wrapped_timeout_message"
      "drop (length tr) tr'
         = poller_header t @ before @ [LogError timeout_message]
           @ StartGroup ''Diagnostic Information'' # es @ [EndGroup]"
      "list_all (\<lambda>e. \<not> is_timeout_log e \<and> \<not> is_diagnostics_start e) before"
      "diagnostics_discipline es" "list_all no_deadline_event es"
  | (not_timed_out) es where
      "drop (length tr) tr' = es"
      "list_all (\<lambda>e. \<not> is_timeout_log e \<and> \<not> is_diagnostics_start e) es"
proof -
  let ?s = "date_now env (tr @ poller_header t)"
  let ?h0 = "tr @ poller_header t @ [DateNow ?s]"
  from assms obtain r0 tr2 where loop: "pollLoop env t ?s ?h0 = Some (r0, tr2)"
    and end_ok: "(\<exists>u. r0 = Returned u) \<longrightarrow>
           tr' = tr2 @ [Info (check_mark @ '' k0s cluster is fully ready!''), EndGroup]"
    and end_thrown: "\<And>e. r0 = Thrown e \<Longrightarrow>
           r = Thrown (''Failed waiting for cluster: Error: '' @ e) \<and> tr' = tr2 @ [EndGroup]"
    unfolding waitForClusterReady_eq poller_header_def
    by (cases "pollLoop env t
             (date_now env (tr @ [StartGroup ''Waiting for cluster ready'',
                Info (''Waiting for k0s cluster to be ready (timeout: '' @ showNum t @ ''s)...'')]))
             (tr @ [StartGroup ''Waiting for cluster ready'',
                Info (''Waiting for k0s cluster to be ready (timeout: '' @ showNum t @ ''s)...''),
                DateNow (date_now env (tr @ [StartGroup ''Waiting for cluster ready'',
                  Info (''Waiting for k0s cluster to be ready (timeout: '' @ showNum t
                        @ ''s)...'')]))])")
       (auto split: result.splits)
  from loop show thesis
  proof (cases rule: pollLoop_outcome)
    case (timed_out before es)
    from end_thrown [OF timed_out(1)] timed_out(2)
    have "r = Thrown wrapped_timeout_message"
      "drop (length tr) tr'
         = poller_header t @ (DateNow ?s # before @ [DateNow (date_now env (?h0 @ before))])
           @ [LogError timeout_message]
           @ StartGroup ''Diagnostic Information'' # es @ [EndGroup]"
      by (simp_all add: wrapped_timeout_message_def)
    moreover from timed_out(3)
    have "list_all (\<lambda>e. \<not> is_timeout_log e \<and> \<not> is_diagnostics_start e)
            (DateNow ?s # before @ [DateNow (date_now env (?h0 @ before))])"
      by simp
    ultimately show thesis
      using timed_out(5,6) by (rule that(1))
  next
    case (not_timed_out es)
    show thesis
    proof (cases r0)
      case (Returned u)
      with end_ok not_timed_out
      have "drop (length tr) tr' = poller_header t @ DateNow ?s # es
              @ [Info (check_mark @ '' k0s cluster is fully ready!''), EndGroup]"
        by simp
      moreover from not_timed_out(2)
      have "list_all (\<lambda>e. \<not> is_timeout_log e \<and> \<not> is_diagnostics_start e)
              (poller_header t @ DateNow ?s # es
                @ [Info (check_mark @ '' k0s cluster is fully ready!''), EndGroup])"
        by (simp add: poller_header_def)
      ultimately show thesis by (rule that(2))
    next
      case (Thrown e)
      with end_thrown [OF Thrown] not_timed_out
      have "drop (length tr) tr' = poller_header t @ DateNow ?s # es @ [EndGroup]"
        by simp
      moreover from not_timed_out(2)
      have "list_all (\<lambda>e. \<not> is_timeout_log e \<and> \<not> is_diagnostics_start e)
              (poller_header t @ DateNow ?s # es @ [EndGroup])"
        by (simp add: poller_header_def)
      ultimately show thesis by (rule that(2))
    qed
  qed
qed

text \<open>A pass through the loop body before the deadline, with a cluster that is never ready.\<close>

lemma pollCycle_continues:
  assumes "never_ready env" and "\<not> greaterThan_js ((date_now env h - s) div 1000) t"
  obtains es where
    "pollCycle env t s h
       = Some (Returned Continue, h @ DateNow (date_now env h) # es @ [Sleep 5000])"
    and "list_all no_deadline_event es"
proof -
  from assms(1) obtain h1 where
    c: "checkLayers env (h @ [DateNow (date_now env h)]) = Some (Returned Continue, h1)"
    unfolding never_ready_def by blast
  from emits_onlyD [OF checkLayers_no_deadline c]
  obtain es1 where h1: "h1 = (h @ [DateNow (date_now env h)]) @ es1"
    and q: "list_all no_deadline_event es1"
    by blast
  let ?line = "Info (''  Cluster not ready yet, waiting... (''
                     @ showInt ((date_now env h - s) div 1000) @ ''/'' @ showNum t @ ''s)'')"
  from c h1 have "pollCycle env t s h
       = Some (Returned Continue, h @ DateNow (date_now env h) # (es1 @ [?line]) @ [Sleep 5000])"
    by (simp add: pollCycle_no_timeout [OF assms(2)])
  moreover from q have "list_all no_deadline_event (es1 @ [?line])"
    by (simp add: no_deadline_event_def)
  ultimately show thesis by (rule that)
qed

lemma no_deadline_eventD:
  assumes "list_all no_deadline_event es"
  shows "filter is_clock_read es = []" "filter is_timeout_log es = []"
    "filter is_diagnostics_start es = []"
  using assms by (induction es) (simp_all add: no_deadline_event_def)

section \<open>Runs on the concrete platforms\<close>

lemma slept_append [simp]: "slept (xs @ ys) = slept xs + slept ys"
  by (simp add: slept_def)

lemma slept_simps [simp]:
  "slept [] = 0" "slept (Sleep ms # es) = int ms + slept es"
  "slept (Info s # es) = slept es" "slept (StartGroup s # es) = slept es"
  "slept (DateNow t # es) = slept es" "slept (Exec cmd args out # es) = slept es"
  by (simp_all add: slept_def)

lemma happy_env_sel [simp]:
  "run_process (happy_env kvs) = happy_process" "date_now (happy_env kvs) = slept"
  "getInput (happy_env kvs) = inputs_of kvs"
  by (simp_all add: happy_env_def)

lemma never_up_env_sel [simp]:
  "run_process (never_up_env kvs) = never_up_process" "date_now (never_up_env kvs) = slept"
  "getInput (never_up_env kvs) = inputs_of kvs"
  by (simp_all add: never_up_env_def happy_env_def)

lemmas run_defs = andThen_def exec_def core_defs emit_def ret_def throw_def Let_def
  probe_options_def

lemma happy_checkLayers:
  "checkLayers (happy_env kvs) h = Some (Returned Break, h @ tl (ready_cycle now [] [] 1 [] 1 []))"
  by (simp add: checkLayers_def run_defs happy_process_def ready_cycle_def
      nodes_not_ready_cmd_def pods_not_running_cmd_def resolve_latest_cmd_def)

lemma happy_pollCycle:
  assumes "\<not> greaterThan_js ((slept h - s) div 1000) t"
  shows "pollCycle (happy_env kvs) t s h
           = Some (Returned Break, h @ ready_cycle (slept h) [] [] 1 [] 1 [])"
  using assms happy_checkLayers [of kvs "h @ [DateNow (slept h)]" "slept h"]
  by (simp add: pollCycle_eq ready_cycle_def)

lemma happy_waitForClusterReady:
  assumes "\<not> greaterThan_js 0 t"
  shows "waitForClusterReady (happy_env kvs) t tr
     = Some (Returned (),
         tr @ [StartGroup ''Waiting for cluster ready'',
               Info (''Waiting for k0s cluster to be ready (timeout: '' @ showNum t @ ''s)...''),
               DateNow (slept tr)]
            @ ready_cycle (slept tr) [] [] 1 [] 1 []
            @ [Info (check_mark @ '' k0s cluster is fully ready!''), EndGroup])"
proof -
  let ?tr1 = "tr @ [StartGroup ''Waiting for cluster ready'',
               Info (''Waiting for k0s cluster to be ready (timeout: '' @ showNum t @ ''s)...'')]"
  have "pollCycle (happy_env kvs) t (slept ?tr1) (?tr1 @ [DateNow (slept ?tr1)])
      = Some (Returned Break, (?tr1 @ [DateNow (slept ?tr1)])
              @ ready_cycle (slept (?tr1 @ [DateNow (slept ?tr1)])) [] [] 1 [] 1 [])"
    by (rule happy_pollCycle) (simp add: assms)
  from pollLoop_Break [OF this] show ?thesis
    by (simp add: waitForClusterReady_eq)
qed

lemma never_up_checkLayers:
  "checkLayers (never_up_env kvs) h
     = Some (Returned Continue,
             h @ [Exec ''sudo'' [''k0s'', ''status''] (Exited 1 []), Info ''  k0s not running yet''])"
  by (simp add: checkLayers_def run_defs never_up_process_def)

lemma never_up_never_ready: "never_ready (never_up_env kvs)"
  by (simp add: never_ready_def never_up_checkLayers)

lemma never_up_pollCycle:
  assumes "\<not> greaterThan_js ((slept h - s) div 1000) t"
  shows "pollCycle (never_up_env kvs) t s h
           = Some (Returned Continue,
               h @ [DateNow (slept h), Exec ''sudo'' [''k0s'', ''status''] (Exited 1 []),
                    Info ''  k0s not running yet'',
                    Info (''  Cluster not ready yet, waiting... (''
                          @ showInt ((slept h - s) div 1000) @ ''/'' @ showNum t @ ''s)''),
                    Sleep 5000])"
  using assms by (simp add: pollCycle_eq never_up_checkLayers)


section \<open>The stages of a run that polls\<close>

lemma loop_entryE:
  assumes "loop_entry env tr = Some (s, h0)"
  obtains es_i es_s where
    "installK0s env (versionInput env) (tr @ main_prologue env)
       = Some (Returned (), tr @ main_prologue env @ es_i)"
    "startK0s env (tr @ main_prologue env @ es_i)
       = Some (Returned (), tr @ main_prologue env @ es_i @ es_s)"
    "waitForReadyInput env"
    "s = date_now env (tr @ main_prologue env @ es_i @ es_s @ poller_header (timeoutInput env))"
    "h0 = tr @ main_prologue env @ es_i @ es_s @ poller_header (timeoutInput env) @ [DateNow s]"
proof -
  obtain r_i es_i where i: "installK0s env (versionInput env) (tr @ main_prologue env)
      = Some (r_i, tr @ main_prologue env @ es_i)"
    using installK0s_run [of env "versionInput env" "tr @ main_prologue env"] by auto
  obtain r_s es_s where st: "startK0s env (tr @ main_prologue env @ es_i)
        = Some (r_s, tr @ main_prologue env @ es_i @ es_s)"
    using startK0s_run [of env "tr @ main_prologue env @ es_i"] by auto
  from assms i have r_i: "r_i = Returned ()"
    by (cases r_i) (simp_all add: loop_entry_def)
  from assms i st r_i have r_s: "r_s = Returned ()"
    by (cases r_s) (simp_all add: loop_entry_def)
  from assms i st r_i r_s have w: "waitForReadyInput env"
    by (cases "waitForReadyInput env") (simp_all add: loop_entry_def)
  from i st r_i r_s w
  have "loop_entry env tr
      = Some (date_now env (tr @ main_prologue env @ es_i @ es_s @ poller_header (timeoutInput env)),
              tr @ main_prologue env @ es_i @ es_s @ poller_header (timeoutInput env)
              @ [DateNow (date_now env (tr @ main_prologue env @ es_i @ es_s
                                        @ poller_header (timeoutInput env)))])"
    by (simp add: loop_entry_def Let_def)
  with assms
  have s: "s = date_now env (tr @ main_prologue env @ es_i @ es_s @ poller_header (timeoutInput env))"
    and "h0 = tr @ main_prologue env @ es_i @ es_s @ poller_header (timeoutInput env)
             @ [DateNow (date_now env (tr @ main_prologue env @ es_i @ es_s
                                        @ poller_header (timeoutInput env)))]"
    by auto
  then have "h0 = tr @ main_prologue env @ es_i @ es_s @ poller_header (timeoutInput env)
             @ [DateNow s]"
    by blast
  with s i st r_i r_s w that show thesis by blast
qed

lemma main_hangs:
  assumes "main env tr = None"
  obtains s h0 where "loop_entry env tr = Some (s, h0)"
    and "pollLoop env (timeoutInput env) s h0 = None"
proof -
  obtain r_i es_i where i: "installK0s env (versionInput env) (tr @ main_prologue env)
      = Some (r_i, tr @ main_prologue env @ es_i)"
    using installK0s_run [of env "versionInput env" "tr @ main_prologue env"] by auto
  obtain r_s es_s where st: "startK0s env (tr @ main_prologue env @ es_i)
        = Some (r_s, tr @ main_prologue env @ es_i @ es_s)"
    using startK0s_run [of env "tr @ main_prologue env @ es_i"] by auto
  from assms i have r_i: "r_i = Returned ()"
    by (cases r_i) (simp_all add: main_eq)
  from assms i st r_i have r_s: "r_s = Returned ()"
    by (cases r_s) (simp_all add: main_eq)
  from assms i st r_i r_s have w: "waitForReadyInput env"
    by (cases "waitForReadyInput env") (simp_all add: main_eq)
  let ?tr3 = "tr @ main_prologue env @ es_i @ es_s"
  let ?s = "date_now env (?tr3 @ poller_header (timeoutInput env))"
  let ?h0 = "?tr3 @ poller_header (timeoutInput env) @ [DateNow ?s]"
  from i st r_i r_s w have entry: "loop_entry env tr = Some (?s, ?h0)"
    by (simp add: loop_entry_def Let_def)
  have "waitForClusterReady env (timeoutInput env) ?tr3 = None"
  proof (rule ccontr)
    assume "waitForClusterReady env (timeoutInput env) ?tr3 \<noteq> None"
    then obtain r_w tr4 where "waitForClusterReady env (timeoutInput env) ?tr3 = Some (r_w, tr4)"
      by auto
    with i st r_i r_s w have "main env tr \<noteq> None"
      by (cases r_w) (simp_all add: main_eq)
    with assms show False by simp
  qed
  then have "pollLoop env (timeoutInput env) ?s ?h0 = None"
    unfolding waitForClusterReady_eq poller_header_def
    by (cases "pollLoop env (timeoutInput env) ?s ?h0")
       (auto simp: poller_header_def split: result.splits)
  with entry that show thesis by blast
qed

lemma after_cycles_of_hanging_loop:
  assumes "pollLoop env t s h = None"
  shows "\<exists>h'. after_cycles env t s n h = Some h' \<and> pollLoop env t s h' = None"
  using assms
proof (induction n arbitrary: h)
  case 0
  then show ?case by simp
next
  case (Suc n)
  obtain r h1 where cyc: "pollCycle env t s h = Some (r, h1)"
    using pollCycle_completes [of env t s] by (rule always_completesD)
  have r: "r = Returned Continue"
  proof (cases r)
    case (Thrown e)
    with cyc Suc.prems pollLoop_Thrown [of env t s h e h1] show ?thesis by simp
  next
    case (Returned fl)
    with cyc Suc.prems pollLoop_Break [of env t s h h1] show ?thesis by (cases fl) simp_all
  qed
  with cyc Suc.prems pollLoop_Continue [of env t s h h1] have "pollLoop env t s h1 = None"
    by simp
  from Suc.IH [OF this] cyc r show ?case by simp
qed

lemma after_cycles_emits:
  assumes "emits_only P (pollCycle env t s)" and "after_cycles env t s n h = Some h'"
  shows "\<exists>es. h' = h @ es \<and> list_all P es"
  using assms(2)
proof (induction n arbitrary: h)
  case 0
  then show ?case by simp
next
  case (Suc n)
  then obtain h1 where cyc: "pollCycle env t s h = Some (Returned Continue, h1)"
    and rest: "after_cycles env t s n h1 = Some h'"
    by (auto split: option.splits result.splits flow.splits)
  from emits_onlyD [OF assms(1) cyc] obtain es1 where "h1 = h @ es1" "list_all P es1"
    by blast
  moreover from Suc.IH [OF rest] obtain es2 where "h' = h1 @ es2" "list_all P es2"
    by blast
  ultimately show ?case by auto
qed

text \<open>The events of a run that has reached a stage of its polling.\<close>

lemma stage_events:
  assumes entry: "loop_entry env tr = Some (s, h0)"
    and stage: "after_cycles env (timeoutInput env) s n h0 = Some h"
    and cycle: "emits_only P (pollCycle env (timeoutInput env) s)"
    and header: "list_all P (poller_header (timeoutInput env))" "P (DateNow s)"
  obtains es_i es_s after where
    "installK0s env (versionInput env) (tr @ main_prologue env)
       = Some (Returned (), tr @ main_prologue env @ es_i)"
    "startK0s env (tr @ main_prologue env @ es_i)
       = Some (Returned (), tr @ main_prologue env @ es_i @ es_s)"
    "h = tr @ main_prologue env @ es_i @ es_s @ after" "list_all P after"
proof -
  from entry obtain es_i es_s where i: "installK0s env (versionInput env) (tr @ main_prologue env)
       = Some (Returned (), tr @ main_prologue env @ es_i)"
    and st: "startK0s env (tr @ main_prologue env @ es_i)
       = Some (Returned (), tr @ main_prologue env @ es_i @ es_s)"
    and h0: "h0 = tr @ main_prologue env @ es_i @ es_s @ poller_header (timeoutInput env)
                  @ [DateNow s]"
    by (rule loop_entryE)
  from after_cycles_emits [OF cycle stage] obtain es where "h = h0 @ es" "list_all P es"
    by blast
  with h0 header have "h = tr @ main_prologue env @ es_i @ es_s
        @ (poller_header (timeoutInput env) @ [DateNow s] @ es)"
    "list_all P (poller_header (timeoutInput env) @ [DateNow s] @ es)"
    by simp_all
  with i st that show thesis by blast
qed

lemma hanging_run_stages:
  assumes "main env tr = None"
  shows "\<exists>s h0. loop_entry env tr = Some (s, h0)
           \<and> (\<forall>n. after_cycles env (timeoutInput env) s n h0 \<noteq> None)"
proof -
  from assms obtain s h0 where entry: "loop_entry env tr = Some (s, h0)"
    and loop: "pollLoop env (timeoutInput env) s h0 = None"
    by (rule main_hangs)
  from after_cycles_of_hanging_loop [OF loop] have "after_cycles env (timeoutInput env) s n h0 \<noteq> None" for n
    by (metis option.distinct(1))
  with entry show ?thesis by blast
qed

text \<open>Events in their order.\<close>

lemma preceded_by_none: "list_all (\<lambda>e. \<not> Q e) xs \<Longrightarrow> preceded_by P Q xs"
  by (induction xs) simp_all

lemma preceded_by_prefix:
  "list_all (\<lambda>e. \<not> Q e) xs \<Longrightarrow> preceded_by P Q ys \<Longrightarrow> preceded_by P Q (xs @ ys)"
  by (induction xs) simp_all

lemma preceded_by_suffix:
  "preceded_by P Q ys \<Longrightarrow> list_all (\<lambda>e. \<not> Q e) zs \<Longrightarrow> preceded_by P Q (ys @ zs)"
  by (induction ys) (auto simp: preceded_by_none)

lemma preceded_by_found:
  "list_all (\<lambda>e. \<not> Q e) xs \<Longrightarrow> list_ex P xs \<Longrightarrow> preceded_by P Q (xs @ ys)"
  by (induction xs) auto


lemma slept_mem: "Sleep ms \<in> set es \<Longrightarrow> int ms \<le> slept es"
proof (induction es)
  case Nil
  then show ?case by simp
next
  case (Cons e es)
  have "0 \<le> slept es" by (simp add: slept_def)
  moreover have "slept (e # es) = slept [e] + slept es"
    using slept_append [of "[e]" es] by simp
  moreover have "0 \<le> slept [e]" by (simp add: slept_def)
  ultimately show ?case using Cons by (auto simp: slept_def)
qed

lemma showInt_0: "showInt 0 = ''0''"
  by code_simp

lemma showNum_0: "showNum (Num 0) = ''0''"
  by code_simp

lemma never_up_showDiagnostics:
  "showDiagnostics (never_up_env kvs) h
     = Some (Returned (),
         h @ [StartGroup ''Diagnostic Information'',
              Info ''=== k0s Status ==='',
              Exec ''sudo'' [''k0s'', ''status''] (Exited 1 []),
              Info ''=== k0s Controller Logs ==='',
              Exec ''sudo'' [''journalctl'', ''-u'', ''k0scontroller'', ''-n'', ''100'',
                             ''--no-pager''] (Exited 0 []),
              Info ''=== Kubectl Cluster Info ==='',
              Exec ''kubectl'' [''cluster-info''] (Exited 0 []),
              Info ''=== Nodes ==='',
              Exec ''kubectl'' [''get'', ''nodes'', ''-o'', ''wide''] (Exited 0 []),
              Info ''=== Kube-system Pods ==='',
              Exec ''kubectl'' [''get'', ''pods'', ''-n'', ''kube-system''] (Exited 0 []),
              EndGroup])"
  by (simp add: showDiagnostics_def run_defs diag_options_def tryCatchFinally_def tryCatch_def
      never_up_process_def happy_process_def)

text \<open>
  The poller with the timeout 0 on the runner on which the service never comes up, the clock
  advancing by what has been slept: the first deadline check, at 0 seconds, does not fire;
  the second one, after the sleep, does.
\<close>

lemma never_up_zero_timeout_run:
  "waitForClusterReady (never_up_env kvs) (Num 0) []
     = Some (Thrown ''Failed waiting for cluster: Error: Timeout waiting for cluster to be ready'',
         [StartGroup ''Waiting for cluster ready'',
          Info ''Waiting for k0s cluster to be ready (timeout: 0s)...'',
          DateNow 0,
          DateNow 0,
          Exec ''sudo'' [''k0s'', ''status''] (Exited 1 []),
          Info ''  k0s not running yet'',
          Info ''  Cluster not ready yet, waiting... (0/0s)'',
          Sleep 5000,
          DateNow 5000,
          LogError ''Timeout waiting for cluster to be ready'',
          StartGroup ''Diagnostic Information'',
          Info ''=== k0s Status ==='',
          Exec ''sudo'' [''k0s'', ''status''] (Exited 1 []),
          Info ''=== k0s Controller Logs ==='',
          Exec ''sudo'' [''journalctl'', ''-u'', ''k0scontroller'', ''-n'', ''100'',
                         ''--no-pager''] (Exited 0 []),
          Info ''=== Kubectl Cluster Info ==='',
          Exec ''kubectl'' [''cluster-info''] (Exited 0 []),
          Info ''=== Nodes ==='',
          Exec ''kubectl'' [''get'', ''nodes'', ''-o'', ''wide''] (Exited 0 []),
          Info ''=== Kube-system Pods ==='',
          Exec ''kubectl'' [''get'', ''pods'', ''-n'', ''kube-system''] (Exited 0 []),
          EndGroup,
          EndGroup])"
proof -
  let ?E = "never_up_env kvs"
  let ?h0 = "[StartGroup ''Waiting for cluster ready'',
          Info ''Waiting for k0s cluster to be ready (timeout: 0s)...'', DateNow 0]"
  let ?h1 = "?h0 @ [DateNow 0, Exec ''sudo'' [''k0s'', ''status''] (Exited 1 []),
          Info ''  k0s not running yet'',
          Info ''  Cluster not ready yet, waiting... (0/0s)'', Sleep 5000]"
  have first: "pollCycle ?E (Num 0) 0 ?h0 = Some (Returned Continue, ?h1)"
    using never_up_pollCycle [of ?h0 0 "Num 0" kvs]
    by (simp add: greaterThan_js_def showInt_0 showNum_0)
  have "pollCycle ?E (Num 0) 0 ?h1
      = (case showDiagnostics ?E (?h1 @ [DateNow 5000, LogError timeout_message]) of
              None \<Rightarrow> None
            | Some (Returned u, tr1) \<Rightarrow> Some (Thrown timeout_message, tr1)
            | Some (Thrown e, tr1) \<Rightarrow> Some (Thrown e, tr1))"
    by (simp add: pollCycle_eq greaterThan_js_def)
  then have second: "pollCycle ?E (Num 0) 0 ?h1
      = Some (Thrown timeout_message,
          (?h1 @ [DateNow 5000, LogError timeout_message])
          @ [StartGroup ''Diagnostic Information'',
              Info ''=== k0s Status ==='',
              Exec ''sudo'' [''k0s'', ''status''] (Exited 1 []),
              Info ''=== k0s Controller Logs ==='',
              Exec ''sudo'' [''journalctl'', ''-u'', ''k0scontroller'', ''-n'', ''100'',
                             ''--no-pager''] (Exited 0 []),
              Info ''=== Kubectl Cluster Info ==='',
              Exec ''kubectl'' [''cluster-info''] (Exited 0 []),
              Info ''=== Nodes ==='',
              Exec ''kubectl'' [''get'', ''nodes'', ''-o'', ''wide''] (Exited 0 []),
              Info ''=== Kube-system Pods ==='',
              Exec ''kubectl'' [''get'', ''pods'', ''-n'', ''kube-system''] (Exited 0 []),
              EndGroup])"
    unfolding never_up_showDiagnostics by simp
  from pollLoop_Thrown [OF second] pollLoop_Continue [OF first]
  have "pollLoop ?E (Num 0) 0 ?h0
      = Some (Thrown timeout_message,
          (?h1 @ [DateNow 5000, LogError timeout_message])
          @ [StartGroup ''Diagnostic Information'',
              Info ''=== k0s Status ==='',
              Exec ''sudo'' [''k0s'', ''status''] (Exited 1 []),
              Info ''=== k0s Controller Logs ==='',
              Exec ''sudo'' [''journalctl'', ''-u'', ''k0scontroller'', ''-n'', ''100'',
                             ''--no-pager''] (Exited 0 []),
              Info ''=== Kubectl Cluster Info ==='',
              Exec ''kubectl'' [''cluster-info''] (Exited 0 []),
              Info ''=== Nodes ==='',
              Exec ''kubectl'' [''get'', ''nodes'', ''-o'', ''wide''] (Exited 0 []),
              Info ''=== Kube-system Pods ==='',
              Exec ''kubectl'' [''get'', ''pods'', ''-n'', ''kube-system''] (Exited 0 []),
              EndGroup])"
    by simp
  then show ?thesis
    by (simp add: waitForClusterReady_eq showNum_0 timeout_message_def)
qed

text \<open>A run that polls, on the runner on which the service never comes up.\<close>

lemma never_up_stage:
  assumes "reaches_wait_step (never_up_env kvs) []"
    and "inputs_of kvs ''wait-for-ready'' = ''true''"
    and "\<not> greaterThan_js 0 (timeoutInput (never_up_env kvs))"
  obtains s h0 h where "loop_entry (never_up_env kvs) [] = Some (s, h0)"
    and "after_cycles (never_up_env kvs) (timeoutInput (never_up_env kvs)) s 1 h0 = Some h"
proof -
  let ?E = "never_up_env kvs"
  from assms(1) obtain tr2 tr3 where
    i: "installK0s ?E (versionInput ?E) ([] @ main_prologue ?E) = Some (Returned (), tr2)"
    and st: "startK0s ?E tr2 = Some (Returned (), tr3)"
    by (rule reaches_wait_stepD)
  let ?s = "slept (tr3 @ poller_header (timeoutInput ?E))"
  let ?h0 = "tr3 @ poller_header (timeoutInput ?E) @ [DateNow ?s]"
  from assms(2) have w: "waitForReadyInput ?E"
    by (simp add: waitForReadyInput_def)
  from i st w have entry: "loop_entry ?E [] = Some (?s, ?h0)"
    by (simp add: loop_entry_def Let_def)
  have "slept ?h0 = ?s"
    by (simp add: poller_header_def)
  with assms(3) have "\<not> greaterThan_js ((slept ?h0 - ?s) div 1000) (timeoutInput ?E)"
    by simp
  from never_up_pollCycle [OF this, of kvs]
  have "after_cycles ?E (timeoutInput ?E) ?s 1 ?h0 \<noteq> None"
    by simp
  with entry that show thesis
    by blast
qed

lemma pollCycle_Break_shape:
  assumes "pollCycle env t s h = Some (Returned Break, h')"
  shows "\<exists>now o1 o2 n o3 p o4. n \<noteq> 0 \<and> p \<noteq> 0 \<and> h' = h @ ready_cycle now o1 o2 n o3 p o4"
proof -
  have no_timeout: "\<not> greaterThan_js ((date_now env h - s) div 1000) t"
  proof
    assume "greaterThan_js ((date_now env h - s) div 1000) t"
    from pollCycle_timeout [OF this] assms show False
      by (metis option.inject prod.inject result.distinct(1))
  qed
  from assms have layers: "checkLayers env (h @ [DateNow (date_now env h)]) = Some (Returned Break, h')"
    unfolding pollCycle_no_timeout [OF no_timeout]
    by (auto split: option.splits result.splits flow.splits)
  from wpD [OF checkLayers_Break_wp [where now = "date_now env h"] layers]
  obtain es o1 o2 n o3 p o4 where "h' = (h @ [DateNow (date_now env h)]) @ es"
    and "n \<noteq> 0" "p \<noteq> 0"
    and "DateNow (date_now env h) # es = ready_cycle (date_now env h) o1 o2 n o3 p o4"
    by auto
  then have "h' = h @ ready_cycle (date_now env h) o1 o2 n o3 p o4 \<and> n \<noteq> 0 \<and> p \<noteq> 0"
    by simp
  then show ?thesis by blast
qed

lemma pollCycle_node_check_failed:
  assumes "pollCycle env t s h = Some (r, h')"
    and "list_ex node_check_failed (drop (length h) h')"
  shows "r \<noteq> Returned Break"
proof
  assume "r = Returned Break"
  with assms(1) have run: "pollCycle env t s h = Some (Returned Break, h')"
    by simp
  from pollCycle_Break_shape [OF this]
  obtain now o1 o2 n o3 p o4 where "n \<noteq> 0" and "h' = h @ ready_cycle now o1 o2 n o3 p o4"
    by blast
  with assms(2) show False
    by (simp add: ready_cycle_def pods_not_running_cmd_def nodes_not_ready_cmd_def)
qed

lemma pollCycle_extends:
  assumes "pollCycle env t s h = Some (r, h')"
  obtains es where "h' = h @ es"
  using emits_onlyD [OF pollCycle_emits [of "\<lambda>e. True"] assms] by auto

text \<open>
  Claim C1. When the poller returns (the state \<^verbatim>\<open>Ready\<close>), the run ends with one pass
  through the loop body, started from a history of this run, that consists of the clock read
  of its deadline check and the four probes in their order, each with the passing result
  (exit code 0 for the service and the API server, a non-zero code of \<^verbatim>\<open>grep -v\<close> for the
  nodes and the pods), followed only by the final log line and the end of the log group: all
  four layers have passed in that one cycle. And a pass through the loop body in which the
  node check fails never leaves the loop, whatever the pod check would answer.
\<close>

theorem ready_only_when_all_layers_pass_together:
  "(\<forall>tr'. waitForClusterReady env t tr = Some (Returned (), tr') \<longrightarrow>
      (\<exists>before now o1 o2 n o3 p o4. n \<noteq> 0 \<and> p \<noteq> 0
         \<and> pollCycle env t (date_now env (tr @ poller_header t))
              (tr @ poller_header t @ DateNow (date_now env (tr @ poller_header t)) # before)
             = Some (Returned Break,
                 (tr @ poller_header t @ DateNow (date_now env (tr @ poller_header t)) # before)
                 @ ready_cycle now o1 o2 n o3 p o4)
         \<and> tr' = (tr @ poller_header t @ DateNow (date_now env (tr @ poller_header t)) # before)
                  @ ready_cycle now o1 o2 n o3 p o4
                  @ [Info (check_mark @ '' k0s cluster is fully ready!''), EndGroup]))
   \<and> (\<forall>s h r h'. pollCycle env t s h = Some (r, h')
         \<and> list_ex node_check_failed (drop (length h) h') \<longrightarrow> r \<noteq> Returned Break)"
proof (intro conjI allI impI)
  fix tr'
  let ?s = "date_now env (tr @ poller_header t)"
  let ?h0 = "tr @ poller_header t @ [DateNow ?s]"
  assume run: "waitForClusterReady env t tr = Some (Returned (), tr')"
  have "\<exists>tr2. pollLoop env t ?s ?h0 = Some (Returned (), tr2)
      \<and> tr' = tr2 @ [Info (check_mark @ '' k0s cluster is fully ready!''), EndGroup]"
    using run unfolding waitForClusterReady_eq poller_header_def
    by (auto split: option.splits result.splits)
  then obtain tr2 where loop: "pollLoop env t ?s ?h0 = Some (Returned (), tr2)"
    and tr': "tr' = tr2 @ [Info (check_mark @ '' k0s cluster is fully ready!''), EndGroup]"
    by blast
  have "\<exists>h. (\<exists>es. h = ?h0 @ es)
          \<and> (pollCycle env t ?s h = Some (Returned Break, tr2) \<and> Returned () = Returned ()
              \<or> (\<exists>e. pollCycle env t ?s h = Some (Thrown e, tr2)
                      \<and> (Returned () :: unit result) = Thrown e))"
  proof (rule pollLoop_last_cycle [OF loop])
    show "\<exists>es. ?h0 = ?h0 @ es" by simp
  next
    fix h h'
    assume "\<exists>es. h = ?h0 @ es" and "pollCycle env t ?s h = Some (Returned Continue, h')"
    then show "\<exists>es. h' = ?h0 @ es"
      by (auto elim!: pollCycle_extends)
  qed
  then obtain before where last: "pollCycle env t ?s (?h0 @ before) = Some (Returned Break, tr2)"
    by auto
  from pollCycle_Break_shape [OF last]
  obtain now o1 o2 n o3 p o4 where "n \<noteq> 0" "p \<noteq> 0"
    and "tr2 = (?h0 @ before) @ ready_cycle now o1 o2 n o3 p o4"
    by blast
  with last tr'
  show "\<exists>before now o1 o2 n o3 p o4. n \<noteq> 0 \<and> p \<noteq> 0
         \<and> pollCycle env t ?s (tr @ poller_header t @ DateNow ?s # before)
             = Some (Returned Break,
                 (tr @ poller_header t @ DateNow ?s # before) @ ready_cycle now o1 o2 n o3 p o4)
         \<and> tr' = (tr @ poller_header t @ DateNow ?s # before)
                  @ ready_cycle now o1 o2 n o3 p o4
                  @ [Info (check_mark @ '' k0s cluster is fully ready!''), EndGroup]"
    by (intro exI [of _ before] exI [of _ now] exI [of _ o1] exI [of _ o2] exI [of _ n]
        exI [of _ o3] exI [of _ p] exI [of _ o4]) simp
next
  fix s h r h'
  assume "pollCycle env t s h = Some (r, h') \<and> list_ex node_check_failed (drop (length h) h')"
  then show "r \<noteq> Returned Break"
    using pollCycle_node_check_failed by blast
qed


theorem ready_only_when_all_layers_pass_together_witness:
  "waitForClusterReady (happy_env []) (Num 300) []
     = Some (Returned (),
         [StartGroup ''Waiting for cluster ready'',
          Info ''Waiting for k0s cluster to be ready (timeout: 300s)...'', DateNow 0]
         @ ready_cycle 0 [] [] 1 [] 1 []
         @ [Info (check_mark @ '' k0s cluster is fully ready!''), EndGroup])
   \<and> pollCycle (happy_env []) (Num 300) 0
        [StartGroup ''Waiting for cluster ready'',
         Info ''Waiting for k0s cluster to be ready (timeout: 300s)...'', DateNow 0]
       = Some (Returned Break,
           [StartGroup ''Waiting for cluster ready'',
            Info ''Waiting for k0s cluster to be ready (timeout: 300s)...'', DateNow 0]
           @ ready_cycle 0 [] [] 1 [] 1 [])"
proof -
  have shown: "showNum (Num 300) = ''300''"
    by code_simp
  have run: "waitForClusterReady (happy_env []) (Num 300) []
     = Some (Returned (),
         [StartGroup ''Waiting for cluster ready'',
          Info ''Waiting for k0s cluster to be ready (timeout: 300s)...'', DateNow 0]
         @ ready_cycle 0 [] [] 1 [] 1 []
         @ [Info (check_mark @ '' k0s cluster is fully ready!''), EndGroup])"
    using happy_waitForClusterReady [of "Num 300" "[]" "[]"]
    by (simp add: greaterThan_js_def shown)
  from ready_only_when_all_layers_pass_together [of "happy_env []" "Num 300" "[]"] run
  obtain before now o1 o2 n o3 p o4 where
    cyc: "pollCycle (happy_env []) (Num 300)
            (date_now (happy_env []) ([] @ poller_header (Num 300)))
            ([] @ poller_header (Num 300)
               @ DateNow (date_now (happy_env []) ([] @ poller_header (Num 300))) # before)
          = Some (Returned Break,
              ([] @ poller_header (Num 300)
                  @ DateNow (date_now (happy_env []) ([] @ poller_header (Num 300))) # before)
              @ ready_cycle now o1 o2 n o3 p o4)"
    and shape: "[StartGroup ''Waiting for cluster ready'',
          Info ''Waiting for k0s cluster to be ready (timeout: 300s)...'', DateNow 0]
         @ ready_cycle 0 [] [] 1 [] 1 []
         @ [Info (check_mark @ '' k0s cluster is fully ready!''), EndGroup]
       = ([] @ poller_header (Num 300)
             @ DateNow (date_now (happy_env []) ([] @ poller_header (Num 300))) # before)
           @ ready_cycle now o1 o2 n o3 p o4
           @ [Info (check_mark @ '' k0s cluster is fully ready!''), EndGroup]"
    by blast
  from shape have "length before = 0"
    by (simp add: ready_cycle_def poller_header_def)
  then have before: "before = []"
    by simp
  with shape have "ready_cycle now o1 o2 n o3 p o4 = ready_cycle 0 [] [] 1 [] 1 []"
    by (simp add: poller_header_def shown)
  with cyc before have "pollCycle (happy_env []) (Num 300) 0
        [StartGroup ''Waiting for cluster ready'',
         Info ''Waiting for k0s cluster to be ready (timeout: 300s)...'', DateNow 0]
       = Some (Returned Break,
           [StartGroup ''Waiting for cluster ready'',
            Info ''Waiting for k0s cluster to be ready (timeout: 300s)...'', DateNow 0]
           @ ready_cycle 0 [] [] 1 [] 1 [])"
    by (simp add: poller_header_def shown)
  with run show ?thesis by blast
qed

lemma installK0s_arch_wp:
  assumes "run_process env (tr @ [StartGroup ''Installing k0s'',
              Info (''Installing k0s '' @ version @ ''...'')]) ''uname'' [''-m''] = Exited 0 out"
  shows "wp (installK0s env version)
     (\<lambda>r tr'. \<exists>rest. tr' = tr @ [StartGroup ''Installing k0s'',
              Info (''Installing k0s '' @ version @ ''...''),
              Exec ''uname'' [''-m''] (Exited 0 out)] @ rest \<and>
        (\<forall>b. binaryArchOf (trim out) = ret b \<longrightarrow>
           (\<exists>more. rest = Info (''  Architecture: '' @ trim out @ '' -> '' @ b) # more)) \<and>
        (binaryArchOf (trim out) = throw (''Unsupported architecture: '' @ trim out) \<longrightarrow>
           r = Thrown (''Failed to install k0s: Error: Unsupported architecture: '' @ trim out)
           \<and> rest = [EndGroup])) tr"
  unfolding installK0s_def core_defs
  apply (simp add: exec_simps split del: if_split cong: wp_cong)
  apply (rule wp_exec_knownI [where stdout = out])
  using assms apply simp
  apply (simp add: exec_simps cong: wp_cong)
  apply ((rule wp_stepI; (simp add: exec_simps cong: wp_cong)?)+)
  done

lemma binaryArchOf_cases:
  "(arch \<in> set supported_archs \<and> (\<exists>b. binaryArchOf arch = ret b))
   \<or> (arch \<notin> set supported_archs \<and> binaryArchOf arch = throw (''Unsupported architecture: '' @ arch))"
  by (simp add: binaryArchOf_def supported_archs_def)

text \<open>
  Claim C2. The architecture switch maps \<^verbatim>\<open>x86_64\<close> to \<^verbatim>\<open>amd64\<close>, \<^verbatim>\<open>aarch64\<close> and
  \<^verbatim>\<open>arm64\<close> to \<^verbatim>\<open>arm64\<close>, and \<^verbatim>\<open>armv7l\<close> to \<^verbatim>\<open>arm\<close>. Whatever text the
  probe \<^verbatim>\<open>uname -m\<close> prints, the installer completes: when the trimmed text is one of the
  four supported names, the next event is the log line with the mapped token; for every other
  text the installer throws the unsupported-architecture error, and the only events of the
  whole call are the group start, the first log line, the probe and the group end, so that
  no network call has been made.
\<close>

theorem installK0s_architecture_mapping:
  assumes "run_process env (tr @ [StartGroup ''Installing k0s'',
              Info (''Installing k0s '' @ version @ ''...'')]) ''uname'' [''-m''] = Exited 0 out"
  shows "binaryArchOf ''x86_64'' = ret ''amd64'' \<and> binaryArchOf ''aarch64'' = ret ''arm64''
     \<and> binaryArchOf ''arm64'' = ret ''arm64'' \<and> binaryArchOf ''armv7l'' = ret ''arm''
     \<and> (\<exists>r rest. installK0s env version tr =
           Some (r, tr @ [StartGroup ''Installing k0s'',
                          Info (''Installing k0s '' @ version @ ''...''),
                          Exec ''uname'' [''-m''] (Exited 0 out)] @ rest)
         \<and> (if trim out \<in> set supported_archs
             then \<exists>b more. binaryArchOf (trim out) = ret b
                    \<and> rest = Info (''  Architecture: '' @ trim out @ '' -> '' @ b) # more
             else r = Thrown (''Failed to install k0s: Error: Unsupported architecture: ''
                              @ trim out)
                  \<and> rest = [EndGroup]
                  \<and> \<not> list_ex is_network_call
                        ([StartGroup ''Installing k0s'',
                          Info (''Installing k0s '' @ version @ ''...''),
                          Exec ''uname'' [''-m''] (Exited 0 out)] @ rest)))"
proof -
  from wpE [OF installK0s_arch_wp [OF assms]]
  obtain r tr' rest where run: "installK0s env version tr = Some (r, tr')"
    and tr': "tr' = tr @ [StartGroup ''Installing k0s'',
              Info (''Installing k0s '' @ version @ ''...''),
              Exec ''uname'' [''-m''] (Exited 0 out)] @ rest"
    and ok: "\<And>b. binaryArchOf (trim out) = ret b \<Longrightarrow>
           \<exists>more. rest = Info (''  Architecture: '' @ trim out @ '' -> '' @ b) # more"
    and bad: "binaryArchOf (trim out) = throw (''Unsupported architecture: '' @ trim out) \<Longrightarrow>
           r = Thrown (''Failed to install k0s: Error: Unsupported architecture: '' @ trim out)
           \<and> rest = [EndGroup]"
    by blast
  have tokens: "binaryArchOf ''x86_64'' = ret ''amd64'' \<and> binaryArchOf ''aarch64'' = ret ''arm64''
     \<and> binaryArchOf ''arm64'' = ret ''arm64'' \<and> binaryArchOf ''armv7l'' = ret ''arm''"
    by (simp add: binaryArchOf_def)
  have "if trim out \<in> set supported_archs
             then \<exists>b more. binaryArchOf (trim out) = ret b
                    \<and> rest = Info (''  Architecture: '' @ trim out @ '' -> '' @ b) # more
             else r = Thrown (''Failed to install k0s: Error: Unsupported architecture: ''
                              @ trim out)
                  \<and> rest = [EndGroup]
                  \<and> \<not> list_ex is_network_call
                        ([StartGroup ''Installing k0s'',
                          Info (''Installing k0s '' @ version @ ''...''),
                          Exec ''uname'' [''-m''] (Exited 0 out)] @ rest)"
  proof (cases "trim out \<in> set supported_archs")
    case True
    with binaryArchOf_cases [of "trim out"] obtain b where "binaryArchOf (trim out) = ret b"
      by blast
    with ok [OF this] True show ?thesis by auto
  next
    case False
    with binaryArchOf_cases [of "trim out"]
    have "binaryArchOf (trim out) = throw (''Unsupported architecture: '' @ trim out)"
      by blast
    from bad [OF this] False show ?thesis
      by (simp add: is_network_call_def)
  qed
  with run tr' tokens show ?thesis by blast
qed

theorem installK0s_architecture_mapping_witness:
  "installK0s (mips_env []) ''latest'' [] =
     Some (Thrown ''Failed to install k0s: Error: Unsupported architecture: mips'',
           [StartGroup ''Installing k0s'', Info ''Installing k0s latest...'',
            Exec ''uname'' [''-m''] (Exited 0 (''mips'' @ [CHR 0x0A])), EndGroup])"
  using installK0s_architecture_mapping [of "mips_env []" "[]" "''latest''" "''mips'' @ [CHR 0x0A]"]
  by (simp add: mips_env_def mips_process_def happy_env_def supported_archs_def trim_def isSpace_def)

lemma binaryArchOf_ret_supported: "binaryArchOf arch = ret b \<Longrightarrow> arch \<in> set supported_archs"
  by (auto simp: binaryArchOf_def supported_archs_def ret_def throw_def fun_eq_iff split: if_splits)

lemma binaryArchOf_throw_unsupported:
  "binaryArchOf arch = throw e \<Longrightarrow> arch \<notin> set supported_archs"
  by (auto simp: binaryArchOf_def supported_archs_def ret_def throw_def fun_eq_iff split: if_splits)

lemma ret_apply: "ret a tr = Some (Returned a, tr)"
  by (simp add: ret_def)

lemma installK0s_resolution_wp:
  "wp (installK0s env version)
     (\<lambda>r tr'. \<exists>es. tr' = tr @ es \<and> resolution_discipline version es) tr"
  unfolding installK0s_def core_defs
  apply (simp add: exec_simps resolution_discipline_def expected_urls_def cong: wp_cong)
  apply ((rule wp_stepI; (simp add: exec_simps resolution_discipline_def expected_urls_def
            List.map_filter_simps binaryArchOf_ret_supported binaryArchOf_throw_unsupported
            ret_apply cong: wp_cong)?)+)
  done


lemma no_installer_eventD:
  assumes "no_installer_event e"
  shows "\<not> is_resolution e" "\<not> is_download e" "probed_arch e = None" "resolved_tag e = None"
    "download_url e = None" "\<not> arch_supported e"
proof -
  from assms show "\<not> is_resolution e" "\<not> is_download e" "probed_arch e = None"
    by (simp_all add: no_installer_event_def)
  from assms show "resolved_tag e = None"
    by (cases e rule: resolved_tag.cases) (auto simp: no_installer_event_def)
  from assms show "download_url e = None"
    by (cases e) (simp_all add: no_installer_event_def split: list.splits)
  from assms show "\<not> arch_supported e"
    by (cases e rule: arch_supported.cases) (auto simp: no_installer_event_def)
qed

lemma probed_arch_other: "cmd \<noteq> ''uname'' \<Longrightarrow> probed_arch (Exec cmd args out) = None"
  by (cases out) simp_all

lemma quiet_outside_installer:
  assumes "list_all no_installer_event es"
  shows "filter is_resolution es = []" "filter is_download es = []"
    "List.map_filter probed_arch es = []" "List.map_filter resolved_tag es = []"
    "List.map_filter download_url es = []" "\<not> list_ex arch_supported es"
    "list_all (\<lambda>e. \<not> is_resolution e) es" "list_all (\<lambda>e. \<not> is_download e) es"
  using assms
  by (induction es) (simp_all add: List.map_filter_simps no_installer_eventD)

text \<open>The discipline of the installer's events is that of the whole run.\<close>

lemma resolution_discipline_around:
  assumes "resolution_discipline version es"
    and pre: "list_all no_installer_event pre" and post: "list_all no_installer_event post"
  shows "resolution_discipline version (pre @ es @ post)"
proof -
  note a = quiet_outside_installer [OF pre]
  note b = quiet_outside_installer [OF post]
  have probed: "List.map_filter probed_arch (pre @ es @ post) = List.map_filter probed_arch es"
    and tags: "List.map_filter resolved_tag (pre @ es @ post) = List.map_filter resolved_tag es"
    by (simp_all add: map_filter_append a b)
  have urls: "expected_urls version (pre @ es @ post) = expected_urls version es"
    unfolding expected_urls_def probed tags by (rule refl)
  have probe: "list_ex arch_supported (pre @ es @ post) = list_ex arch_supported es"
    using a(6) b(6) by simp
  have download: "list_ex is_download (pre @ es @ post) = list_ex is_download es"
    using a(8) b(8) by (auto simp: list_ex_iff list_all_iff)
  have order: "preceded_by P Q (pre @ es @ post)"
    if "preceded_by P Q es" "list_all (\<lambda>e. \<not> Q e) pre" "list_all (\<lambda>e. \<not> Q e) post"
    for P Q
    using that by (simp add: preceded_by_prefix preceded_by_suffix)
  from assms(1) show ?thesis
    unfolding resolution_discipline_def urls probe download
    by (simp add: map_filter_append a b order)
qed

lemma startK0s_no_installer_event: "emits_only no_installer_event (startK0s env)"
  by (rule startK0s_emits) (simp_all add: no_installer_event_def probed_arch_other)

lemma pollCycle_no_installer_event: "emits_only no_installer_event (pollCycle env t s)"
  by (rule pollCycle_emits)
     (simp_all add: no_installer_event_def nodes_not_ready_cmd_def pods_not_running_cmd_def
        resolve_latest_cmd_def probed_arch_other)

lemma waitForClusterReady_no_installer_event:
  "emits_only no_installer_event (waitForClusterReady env t)"
  by (rule waitForClusterReady_emits)
     (simp_all add: no_installer_event_def nodes_not_ready_cmd_def pods_not_running_cmd_def
        resolve_latest_cmd_def probed_arch_other)

text \<open>
  Claim C3, as the code has it. The installer always completes, and its events keep the
  discipline of the version resolution: the release query runs exactly once when the version
  is \<^verbatim>\<open>latest\<close> and the architecture probe has answered with a supported architecture,
  then after that probe, and never otherwise (never for an explicit version, never when the
  installer fails before the resolution step); at most one download is started, after the
  probe and, for \<^verbatim>\<open>latest\<close>, after the release query has returned, from the URL built from
  the mapped architecture and the explicit version or the trimmed output of that one query.
  The events of every run of \<^verbatim>\<open>main\<close>, one that completes as well as one that polls for
  ever, taken at any stage of its polling, keep the same discipline: nothing is resolved or
  downloaded outside the one call of the installer. A run that never completes is one that
  has entered the loop of the poller and has every stage.
\<close>

theorem version_resolved_at_most_once:
  "installK0s env version tr \<noteq> None
   \<and> resolution_discipline version (emitted (installK0s env version) tr)
   \<and> (\<forall>r tr'. main env tr = Some (r, tr') \<longrightarrow>
         resolution_discipline (versionInput env) (drop (length tr) tr'))
   \<and> (\<forall>s h0 n h. loop_entry env tr = Some (s, h0)
         \<and> after_cycles env (timeoutInput env) s n h0 = Some h \<longrightarrow>
         resolution_discipline (versionInput env) (drop (length tr) h))
   \<and> (main env tr = None \<longrightarrow>
        (\<exists>s h0. loop_entry env tr = Some (s, h0)
           \<and> (\<forall>n. after_cycles env (timeoutInput env) s n h0 \<noteq> None)))"
proof (intro conjI allI impI)
  from wpE [OF installK0s_resolution_wp [of env version tr]]
  obtain r es where run: "installK0s env version tr = Some (r, tr @ es)"
    and d: "resolution_discipline version es"
    by blast
  from run show "installK0s env version tr \<noteq> None"
    by simp
  from run d show "resolution_discipline version (emitted (installK0s env version) tr)"
    by (simp add: emitted_def)
next
  assume "main env tr = None"
  then show "\<exists>s h0. loop_entry env tr = Some (s, h0)
           \<and> (\<forall>n. after_cycles env (timeoutInput env) s n h0 \<noteq> None)"
    by (rule hanging_run_stages)
next
  fix r tr'
  assume run: "main env tr = Some (r, tr')"
  have e: "list_all no_installer_event main_epilogue"
    by (simp add: main_epilogue_def no_installer_event_def)
  have p: "list_all no_installer_event (main_prologue env)"
    by (simp add: main_prologue_def no_installer_event_def)
  from main_after_installer [OF run startK0s_no_installer_event
      waitForClusterReady_no_installer_event e]
  obtain r_i es_i rest where i: "installK0s env (versionInput env) (tr @ main_prologue env)
       = Some (r_i, tr @ main_prologue env @ es_i)"
    and tr': "tr' = tr @ main_prologue env @ es_i @ rest"
    and rest: "list_all no_installer_event rest"
    by blast
  from i have "installK0s env (versionInput env) (tr @ main_prologue env)
       = Some (r_i, (tr @ main_prologue env) @ es_i)"
    by simp
  from wpD [OF installK0s_resolution_wp this]
  have "resolution_discipline (versionInput env) es_i"
    by simp
  from resolution_discipline_around [OF this p rest] tr'
  show "resolution_discipline (versionInput env) (drop (length tr) tr')"
    by simp
next
  fix s h0 n h
  assume a: "loop_entry env tr = Some (s, h0)
         \<and> after_cycles env (timeoutInput env) s n h0 = Some h"
  have p: "list_all no_installer_event (main_prologue env)"
    by (simp add: main_prologue_def no_installer_event_def)
  show "resolution_discipline (versionInput env) (drop (length tr) h)"
  proof (rule stage_events [where P = no_installer_event])
    show "loop_entry env tr = Some (s, h0)" using a by blast
    show "after_cycles env (timeoutInput env) s n h0 = Some h" using a by blast
    show "emits_only no_installer_event (pollCycle env (timeoutInput env) s)"
      by (rule pollCycle_no_installer_event)
    show "list_all no_installer_event (poller_header (timeoutInput env))"
      by (simp add: poller_header_def no_installer_event_def)
    show "no_installer_event (DateNow s)"
      by (simp add: no_installer_event_def)
  next
    fix es_i es_s after
    assume i: "installK0s env (versionInput env) (tr @ main_prologue env)
       = Some (Returned (), tr @ main_prologue env @ es_i)"
      and st: "startK0s env (tr @ main_prologue env @ es_i)
       = Some (Returned (), tr @ main_prologue env @ es_i @ es_s)"
      and h: "h = tr @ main_prologue env @ es_i @ es_s @ after"
      and after: "list_all no_installer_event after"
    from st have "startK0s env (tr @ main_prologue env @ es_i)
       = Some (Returned (), (tr @ main_prologue env @ es_i) @ es_s)"
      by simp
    from emits_onlyD [OF startK0s_no_installer_event this] after
    have rest: "list_all no_installer_event (es_s @ after)"
      by auto
    from i have "installK0s env (versionInput env) (tr @ main_prologue env)
       = Some (Returned (), (tr @ main_prologue env) @ es_i)"
      by simp
    from wpD [OF installK0s_resolution_wp this]
    have "resolution_discipline (versionInput env) es_i"
      by simp
    from resolution_discipline_around [OF this p rest] h
    show ?thesis by simp
  qed
qed

theorem version_resolved_at_most_once_witness:
  "length (filter is_resolution (emitted (main (happy_env [])) [])) = 1
   \<and> resolution_discipline ''latest'' (emitted (main (happy_env [])) [])
   \<and> resolution_discipline ''latest''
        (the (after_cycles (never_up_env [(''wait-for-ready'', ''true'')])
                (timeoutInput (never_up_env [(''wait-for-ready'', ''true'')]))
                (fst (the (loop_entry (never_up_env [(''wait-for-ready'', ''true'')]) [])))
                1
                (snd (the (loop_entry (never_up_env [(''wait-for-ready'', ''true'')]) [])))))"
proof -
  let ?E = "never_up_env [(''wait-for-ready'', ''true'')]"
  let ?es = "emitted (main (happy_env [])) []"
  have probe: "list_ex arch_supported ?es"
    by code_simp
  then have "main (happy_env []) [] \<noteq> None"
    by (cases "main (happy_env []) []") (simp_all add: emitted_def)
  then obtain r tr' where run: "main (happy_env []) [] = Some (r, tr')"
    by auto
  then have es: "?es = drop (length ([] :: trace)) tr'"
    by (simp add: emitted_def)
  have v: "versionInput (happy_env []) = ''latest''"
    by code_simp
  from version_resolved_at_most_once [of "happy_env []" "''latest''" "[]"] run
  have "resolution_discipline (versionInput (happy_env [])) (drop (length ([] :: trace)) tr')"
    by blast
  with es v have d: "resolution_discipline ''latest'' ?es"
    by simp
  with probe have happy: "length (filter is_resolution ?es) = 1"
    by (simp add: resolution_discipline_def)
  have "reaches_wait_step ?E []"
    by code_simp
  moreover have "inputs_of [(''wait-for-ready'', ''true'')] ''wait-for-ready'' = ''true''"
    by code_simp
  moreover have "\<not> greaterThan_js 0 (timeoutInput ?E)"
    by code_simp
  ultimately obtain s h0 h where entry: "loop_entry ?E [] = Some (s, h0)"
    and stage: "after_cycles ?E (timeoutInput ?E) s 1 h0 = Some h"
    by (rule never_up_stage)
  have v': "versionInput ?E = ''latest''"
    by code_simp
  from version_resolved_at_most_once [of ?E "''latest''" "[]"] entry stage
  have "resolution_discipline (versionInput ?E) (drop (length ([] :: trace)) h)"
    by blast
  with v' entry stage have "resolution_discipline ''latest''
        (the (after_cycles ?E (timeoutInput ?E) (fst (the (loop_entry ?E []))) 1
                (snd (the (loop_entry ?E [])))))"
    by simp
  with happy d show ?thesis
    by blast
qed

text \<open>
  Claim C3, as stated, fails: with the version \<^verbatim>\<open>latest\<close> on a machine whose architecture
  is not supported, the run completes (with the installer's error) and the release query has
  not run once but never.
\<close>

theorem version_resolution_counterexample:
  "versionInput (mips_env []) = ''latest''
   \<and> main (mips_env []) [] \<noteq> None
   \<and> length (filter is_resolution (emitted (main (mips_env [])) [])) = 0"
  by code_simp

lemma zero_timeout_at_deadline:
  assumes "greaterThan_js ((date_now env h - s) div 1000) t"
    and loop: "pollLoop env t s h0 = pollLoop env t s h"
    and h0: "h0 = tr @ poller_header t @ [DateNow s]" "s = date_now env (tr @ poller_header t)"
    and h: "h = h0 @ before"
  obtains es where
    "waitForClusterReady env t tr
       = Some (Thrown wrapped_timeout_message,
           tr @ poller_header t @ DateNow s # before
              @ [DateNow (date_now env h), LogError timeout_message]
              @ StartGroup ''Diagnostic Information'' # es @ [EndGroup])"
    and "list_all no_deadline_event es"
proof -
  from pollCycle_timeout [OF assms(1)] obtain es where
    c: "pollCycle env t s h = Some (Thrown timeout_message,
       h @ [DateNow (date_now env h), LogError timeout_message]
         @ StartGroup ''Diagnostic Information'' # es)"
    and q: "list_all no_deadline_event es"
    by blast
  from pollLoop_Thrown [OF c] loop
  have "pollLoop env t s h0 = Some (Thrown timeout_message,
       h @ [DateNow (date_now env h), LogError timeout_message]
         @ StartGroup ''Diagnostic Information'' # es)"
    by simp
  with h0 h have "waitForClusterReady env t tr
       = Some (Thrown wrapped_timeout_message,
           tr @ poller_header t @ DateNow s # before
              @ [DateNow (date_now env h), LogError timeout_message]
              @ StartGroup ''Diagnostic Information'' # es @ [EndGroup])"
    by (simp add: waitForClusterReady_eq poller_header_def wrapped_timeout_message_def)
  with q that show thesis by blast
qed

text \<open>
  Claim C4, as the code has it. The timeout input \<^verbatim>\<open>0\<close> parses to 0, and the deadline
  check is \<^verbatim>\<open>elapsed > 0\<close> on whole seconds. With a cluster that never becomes ready, a
  pass through the loop body at which less than a whole second has elapsed since the start
  does not time out: it runs the probes, logs, sleeps five seconds and goes on to the next
  pass. A pass at which at least one whole second has elapsed times out at its deadline
  check: it logs the timeout, runs the diagnostics, which return, once, and throws the
  timeout error. So when the clock is at least a second past the start once the poller has
  slept, the poller completes with the timeout error, having logged the timeout once and
  started the diagnostics once; it has read the clock three times, for the start and for two
  deadline checks, when less than a second had elapsed at the first check, and twice
  otherwise.
\<close>

theorem zero_timeout_fires_after_a_second:
  assumes "never_ready env"
  shows "parseInt ''0'' = Num 0
   \<and> (\<forall>s h. (date_now env h - s) div 1000 \<le> 0 \<longrightarrow>
         (\<exists>es. pollCycle env (Num 0) s h
                  = Some (Returned Continue, h @ DateNow (date_now env h) # es @ [Sleep 5000])
              \<and> list_all no_deadline_event es))
   \<and> (\<forall>s h. 0 < (date_now env h - s) div 1000 \<longrightarrow>
         (\<exists>es. pollCycle env (Num 0) s h
                  = Some (Thrown timeout_message,
                      h @ [DateNow (date_now env h), LogError timeout_message]
                        @ StartGroup ''Diagnostic Information'' # es)
              \<and> showDiagnostics env (h @ [DateNow (date_now env h), LogError timeout_message])
                  = Some (Returned (),
                      h @ [DateNow (date_now env h), LogError timeout_message]
                        @ StartGroup ''Diagnostic Information'' # es)
              \<and> list_all no_deadline_event es))
   \<and> ((\<forall>es. Sleep 5000 \<in> set es \<longrightarrow>
           date_now env (tr @ poller_header (Num 0)) + 1000 \<le> date_now env (tr @ es)) \<longrightarrow>
        (\<exists>tr'. waitForClusterReady env (Num 0) tr = Some (Thrown wrapped_timeout_message, tr')
           \<and> length (filter is_timeout_log (drop (length tr) tr')) = 1
           \<and> length (filter is_diagnostics_start (drop (length tr) tr')) = 1
           \<and> length (filter is_clock_read (drop (length tr) tr'))
               = (if (date_now env (tr @ poller_header (Num 0)
                                      @ [DateNow (date_now env (tr @ poller_header (Num 0)))])
                      - date_now env (tr @ poller_header (Num 0))) div 1000 \<le> 0
                  then 3 else 2)))"
proof (intro conjI allI impI)
  show "parseInt ''0'' = Num 0"
    by code_simp
next
  fix s h
  assume "(date_now env h - s) div 1000 \<le> 0"
  then have "\<not> greaterThan_js ((date_now env h - s) div 1000) (Num 0)"
    by (simp add: greaterThan_js_def)
  from pollCycle_continues [OF assms this]
  show "\<exists>es. pollCycle env (Num 0) s h
                  = Some (Returned Continue, h @ DateNow (date_now env h) # es @ [Sleep 5000])
              \<and> list_all no_deadline_event es"
    by blast
next
  fix s h
  assume "0 < (date_now env h - s) div 1000"
  then have "greaterThan_js ((date_now env h - s) div 1000) (Num 0)"
    by (simp add: greaterThan_js_def)
  from pollCycle_timeout [OF this]
  show "\<exists>es. pollCycle env (Num 0) s h
                  = Some (Thrown timeout_message,
                      h @ [DateNow (date_now env h), LogError timeout_message]
                        @ StartGroup ''Diagnostic Information'' # es)
              \<and> showDiagnostics env (h @ [DateNow (date_now env h), LogError timeout_message])
                  = Some (Returned (),
                      h @ [DateNow (date_now env h), LogError timeout_message]
                        @ StartGroup ''Diagnostic Information'' # es)
              \<and> list_all no_deadline_event es"
    by (metis append.assoc)
next
  let ?s = "date_now env (tr @ poller_header (Num 0))"
  let ?h0 = "tr @ poller_header (Num 0) @ [DateNow ?s]"
  assume clock: "\<forall>es. Sleep 5000 \<in> set es \<longrightarrow>
           date_now env (tr @ poller_header (Num 0)) + 1000 \<le> date_now env (tr @ es)"
  have header: "filter is_timeout_log (poller_header (Num 0)) = []"
    "filter is_diagnostics_start (poller_header (Num 0)) = []"
    "filter is_clock_read (poller_header (Num 0)) = []"
    by (simp_all add: poller_header_def)
  show "\<exists>tr'. waitForClusterReady env (Num 0) tr = Some (Thrown wrapped_timeout_message, tr')
           \<and> length (filter is_timeout_log (drop (length tr) tr')) = 1
           \<and> length (filter is_diagnostics_start (drop (length tr) tr')) = 1
           \<and> length (filter is_clock_read (drop (length tr) tr'))
               = (if (date_now env ?h0 - ?s) div 1000 \<le> 0 then 3 else 2)"
  proof (cases "(date_now env ?h0 - ?s) div 1000 \<le> 0")
    case False
    then have fired: "greaterThan_js ((date_now env ?h0 - ?s) div 1000) (Num 0)"
      by (simp add: greaterThan_js_def)
    from zero_timeout_at_deadline [OF fired refl refl refl, of "[]"]
    obtain es where run: "waitForClusterReady env (Num 0) tr
       = Some (Thrown wrapped_timeout_message,
           tr @ poller_header (Num 0) @ DateNow ?s # []
              @ [DateNow (date_now env ?h0), LogError timeout_message]
              @ StartGroup ''Diagnostic Information'' # es @ [EndGroup])"
      and q: "list_all no_deadline_event es"
      by auto
    from run False show ?thesis
      by (simp add: header no_deadline_eventD [OF q] timeout_message_def)
  next
    case True
    then have "\<not> greaterThan_js ((date_now env ?h0 - ?s) div 1000) (Num 0)"
      by (simp add: greaterThan_js_def)
    from pollCycle_continues [OF assms this]
    obtain es1 where first: "pollCycle env (Num 0) ?s ?h0
       = Some (Returned Continue, ?h0 @ DateNow (date_now env ?h0) # es1 @ [Sleep 5000])"
      and q1: "list_all no_deadline_event es1"
      by blast
    let ?before = "DateNow (date_now env ?h0) # es1 @ [Sleep 5000]"
    let ?h1 = "?h0 @ ?before"
    have "Sleep 5000 \<in> set (poller_header (Num 0) @ [DateNow ?s] @ ?before)"
      by simp
    with clock have "?s + 1000 \<le> date_now env (tr @ poller_header (Num 0) @ [DateNow ?s] @ ?before)"
      by blast
    then have "?s + 1000 \<le> date_now env ?h1"
      by simp
    then have "0 < (date_now env ?h1 - ?s) div 1000"
      by (simp add: pos_imp_zdiv_pos_iff)
    then have fired: "greaterThan_js ((date_now env ?h1 - ?s) div 1000) (Num 0)"
      by (simp add: greaterThan_js_def)
    have loop: "pollLoop env (Num 0) ?s ?h0 = pollLoop env (Num 0) ?s ?h1"
      using pollLoop_Continue [OF first] by simp
    from zero_timeout_at_deadline [OF fired loop refl refl refl]
    obtain es where run: "waitForClusterReady env (Num 0) tr
       = Some (Thrown wrapped_timeout_message,
           tr @ poller_header (Num 0) @ DateNow ?s # ?before
              @ [DateNow (date_now env ?h1), LogError timeout_message]
              @ StartGroup ''Diagnostic Information'' # es @ [EndGroup])"
      and q: "list_all no_deadline_event es"
      by blast
    from run True show ?thesis
      by (simp add: header no_deadline_eventD [OF q] no_deadline_eventD [OF q1]
          timeout_message_def)
  qed
qed

theorem zero_timeout_fires_after_a_second_witness:
  "parseInt ''0'' = Num 0
   \<and> map_option fst (waitForClusterReady (never_up_env []) (Num 0) [])
       = Some (Thrown wrapped_timeout_message)
   \<and> length (filter is_clock_read (emitted (waitForClusterReady (never_up_env []) (Num 0)) [])) = 3
   \<and> length (filter is_diagnostics_start
                (emitted (waitForClusterReady (never_up_env []) (Num 0)) [])) = 1"
proof -
  let ?E = "never_up_env []"
  have clock: "\<forall>es. Sleep 5000 \<in> set es \<longrightarrow>
      date_now ?E ([] @ poller_header (Num 0)) + 1000 \<le> date_now ?E ([] @ es)"
  proof (intro allI impI)
    fix es :: trace
    assume "Sleep 5000 \<in> set es"
    from slept_mem [OF this] show
      "date_now ?E ([] @ poller_header (Num 0)) + 1000 \<le> date_now ?E ([] @ es)"
      by (simp add: poller_header_def)
  qed
  have first: "(date_now ?E ([] @ poller_header (Num 0)
                              @ [DateNow (date_now ?E ([] @ poller_header (Num 0)))])
                  - date_now ?E ([] @ poller_header (Num 0))) div 1000 \<le> 0"
    by (simp add: poller_header_def)
  from zero_timeout_fires_after_a_second [OF never_up_never_ready, of "[]" "[]"] clock
  obtain tr' where run: "waitForClusterReady ?E (Num 0) [] = Some (Thrown wrapped_timeout_message, tr')"
    and counts: "length (filter is_diagnostics_start (drop (length ([] :: trace)) tr')) = 1"
      "length (filter is_clock_read (drop (length ([] :: trace)) tr'))
               = (if (date_now ?E ([] @ poller_header (Num 0)
                              @ [DateNow (date_now ?E ([] @ poller_header (Num 0)))])
                  - date_now ?E ([] @ poller_header (Num 0))) div 1000 \<le> 0
                  then 3 else 2)"
    by blast
  from counts(2) first have "length (filter is_clock_read (drop (length ([] :: trace)) tr')) = 3"
    by simp
  moreover have "parseInt ''0'' = Num 0"
    by code_simp
  ultimately show ?thesis
    using run counts(1) by (simp add: emitted_def)
qed

text \<open>
  Claim C4, as stated, fails. On a runner on which the service never comes up, with the clock
  advancing by what has been slept, the poller with the timeout 0 does not time out at its
  first deadline check: 0 seconds have elapsed and \<^verbatim>\<open>0 > 0\<close> is false, so the probe runs
  and the poller sleeps five seconds; it times out at the second check.
\<close>

theorem zero_timeout_counterexample:
  "parseInt ''0'' = Num 0
   \<and> waitForClusterReady (never_up_env []) (Num 0) []
     = Some (Thrown ''Failed waiting for cluster: Error: Timeout waiting for cluster to be ready'',
         [StartGroup ''Waiting for cluster ready'',
          Info ''Waiting for k0s cluster to be ready (timeout: 0s)...'',
          DateNow 0,
          DateNow 0,
          Exec ''sudo'' [''k0s'', ''status''] (Exited 1 []),
          Info ''  k0s not running yet'',
          Info ''  Cluster not ready yet, waiting... (0/0s)'',
          Sleep 5000,
          DateNow 5000,
          LogError ''Timeout waiting for cluster to be ready'',
          StartGroup ''Diagnostic Information'',
          Info ''=== k0s Status ==='',
          Exec ''sudo'' [''k0s'', ''status''] (Exited 1 []),
          Info ''=== k0s Controller Logs ==='',
          Exec ''sudo'' [''journalctl'', ''-u'', ''k0scontroller'', ''-n'', ''100'',
                         ''--no-pager''] (Exited 0 []),
          Info ''=== Kubectl Cluster Info ==='',
          Exec ''kubectl'' [''cluster-info''] (Exited 0 []),
          Info ''=== Nodes ==='',
          Exec ''kubectl'' [''get'', ''nodes'', ''-o'', ''wide''] (Exited 0 []),
          Info ''=== Kube-system Pods ==='',
          Exec ''kubectl'' [''get'', ''pods'', ''-n'', ''kube-system''] (Exited 0 []),
          EndGroup,
          EndGroup])"
proof -
  have "parseInt ''0'' = Num 0"
    by code_simp
  with never_up_zero_timeout_run [of "[]"] show ?thesis
    by simp
qed

lemma installK0s_cleanup_wp:
  "wp (installK0s env version)
     (\<lambda>r tr'. \<exists>es. tr' = tr @ es
        \<and> (list_ex is_cleanup es \<longleftrightarrow> list_ex install_succeeded es)
        \<and> (list_ex install_succeeded es \<longrightarrow> list_ex download_succeeded es)
        \<and> (list_ex is_verification es \<longrightarrow> list_ex cleanup_succeeded es)
        \<and> length (filter is_cleanup es) \<le> 1) tr"
  unfolding installK0s_def core_defs
  apply (simp add: exec_simps cong: wp_cong)
  apply ((rule wp_stepI; (simp add: exec_simps cong: wp_cong)?)+)
  done

text \<open>
  Claim C5, as the code has it. The installer always completes, and it runs
  \<^verbatim>\<open>rm -f /tmp/k0s\<close> exactly when the privileged install has succeeded (which needs the
  download to have succeeded), at most once. So the temporary file has been removed whenever
  the verification step runs, also when the verification then fails; it is not removed when
  the download or the privileged install fails.
\<close>

theorem installK0s_cleanup_after_install:
  "installK0s env version tr \<noteq> None
   \<and> (list_ex is_cleanup (emitted (installK0s env version) tr)
        \<longleftrightarrow> list_ex install_succeeded (emitted (installK0s env version) tr))
   \<and> (list_ex install_succeeded (emitted (installK0s env version) tr)
        \<longrightarrow> list_ex download_succeeded (emitted (installK0s env version) tr))
   \<and> (list_ex is_verification (emitted (installK0s env version) tr)
        \<longrightarrow> list_ex cleanup_succeeded (emitted (installK0s env version) tr))
   \<and> length (filter is_cleanup (emitted (installK0s env version) tr)) \<le> 1"
proof -
  from wpE [OF installK0s_cleanup_wp [of env version tr]]
  obtain r es where run: "installK0s env version tr = Some (r, tr @ es)"
    and props: "list_ex is_cleanup es \<longleftrightarrow> list_ex install_succeeded es"
      "list_ex install_succeeded es \<longrightarrow> list_ex download_succeeded es"
      "list_ex is_verification es \<longrightarrow> list_ex cleanup_succeeded es"
      "length (filter is_cleanup es) \<le> 1"
    by blast
  from run have "emitted (installK0s env version) tr = es"
    by (rule emitted_Some)
  with run props show ?thesis by simp
qed

theorem installK0s_cleanup_after_install_witness:
  "list_ex is_verification (emitted (installK0s (verify_fails_env []) ''v1.30.0+k0s.0'') [])
   \<and> list_ex cleanup_succeeded (emitted (installK0s (verify_fails_env []) ''v1.30.0+k0s.0'') [])
   \<and> list_ex install_succeeded (emitted (installK0s (verify_fails_env []) ''v1.30.0+k0s.0'') [])
   \<and> list_ex is_cleanup (emitted (installK0s (verify_fails_env []) ''v1.30.0+k0s.0'') [])"
proof -
  have "list_ex is_verification
          (emitted (installK0s (verify_fails_env []) ''v1.30.0+k0s.0'') [])"
    by code_simp
  moreover have "list_ex install_succeeded
          (emitted (installK0s (verify_fails_env []) ''v1.30.0+k0s.0'') [])"
    by code_simp
  ultimately show ?thesis
    using installK0s_cleanup_after_install [of "verify_fails_env []" "''v1.30.0+k0s.0''" "[]"]
    by blast
qed

text \<open>
  Claim C5, as stated, fails: on a runner where \<^verbatim>\<open>sudo install\<close> exits with code 1 the
  download has succeeded, the installer fails, and no removal is attempted.
\<close>

lemma install_fails_run:
  "installK0s (install_fails_env []) ''v1.30.0+k0s.0'' [] =
     Some (Thrown (''Failed to install k0s: Error: The process '' @ [CHR 0x27] @ ''sudo''
                   @ [CHR 0x27] @ '' failed with exit code 1''),
       [StartGroup ''Installing k0s'', Info ''Installing k0s v1.30.0+k0s.0...'',
        Exec ''uname'' [''-m''] (Exited 0 (''x86_64'' @ [CHR 0x0A])),
        Info ''  Architecture: x86_64 -> amd64'',
        Info (''  Downloading from: '' @ downloadUrlOf ''v1.30.0+k0s.0'' ''amd64''),
        Exec ''curl'' [''-sfL'', downloadUrlOf ''v1.30.0+k0s.0'' ''amd64'', ''-o'', ''/tmp/k0s'']
          (Exited 0 []),
        Info ''  Installing binary to /usr/local/bin/k0s...'',
        Exec ''sudo'' [''install'', ''/tmp/k0s'', ''/usr/local/bin/k0s''] (Exited 1 []),
        EndGroup])"
  by code_simp

theorem installK0s_cleanup_counterexample:
  "list_ex download_succeeded (emitted (installK0s (install_fails_env []) ''v1.30.0+k0s.0'') [])
   \<and> \<not> list_ex is_cleanup (emitted (installK0s (install_fails_env []) ''v1.30.0+k0s.0'') [])
   \<and> installK0s (install_fails_env []) ''v1.30.0+k0s.0'' [] \<noteq> None"
  by (simp add: emitted_def install_fails_run tmpBinary_def)

lemma startK0s_credential_wp:
  "wp (startK0s env)
     (\<lambda>r tr'. \<exists>es. tr' = tr @ es
        \<and> (List.map_filter written_file es = []
             \<or> List.map_filter written_file es = [kubeconfigPath env])
        \<and> chmod_follows_write es
        \<and> filter is_publication es
            \<in> {[], [SetOutput ''kubeconfig'' (kubeconfigPath env)],
                [SetOutput ''kubeconfig'' (kubeconfigPath env),
                 ExportVariable ''KUBECONFIG'' (kubeconfigPath env)]}
        \<and> preceded_by controller_registered is_credential_write es
        \<and> preceded_by controller_started is_credential_write es
        \<and> preceded_by credential_extracted is_credential_write es
        \<and> preceded_by (write_succeeded (kubeconfigPath env)) is_publication es
        \<and> preceded_by (chmod_600_succeeded (kubeconfigPath env)) is_publication es
        \<and> (r = Returned () \<longrightarrow> credential_in_place env es)) tr"
  unfolding startK0s_def core_defs
  apply (simp add: exec_simps kubeconfigPath_def credential_in_place_def cong: wp_cong)
  apply ((rule wp_stepI; (simp add: exec_simps kubeconfigPath_def credential_in_place_def
            List.map_filter_simps cong: wp_cong)?)+)
  done

lemma installK0s_verified_wp:
  "wp (installK0s env version)
     (\<lambda>r tr'. \<exists>es. tr' = tr @ es \<and> (r = Returned () \<longrightarrow> list_ex verification_succeeded es)) tr"
  unfolding installK0s_def core_defs
  apply (simp add: exec_simps cong: wp_cong)
  apply ((rule wp_stepI; (simp add: exec_simps cong: wp_cong)?)+)
  done

lemma chmod_follows_write_skip:
  "\<not> is_credential_write e \<Longrightarrow> chmod_follows_write (e # es) = chmod_follows_write es"
  by (cases e) simp_all

lemma chmod_follows_write_prefix:
  "list_all (\<lambda>e. \<not> is_credential_write e) xs
   \<Longrightarrow> chmod_follows_write (xs @ ys) = chmod_follows_write ys"
  by (induction xs) (simp_all add: chmod_follows_write_skip)

lemma chmod_follows_write_suffix:
  "chmod_follows_write ys \<Longrightarrow> list_all (\<lambda>e. \<not> is_credential_write e) zs
   \<Longrightarrow> chmod_follows_write (ys @ zs)"
proof (induction ys rule: chmod_follows_write.induct)
  case 1
  then show ?case using chmod_follows_write_prefix [of zs "[]"] by simp
next
  case (2 f c es)
  then show ?case by (cases es) simp_all
qed simp_all

lemma no_credential_eventD:
  assumes "list_all no_credential_event es"
  shows "list_all (\<lambda>e. \<not> is_credential_write e) es"
    and "list_all (\<lambda>e. \<not> is_publication e) es"
    and "List.map_filter written_file es = []"
    and "filter is_publication es = []"
proof -
  have w: "written_file e = None" if "\<not> is_credential_write e" for e
    using that by (cases e) simp_all
  from assms show "list_all (\<lambda>e. \<not> is_credential_write e) es"
    and "list_all (\<lambda>e. \<not> is_publication e) es"
    by (simp_all add: list_all_iff no_credential_event_def)
  from assms show "List.map_filter written_file es = []"
    by (induction es) (simp_all add: List.map_filter_simps no_credential_event_def w)
  from assms show "filter is_publication es = []"
    by (induction es) (simp_all add: no_credential_event_def)
qed

lemma installK0s_no_credential: "emits_only no_credential_event (installK0s env version)"
  by (rule installK0s_emits) (simp_all add: no_credential_event_def)

lemma waitForClusterReady_no_credential:
  "emits_only no_credential_event (waitForClusterReady env t)"
  by (rule waitForClusterReady_emits) (simp_all add: no_credential_event_def)

lemma pollCycle_no_credential: "emits_only no_credential_event (pollCycle env t s)"
  by (rule pollCycle_emits) (simp_all add: no_credential_event_def)

text \<open>A run that has not got to the launcher.\<close>

lemma credential_discipline_quiet:
  assumes "list_all no_credential_event es"
  shows "credential_discipline env es"
  unfolding credential_discipline_def
  using no_credential_eventD [OF assms]
    chmod_follows_write_prefix [OF no_credential_eventD(1) [OF assms], of "[]"]
  by (simp add: preceded_by_none)

text \<open>A run that has called the launcher, after a verified installation.\<close>

lemma credential_discipline_around:
  assumes start: "startK0s env tr0 = Some (r_s, tr0 @ es_s)"
    and before: "list_all no_credential_event before" "list_ex verification_succeeded before"
    and after: "list_all no_credential_event after"
  shows "credential_discipline env (before @ es_s @ after)"
    and "r_s = Returned () \<longrightarrow> credential_in_place env (before @ es_s @ after)"
proof -
  note b = no_credential_eventD [OF before(1)]
  note a = no_credential_eventD [OF after]
  from wpD [OF startK0s_credential_wp start]
  have s: "List.map_filter written_file es_s = []
             \<or> List.map_filter written_file es_s = [kubeconfigPath env]"
    "chmod_follows_write es_s"
    "filter is_publication es_s
            \<in> {[], [SetOutput ''kubeconfig'' (kubeconfigPath env)],
                [SetOutput ''kubeconfig'' (kubeconfigPath env),
                 ExportVariable ''KUBECONFIG'' (kubeconfigPath env)]}"
    "preceded_by controller_registered is_credential_write es_s"
    "preceded_by controller_started is_credential_write es_s"
    "preceded_by credential_extracted is_credential_write es_s"
    "preceded_by (write_succeeded (kubeconfigPath env)) is_publication es_s"
    "preceded_by (chmod_600_succeeded (kubeconfigPath env)) is_publication es_s"
    "r_s = Returned () \<longrightarrow> credential_in_place env es_s"
    by auto
  have written: "List.map_filter written_file (before @ es_s @ after)
      = List.map_filter written_file es_s"
    by (simp add: map_filter_append b(3) a(3))
  have published: "filter is_publication (before @ es_s @ after) = filter is_publication es_s"
    by (simp add: b(4) a(4))
  have chmod: "chmod_follows_write (before @ es_s @ after)"
    using chmod_follows_write_prefix [OF b(1)] chmod_follows_write_suffix [OF s(2) a(1)]
    by simp
  have verified: "preceded_by verification_succeeded is_credential_write (before @ es_s @ after)"
    by (rule preceded_by_found [OF b(1) before(2)])
  have order: "preceded_by P Q (before @ es_s @ after)"
    if "preceded_by P Q es_s" "list_all (\<lambda>e. \<not> Q e) before" "list_all (\<lambda>e. \<not> Q e) after"
    for P Q
    using that by (simp add: preceded_by_prefix preceded_by_suffix)
  show "credential_discipline env (before @ es_s @ after)"
    unfolding credential_discipline_def written published
    using s(1,3) chmod verified order [OF s(4) b(1) a(1)] order [OF s(5) b(1) a(1)]
      order [OF s(6) b(1) a(1)] order [OF s(7) b(2) a(2)] order [OF s(8) b(2) a(2)]
    by blast
  show "r_s = Returned () \<longrightarrow> credential_in_place env (before @ es_s @ after)"
  proof
    assume "r_s = Returned ()"
    with s(9) have "credential_in_place env es_s" by blast
    then show "credential_in_place env (before @ es_s @ after)"
      unfolding credential_in_place_def written published
      by (auto simp: list_ex_iff)
  qed
qed

lemma verified_before_start:
  assumes "installK0s env version tr0 = Some (Returned (), tr0 @ es_i)"
    and "list_all no_credential_event pre"
  shows "list_all no_credential_event (pre @ es_i)"
    and "list_ex verification_succeeded (pre @ es_i)"
proof -
  from emits_onlyD [OF installK0s_no_credential assms(1)] assms(2)
  show "list_all no_credential_event (pre @ es_i)" by auto
  from wpD [OF installK0s_verified_wp assms(1)]
  show "list_ex verification_succeeded (pre @ es_i)" by auto
qed

text \<open>
  Claim C6, as the code has it. In every run of \<^verbatim>\<open>main\<close>, one that completes as well as
  one that polls for ever, taken at any stage of its polling, the events of the run keep the
  discipline of the credential file: it is written at most once and only at
  \<^verbatim>\<open><home>/.kube/config\<close>, only after the installation has been verified, the controller
  registered and started and the credential extracted; a write that went through is directly
  followed by \<^verbatim>\<open>chmod 600\<close> on that path; nothing but that path is published, as the
  \<^verbatim>\<open>kubeconfig\<close> output and the \<^verbatim>\<open>KUBECONFIG\<close> variable, and only after the write and
  the \<^verbatim>\<open>chmod\<close> have succeeded. So a run that fails before the write writes and publishes
  nothing. In every run in which installation and controller start have returned, which every
  run that succeeds and every run that polls is, the file has been written exactly once, the
  \<^verbatim>\<open>chmod\<close> has succeeded and the path has been published both ways. A run that never
  completes is one that has entered the loop of the poller and has every stage.
\<close>

theorem credential_written_once:
  "(\<forall>r tr'. main env tr = Some (r, tr') \<longrightarrow>
      credential_discipline env (drop (length tr) tr')
      \<and> (r = Returned () \<longrightarrow> reaches_wait_step env tr)
      \<and> (reaches_wait_step env tr \<longrightarrow> credential_in_place env (drop (length tr) tr')))
   \<and> (\<forall>s h0 n h. loop_entry env tr = Some (s, h0)
         \<and> after_cycles env (timeoutInput env) s n h0 = Some h \<longrightarrow>
      credential_discipline env (drop (length tr) h)
      \<and> credential_in_place env (drop (length tr) h))
   \<and> (main env tr = None \<longrightarrow>
        (\<exists>s h0. loop_entry env tr = Some (s, h0)
           \<and> (\<forall>n. after_cycles env (timeoutInput env) s n h0 \<noteq> None)))"
proof (intro conjI allI impI)
  assume "main env tr = None"
  then show "\<exists>s h0. loop_entry env tr = Some (s, h0)
           \<and> (\<forall>n. after_cycles env (timeoutInput env) s n h0 \<noteq> None)"
    by (rule hanging_run_stages)
next
  fix s h0 n h
  assume a: "loop_entry env tr = Some (s, h0)
         \<and> after_cycles env (timeoutInput env) s n h0 = Some h"
  have "credential_discipline env (drop (length tr) h)
      \<and> credential_in_place env (drop (length tr) h)"
  proof (rule stage_events [where P = no_credential_event])
    show "loop_entry env tr = Some (s, h0)" using a by blast
    show "after_cycles env (timeoutInput env) s n h0 = Some h" using a by blast
    show "emits_only no_credential_event (pollCycle env (timeoutInput env) s)"
      by (rule pollCycle_no_credential)
    show "list_all no_credential_event (poller_header (timeoutInput env))"
      by (simp add: poller_header_def no_credential_event_def)
    show "no_credential_event (DateNow s)"
      by (simp add: no_credential_event_def)
  next
    fix es_i es_s after
    assume i: "installK0s env (versionInput env) (tr @ main_prologue env)
       = Some (Returned (), tr @ main_prologue env @ es_i)"
      and st: "startK0s env (tr @ main_prologue env @ es_i)
       = Some (Returned (), tr @ main_prologue env @ es_i @ es_s)"
      and h: "h = tr @ main_prologue env @ es_i @ es_s @ after"
      and after: "list_all no_credential_event after"
    have p: "list_all no_credential_event (main_prologue env)"
      by (simp add: main_prologue_def no_credential_event_def)
    from i have i': "installK0s env (versionInput env) (tr @ main_prologue env)
       = Some (Returned (), (tr @ main_prologue env) @ es_i)"
      by simp
    from st have st': "startK0s env (tr @ main_prologue env @ es_i)
       = Some (Returned (), (tr @ main_prologue env @ es_i) @ es_s)"
      by simp
    from credential_discipline_around [OF st' verified_before_start [OF i' p] after] h
    show ?thesis by simp
  qed
  then show "credential_discipline env (drop (length tr) h)"
    and "credential_in_place env (drop (length tr) h)"
    by blast+
next
  fix r tr'
  assume run: "main env tr = Some (r, tr')"
  have p: "list_all no_credential_event (main_prologue env)"
    by (simp add: main_prologue_def no_credential_event_def)
  have e: "list_all no_credential_event main_epilogue"
    by (simp add: main_epilogue_def no_credential_event_def)
  have "credential_discipline env (drop (length tr) tr')
      \<and> (r = Returned () \<longrightarrow> reaches_wait_step env tr)
      \<and> (reaches_wait_step env tr \<longrightarrow> credential_in_place env (drop (length tr) tr'))"
  proof (rule main_started_cases [where P = no_credential_event,
        OF run waitForClusterReady_no_credential e], goal_cases)
    case install_failed: (1 err es_i)
    from emits_onlyD [OF installK0s_no_credential install_failed(1)] p
    have "list_all no_credential_event (main_prologue env @ es_i)" by auto
    from credential_discipline_quiet [OF this] install_failed show ?case
      by (simp add: reaches_wait_step_def)
  next
    case started: (2 es_i r_s es_s after)
    from started(1) have i': "installK0s env (versionInput env) (tr @ main_prologue env)
       = Some (Returned (), (tr @ main_prologue env) @ es_i)"
      by simp
    from started(2) have st': "startK0s env (tr @ main_prologue env @ es_i)
       = Some (r_s, (tr @ main_prologue env @ es_i) @ es_s)"
      by simp
    have reaches: "reaches_wait_step env tr \<longleftrightarrow> r_s = Returned ()"
      using started(1,2) by (cases r_s) (simp_all add: reaches_wait_step_def)
    from credential_discipline_around [OF st' verified_before_start [OF i' p] started(4)]
      started(3,5) reaches
    show ?case by simp
  qed
  then show "credential_discipline env (drop (length tr) tr')"
    and "r = Returned () \<Longrightarrow> reaches_wait_step env tr"
    and "reaches_wait_step env tr \<Longrightarrow> credential_in_place env (drop (length tr) tr')"
    by blast+
qed


theorem credential_written_once_witness:
  "credential_discipline (happy_env []) (emitted (main (happy_env [])) [])
   \<and> credential_in_place (happy_env []) (emitted (main (happy_env [])) [])
   \<and> credential_in_place (never_up_env [(''wait-for-ready'', ''true'')])
        (the (after_cycles (never_up_env [(''wait-for-ready'', ''true'')])
                (timeoutInput (never_up_env [(''wait-for-ready'', ''true'')]))
                (fst (the (loop_entry (never_up_env [(''wait-for-ready'', ''true'')]) [])))
                1
                (snd (the (loop_entry (never_up_env [(''wait-for-ready'', ''true'')]) [])))))"
proof -
  let ?E = "never_up_env [(''wait-for-ready'', ''true'')]"
  have "main (happy_env []) [] \<noteq> None"
    by code_simp
  then obtain r tr' where run: "main (happy_env []) [] = Some (r, tr')"
    by auto
  have reaches: "reaches_wait_step (happy_env []) []"
    by code_simp
  from run have "emitted (main (happy_env [])) [] = drop (length ([] :: trace)) tr'"
    by (simp add: emitted_def)
  with credential_written_once [of "happy_env []" "[]"] run reaches
  have happy: "credential_discipline (happy_env []) (emitted (main (happy_env [])) [])
   \<and> credential_in_place (happy_env []) (emitted (main (happy_env [])) [])"
    by simp
  have "reaches_wait_step ?E []"
    by code_simp
  moreover have "inputs_of [(''wait-for-ready'', ''true'')] ''wait-for-ready'' = ''true''"
    by code_simp
  moreover have "\<not> greaterThan_js 0 (timeoutInput ?E)"
    by code_simp
  ultimately obtain s h0 h where entry: "loop_entry ?E [] = Some (s, h0)"
    and stage: "after_cycles ?E (timeoutInput ?E) s 1 h0 = Some h"
    by (rule never_up_stage)
  from credential_written_once [of ?E "[]"] entry stage
  have "credential_in_place ?E (drop (length ([] :: trace)) h)"
    by blast
  with entry stage have "credential_in_place ?E
        (the (after_cycles ?E (timeoutInput ?E) (fst (the (loop_entry ?E []))) 1
                (snd (the (loop_entry ?E [])))))"
    by simp
  with happy show ?thesis
    by blast
qed

text \<open>
  Claim C6, as stated, fails: a run that ends in the installer (here on an unsupported
  architecture) completes without the credential file having been written or its path
  published.
\<close>

theorem credential_written_once_counterexample:
  "main (mips_env []) [] \<noteq> None
   \<and> filter is_credential_write (emitted (main (mips_env [])) []) = []
   \<and> filter is_publication (emitted (main (mips_env [])) []) = []"
  by code_simp

lemma no_state_change_saved:
  "list_all (\<lambda>e. \<not> is_state_change e) es \<Longrightarrow> List.map_filter (saved_value name) es = []"
proof (induction es)
  case Nil
  show ?case by (simp add: List.map_filter_simps)
next
  case (Cons e es)
  then show ?case by (cases e) (simp_all add: List.map_filter_simps)
qed

lemma installK0s_no_state_change: "emits_only (\<lambda>e. \<not> is_state_change e) (installK0s env version)"
  by (rule installK0s_emits) simp_all

lemma startK0s_no_state_change: "emits_only (\<lambda>e. \<not> is_state_change e) (startK0s env)"
  by (rule startK0s_emits) simp_all

lemma waitForClusterReady_no_state_change:
  "emits_only (\<lambda>e. \<not> is_state_change e) (waitForClusterReady env t)"
  by (rule waitForClusterReady_emits) simp_all

lemma savedState_after_marker:
  assumes "list_all (\<lambda>e. \<not> is_state_change e) rest"
  shows "savedState (tr @ [Info s, SaveState ''isPost'' ''true''] @ rest) ''isPost'' = ''true''"
proof -
  have "List.map_filter (saved_value ''isPost'') (tr @ [Info s, SaveState ''isPost'' ''true''] @ rest)
      = List.map_filter (saved_value ''isPost'') tr @ [''true'']"
    by (simp add: map_filter_append no_state_change_saved [OF assms] List.map_filter_simps)
  then show ?thesis
    by (simp add: savedState_def)
qed

lemma run_post_phase:
  "getState env ''isPost'' = ''true'' \<Longrightarrow> run env cleanup = tryCatch cleanup (\<lambda>error. setFailed error)"
  by (simp add: run_def)

text \<open>
  Claim C7. \<^verbatim>\<open>main\<close> starts with its first log line and the marker
  \<^verbatim>\<open>saveState('isPost', 'true')\<close>, so the installer is called on a trace that already
  holds the marker, and when the installer throws, \<^verbatim>\<open>main\<close> completes with that error. In
  every run that completes, failed or not, nothing after the marker touches the saved state:
  the state handed to the post phase has \<^verbatim>\<open>isPost = 'true'\<close>, and \<^verbatim>\<open>run\<close> of the post
  phase calls the teardown.
\<close>

theorem marker_set_before_installation:
  "main env tr =
     tryCatch
       (andThen (info (''Configuration: version='' @ versionInput env @ '', wait-for-ready=''
                       @ showBool (waitForReadyInput env) @ '', timeout=''
                       @ showNum (timeoutInput env) @ ''s'')) (\<lambda>_.
        andThen (installK0s env (versionInput env)) (\<lambda>_.
        andThen (startK0s env) (\<lambda>_.
        andThen (if waitForReadyInput env then waitForClusterReady env (timeoutInput env)
                 else ret ()) (\<lambda>_.
        info (check_mark @ '' k0s setup completed successfully!''))))))
       (\<lambda>error. throw error)
       (tr @ [Info ''Starting k0s setup...'', SaveState ''isPost'' ''true''])
   \<and> (\<forall>e tr2. installK0s env (versionInput env) (tr @ main_prologue env) = Some (Thrown e, tr2)
         \<longrightarrow> main env tr = Some (Thrown e, tr2))
   \<and> (\<forall>r tr'. main env tr = Some (r, tr') \<longrightarrow>
         (\<exists>rest. tr' = tr @ [Info ''Starting k0s setup...'', SaveState ''isPost'' ''true''] @ rest
                \<and> list_all (\<lambda>e. \<not> is_state_change e) rest)
         \<and> savedState tr' ''isPost'' = ''true''
         \<and> (\<forall>cleanup. run (post_phase env tr') cleanup
                         = tryCatch cleanup (\<lambda>error. setFailed error)))"
proof (intro conjI allI impI)
  show "main env tr =
     tryCatch
       (andThen (info (''Configuration: version='' @ versionInput env @ '', wait-for-ready=''
                       @ showBool (waitForReadyInput env) @ '', timeout=''
                       @ showNum (timeoutInput env) @ ''s'')) (\<lambda>_.
        andThen (installK0s env (versionInput env)) (\<lambda>_.
        andThen (startK0s env) (\<lambda>_.
        andThen (if waitForReadyInput env then waitForClusterReady env (timeoutInput env)
                 else ret ()) (\<lambda>_.
        info (check_mark @ '' k0s setup completed successfully!''))))))
       (\<lambda>error. throw error)
       (tr @ [Info ''Starting k0s setup...'', SaveState ''isPost'' ''true''])"
    unfolding main_def tryCatch_rethrow Let_def
    by (simp add: core_defs andThen_emit versionInput_def waitForReadyInput_def timeoutInput_def)
next
  fix e tr2
  assume "installK0s env (versionInput env) (tr @ main_prologue env) = Some (Thrown e, tr2)"
  then show "main env tr = Some (Thrown e, tr2)"
    by (simp add: main_eq)
next
  fix r tr'
  assume run: "main env tr = Some (r, tr')"
  have ep: "list_all (\<lambda>e. \<not> is_state_change e) main_epilogue"
    by (simp add: main_epilogue_def)
  from main_after_installer [OF run startK0s_no_state_change
      waitForClusterReady_no_state_change ep]
  obtain r_i es_i rest where i: "installK0s env (versionInput env) (tr @ main_prologue env)
       = Some (r_i, tr @ main_prologue env @ es_i)"
    and tr': "tr' = tr @ main_prologue env @ es_i @ rest"
    and rest: "list_all (\<lambda>e. \<not> is_state_change e) rest"
    by blast
  from emits_onlyD [OF installK0s_no_state_change i]
  have es_i: "list_all (\<lambda>e. \<not> is_state_change e) es_i"
    by auto
  define after where "after = drop 2 (main_prologue env) @ es_i @ rest"
  have shape: "tr' = tr @ [Info ''Starting k0s setup...'', SaveState ''isPost'' ''true''] @ after"
    unfolding after_def tr' by (simp add: main_prologue_def)
  have quiet: "list_all (\<lambda>e. \<not> is_state_change e) after"
    unfolding after_def using es_i rest by (simp add: main_prologue_def)
  from shape quiet
  show "\<exists>rest. tr' = tr @ [Info ''Starting k0s setup...'', SaveState ''isPost'' ''true''] @ rest
                \<and> list_all (\<lambda>e. \<not> is_state_change e) rest"
    by blast
  show saved: "savedState tr' ''isPost'' = ''true''"
    unfolding shape by (rule savedState_after_marker [OF quiet])
  fix cleanup
  show "run (post_phase env tr') cleanup = tryCatch cleanup (\<lambda>error. setFailed error)"
    by (rule run_post_phase) (simp add: post_phase_def saved)
qed

theorem marker_set_before_installation_witness:
  "main (mips_env []) [] = Some (Thrown ''Failed to install k0s: Error: Unsupported architecture: mips'',
      [Info ''Starting k0s setup...'', SaveState ''isPost'' ''true'',
       Info ''Configuration: version=latest, wait-for-ready=false, timeout=300s'',
       StartGroup ''Installing k0s'', Info ''Installing k0s latest...'',
       Exec ''uname'' [''-m''] (Exited 0 (''mips'' @ [CHR 0x0A])), EndGroup])
   \<and> savedState (snd (the (main (mips_env []) []))) ''isPost'' = ''true''
   \<and> run (post_phase (mips_env []) (snd (the (main (mips_env []) [])))) (emit EndGroup) []
       = Some (Returned (), [EndGroup])"
proof -
  have i: "installK0s (mips_env []) (versionInput (mips_env [])) ([] @ main_prologue (mips_env []))
      = Some (Thrown ''Failed to install k0s: Error: Unsupported architecture: mips'',
      [Info ''Starting k0s setup...'', SaveState ''isPost'' ''true'',
       Info ''Configuration: version=latest, wait-for-ready=false, timeout=300s'',
       StartGroup ''Installing k0s'', Info ''Installing k0s latest...'',
       Exec ''uname'' [''-m''] (Exited 0 (''mips'' @ [CHR 0x0A])), EndGroup])"
    by code_simp
  note rest = marker_set_before_installation [of "mips_env []" "[]", THEN conjunct2]
  from rest [THEN conjunct1] i
  have m: "main (mips_env []) [] = Some (Thrown ''Failed to install k0s: Error: Unsupported architecture: mips'',
      [Info ''Starting k0s setup...'', SaveState ''isPost'' ''true'',
       Info ''Configuration: version=latest, wait-for-ready=false, timeout=300s'',
       StartGroup ''Installing k0s'', Info ''Installing k0s latest...'',
       Exec ''uname'' [''-m''] (Exited 0 (''mips'' @ [CHR 0x0A])), EndGroup])"
    by blast
  from rest [THEN conjunct2] m
  have "savedState (snd (the (main (mips_env []) []))) ''isPost'' = ''true''"
    and "run (post_phase (mips_env []) (snd (the (main (mips_env []) [])))) (emit EndGroup)
          = tryCatch (emit EndGroup) (\<lambda>error. setFailed error)"
    by simp_all
  with m show ?thesis
    by (simp add: tryCatch_def emit_def)
qed

lemma installK0s_no_timeout_log: "emits_only (\<lambda>e. \<not> is_timeout_log e) (installK0s env version)"
  by (rule installK0s_emits) simp_all

lemma startK0s_no_timeout_log: "emits_only (\<lambda>e. \<not> is_timeout_log e) (startK0s env)"
  by (rule startK0s_emits) simp_all

lemma no_timeout_logD:
  "list_all (\<lambda>e. \<not> is_timeout_log e \<and> \<not> is_diagnostics_start e) es
   \<Longrightarrow> \<not> list_ex is_timeout_log es"
  "list_all (\<lambda>e. \<not> is_timeout_log e) es \<Longrightarrow> \<not> list_ex is_timeout_log es"
  by (simp_all add: list_all_iff list_ex_iff)

lemma timeout_log_in_poller:
  assumes "waitForClusterReady env t tr = Some (r, tr')"
    and "list_ex is_timeout_log (drop (length tr) tr')"
  shows "r = Thrown wrapped_timeout_message
     \<and> (\<exists>before es. drop (length tr) tr'
            = poller_header t @ before @ [LogError timeout_message]
              @ StartGroup ''Diagnostic Information'' # es @ [EndGroup]
          \<and> list_all (\<lambda>e. \<not> is_timeout_log e \<and> \<not> is_diagnostics_start e) before
          \<and> diagnostics_discipline es \<and> list_all no_deadline_event es)"
  using assms(1)
proof (cases rule: waitForClusterReady_outcome)
  case (timed_out before es)
  then show ?thesis by blast
next
  case (not_timed_out es)
  with no_timeout_logD(1) [of es] assms(2) show ?thesis by simp
qed

text \<open>
  Claim C8, as the code has it. The diagnostics always return, and the events of their log
  group keep their discipline: the probes attempted are the first ones of the five, in
  order; when no probe has failed to start all five have been attempted, whatever their exit
  codes; a probe that cannot be started is the last one attempted, and the warnings logged
  are those of the probes that could not be started. A pass through the loop body whose
  deadline check fires logs the timeout, runs the diagnostics and throws the timeout error,
  whatever the diagnostics did. A run of the poller that has logged the timeout ends with the
  timeout error, wrapped by the poller's handler, after the one log group of the
  diagnostics, and \<^verbatim>\<open>main\<close> ends with the same error.
\<close>

theorem diagnostics_never_mask_the_timeout:
  "(\<exists>es. showDiagnostics env tr
            = Some (Returned (), tr @ StartGroup ''Diagnostic Information'' # es)
        \<and> diagnostics_discipline es \<and> list_all no_deadline_event es)
   \<and> (\<forall>t s. greaterThan_js ((date_now env tr - s) div 1000) t \<longrightarrow>
         (\<exists>es. pollCycle env t s tr
                  = Some (Thrown timeout_message,
                      tr @ [DateNow (date_now env tr), LogError timeout_message]
                         @ StartGroup ''Diagnostic Information'' # es)
              \<and> diagnostics_discipline es \<and> list_all no_deadline_event es))
   \<and> (\<forall>t r tr'. waitForClusterReady env t tr = Some (r, tr')
         \<and> list_ex is_timeout_log (drop (length tr) tr') \<longrightarrow>
         r = Thrown wrapped_timeout_message
         \<and> (\<exists>before es. drop (length tr) tr'
                = poller_header t @ before @ [LogError timeout_message]
                  @ StartGroup ''Diagnostic Information'' # es @ [EndGroup]
              \<and> list_all (\<lambda>e. \<not> is_timeout_log e \<and> \<not> is_diagnostics_start e) before
              \<and> diagnostics_discipline es \<and> list_all no_deadline_event es))
   \<and> (\<forall>r tr'. main env tr = Some (r, tr')
         \<and> list_ex is_timeout_log (drop (length tr) tr') \<longrightarrow>
         r = Thrown wrapped_timeout_message)"
proof (intro conjI allI impI)
  show "\<exists>es. showDiagnostics env tr
            = Some (Returned (), tr @ StartGroup ''Diagnostic Information'' # es)
        \<and> diagnostics_discipline es \<and> list_all no_deadline_event es"
    using showDiagnostics_returns [of env tr] by metis
next
  fix t s
  assume "greaterThan_js ((date_now env tr - s) div 1000) t"
  from pollCycle_timeout [OF this]
  show "\<exists>es. pollCycle env t s tr
                  = Some (Thrown timeout_message,
                      tr @ [DateNow (date_now env tr), LogError timeout_message]
                         @ StartGroup ''Diagnostic Information'' # es)
              \<and> diagnostics_discipline es \<and> list_all no_deadline_event es"
    by metis
next
  fix t r tr'
  assume a: "waitForClusterReady env t tr = Some (r, tr')
         \<and> list_ex is_timeout_log (drop (length tr) tr')"
  from timeout_log_in_poller [of env t tr r tr'] a
  show "r = Thrown wrapped_timeout_message"
    and "\<exists>before es. drop (length tr) tr'
                = poller_header t @ before @ [LogError timeout_message]
                  @ StartGroup ''Diagnostic Information'' # es @ [EndGroup]
              \<and> list_all (\<lambda>e. \<not> is_timeout_log e \<and> \<not> is_diagnostics_start e) before
              \<and> diagnostics_discipline es \<and> list_all no_deadline_event es"
    by blast+
next
  fix r tr'
  assume a: "main env tr = Some (r, tr') \<and> list_ex is_timeout_log (drop (length tr) tr')"
  then have run: "main env tr = Some (r, tr')"
    and logged: "list_ex is_timeout_log (drop (length tr) tr')"
    by blast+
  have p: "\<not> list_ex is_timeout_log (main_prologue env)"
    by (simp add: main_prologue_def)
  have e: "\<not> list_ex is_timeout_log main_epilogue"
    by (simp add: main_epilogue_def)
  from run show "r = Thrown wrapped_timeout_message"
  proof (cases rule: main_cases)
    case (install_failed err es_i)
    from emits_onlyD [OF installK0s_no_timeout_log install_failed(1)]
    have "\<not> list_ex is_timeout_log es_i"
      by (auto dest: no_timeout_logD(2))
    with install_failed logged p show ?thesis by simp
  next
    case (start_failed es_i err es_s)
    from emits_onlyD [OF installK0s_no_timeout_log start_failed(1)]
    have "\<not> list_ex is_timeout_log es_i"
      by (auto dest: no_timeout_logD(2))
    moreover from emits_onlyD [OF startK0s_no_timeout_log start_failed(2)]
    have "\<not> list_ex is_timeout_log es_s"
      by (auto dest: no_timeout_logD(2))
    ultimately show ?thesis using start_failed logged p by simp
  next
    case (no_wait es_i es_s)
    from emits_onlyD [OF installK0s_no_timeout_log no_wait(1)]
    have "\<not> list_ex is_timeout_log es_i"
      by (auto dest: no_timeout_logD(2))
    moreover from emits_onlyD [OF startK0s_no_timeout_log no_wait(2)]
    have "\<not> list_ex is_timeout_log es_s"
      by (auto dest: no_timeout_logD(2))
    ultimately show ?thesis using no_wait logged p e by simp
  next
    case (wait_failed es_i es_s err es_w)
    from emits_onlyD [OF installK0s_no_timeout_log wait_failed(1)]
    have "\<not> list_ex is_timeout_log es_i"
      by (auto dest: no_timeout_logD(2))
    moreover from emits_onlyD [OF startK0s_no_timeout_log wait_failed(2)]
    have "\<not> list_ex is_timeout_log es_s"
      by (auto dest: no_timeout_logD(2))
    ultimately have "list_ex is_timeout_log es_w"
      using wait_failed logged p by simp
    with timeout_log_in_poller [OF wait_failed(4)] wait_failed(5) show ?thesis
      by simp
  next
    case (ready es_i es_s es_w)
    from emits_onlyD [OF installK0s_no_timeout_log ready(1)]
    have "\<not> list_ex is_timeout_log es_i"
      by (auto dest: no_timeout_logD(2))
    moreover from emits_onlyD [OF startK0s_no_timeout_log ready(2)]
    have "\<not> list_ex is_timeout_log es_s"
      by (auto dest: no_timeout_logD(2))
    ultimately have "list_ex is_timeout_log es_w"
      using ready logged p e by simp
    with timeout_log_in_poller [OF ready(4)] show ?thesis
      by simp
  qed
qed

theorem diagnostics_never_mask_the_timeout_witness:
  "list_ex is_timeout_log (emitted (waitForClusterReady (never_up_env []) (Num 0)) [])
   \<and> map_option fst (waitForClusterReady (never_up_env []) (Num 0) [])
       = Some (Thrown wrapped_timeout_message)
   \<and> diagnostics_discipline (tl (emitted (showDiagnostics (never_up_env [])) []))
   \<and> List.map_filter command_of (tl (emitted (showDiagnostics (never_up_env [])) []))
       = diagnostic_probes"
proof -
  let ?E = "never_up_env []"
  from diagnostics_never_mask_the_timeout [of ?E "[]"]
  obtain es where d: "showDiagnostics ?E []
            = Some (Returned (), [] @ StartGroup ''Diagnostic Information'' # es)"
    and disc: "diagnostics_discipline es"
    by blast
  from d have es: "tl (emitted (showDiagnostics ?E) []) = es"
    by (simp add: emitted_def)
  have "\<not> list_ex failed_to_start (tl (emitted (showDiagnostics ?E) []))"
    by code_simp
  with es disc have all: "List.map_filter command_of es = diagnostic_probes"
    by (simp add: diagnostics_discipline_def)
  obtain tr' where run: "waitForClusterReady ?E (Num 0) []
      = Some (Thrown ''Failed waiting for cluster: Error: Timeout waiting for cluster to be ready'',
              tr')"
    and logged: "list_ex is_timeout_log (drop (length ([] :: trace)) tr')"
    using never_up_zero_timeout_run [of "[]"] by (simp add: timeout_message_def)
  from diagnostics_never_mask_the_timeout [of ?E "[]"] run logged
  have "Thrown ''Failed waiting for cluster: Error: Timeout waiting for cluster to be ready''
      = (Thrown wrapped_timeout_message :: unit result)"
    by blast
  with run logged have "list_ex is_timeout_log (emitted (waitForClusterReady ?E (Num 0)) [])"
    "map_option fst (waitForClusterReady ?E (Num 0) []) = Some (Thrown wrapped_timeout_message)"
    by (simp_all add: emitted_def)
  with es disc all show ?thesis
    by simp
qed

text \<open>
  Claim C8, as stated, fails. On a runner without \<^verbatim>\<open>kubectl\<close> on its path the third
  probe cannot be started: the diagnostics log the warning and end, and the node list and
  the pod list are not attempted.
\<close>

theorem diagnostics_counterexample:
  "showDiagnostics (no_kubectl_env []) []
     = Some (Returned (),
         [StartGroup ''Diagnostic Information'',
          Info ''=== k0s Status ==='',
          Exec ''sudo'' [''k0s'', ''status''] (Exited 1 []),
          Info ''=== k0s Controller Logs ==='',
          Exec ''sudo'' [''journalctl'', ''-u'', ''k0scontroller'', ''-n'', ''100'',
                         ''--no-pager''] (Exited 0 []),
          Info ''=== Kubectl Cluster Info ==='',
          Exec ''kubectl'' [''cluster-info'']
            (SpawnError ''Unable to locate executable file: kubectl''),
          Warning ''Failed to gather diagnostics: Error: Unable to locate executable file: kubectl'',
          EndGroup])"
  by code_simp

lemma pollLoop_never_ready_NaN:
  assumes "never_ready env"
  shows "pollLoop env NaN s tr = None"
proof (rule ccontr)
  assume "pollLoop env NaN s tr \<noteq> None"
  then obtain r tr' where loop: "pollLoop env NaN s tr = Some (r, tr')"
    by auto
  from pollLoop_last_cycle [OF loop, of "\<lambda>h. True"]
  obtain h where last: "pollCycle env NaN s h = Some (Returned Break, tr')
      \<or> (\<exists>e. pollCycle env NaN s h = Some (Thrown e, tr'))"
    by auto
  from assms obtain h' where "checkLayers env (h @ [DateNow (date_now env h)])
      = Some (Returned Continue, h')"
    unfolding never_ready_def by blast
  then have "\<exists>h''. pollCycle env NaN s h = Some (Returned Continue, h'')"
    by (simp add: pollCycle_eq greaterThan_js_def)
  with last show False by auto
qed

lemma pollCycle_NaN_no_timeout:
  "emits_only (\<lambda>e. \<not> is_timeout_log e \<and> \<not> is_diagnostics_start e) (pollCycle env NaN s)"
  unfolding pollCycle_def Let_def greaterThan_js_def
  by (simp add: core_defs) (intro emits_only_intros checkLayers_emits; simp)

lemma waitForClusterReady_NaN_no_timeout:
  "emits_only (\<lambda>e. \<not> is_timeout_log e \<and> \<not> is_diagnostics_start e)
     (waitForClusterReady env NaN)"
  unfolding waitForClusterReady_def core_defs
  by (intro emits_only_intros pollLoop_emits pollCycle_NaN_no_timeout; simp)

lemma no_timeoutD:
  assumes "emits_only (\<lambda>e. \<not> is_timeout_log e \<and> \<not> is_diagnostics_start e) m"
    and "m h = Some (r, h')"
  shows "\<not> list_ex is_timeout_log (drop (length h) h')
     \<and> \<not> list_ex is_diagnostics_start (drop (length h) h')"
  using emits_onlyD [OF assms] by (auto simp: list_all_iff list_ex_iff)

text \<open>
  Claim C9. When the timeout does not parse to a number, \<^verbatim>\<open>elapsed > timeout\<close> is false
  for every elapsed time. Then no pass through the loop body and no run of the poller logs
  the timeout or starts the diagnostics, whatever the probes answer; and with probes under
  which the cluster never becomes ready the loop goes on for ever: every number of passes is
  reached, and the poller never completes. \<^verbatim>\<open>main\<close> passes the parsed \<^verbatim>\<open>timeout\<close>
  input to the poller, so a run with such an input that reaches the poller never completes
  either.
\<close>

theorem unparsable_timeout_never_times_out:
  assumes "parseInt s = NaN" and "never_ready env"
  shows "(\<forall>elapsed. \<not> greaterThan_js elapsed (parseInt s))
     \<and> (\<forall>env' s0 h r h'. pollCycle env' (parseInt s) s0 h = Some (r, h')
           \<longrightarrow> \<not> list_ex is_timeout_log (drop (length h) h')
               \<and> \<not> list_ex is_diagnostics_start (drop (length h) h'))
     \<and> (\<forall>env' h r h'. waitForClusterReady env' (parseInt s) h = Some (r, h')
           \<longrightarrow> \<not> list_ex is_timeout_log (drop (length h) h')
               \<and> \<not> list_ex is_diagnostics_start (drop (length h) h'))
     \<and> (\<forall>s0 n. after_cycles env (parseInt s) s0 n tr \<noteq> None)
     \<and> waitForClusterReady env (parseInt s) tr = None
     \<and> (getInput env ''timeout'' = s \<and> s \<noteq> [] \<and> getInput env ''wait-for-ready'' = ''true''
          \<and> reaches_wait_step env tr \<longrightarrow> main env tr = None)"
proof (intro conjI allI impI)
  fix elapsed
  show "\<not> greaterThan_js elapsed (parseInt s)"
    by (simp add: assms(1) greaterThan_js_def)
next
  fix env' s0 h r h'
  assume "pollCycle env' (parseInt s) s0 h = Some (r, h')"
  with no_timeoutD [OF pollCycle_NaN_no_timeout, of env' s0 h r h'] assms(1)
  show "\<not> list_ex is_timeout_log (drop (length h) h')"
    and "\<not> list_ex is_diagnostics_start (drop (length h) h')"
    by simp_all
next
  fix env' h r h'
  assume "waitForClusterReady env' (parseInt s) h = Some (r, h')"
  with no_timeoutD [OF waitForClusterReady_NaN_no_timeout, of env' h r h'] assms(1)
  show "\<not> list_ex is_timeout_log (drop (length h) h')"
    and "\<not> list_ex is_diagnostics_start (drop (length h) h')"
    by simp_all
next
  fix s0 n
  from after_cycles_of_hanging_loop [OF pollLoop_never_ready_NaN [OF assms(2)],
      where s = s0 and h = tr and n = n]
  show "after_cycles env (parseInt s) s0 n tr \<noteq> None"
    by (auto simp: assms(1))
next
  show "waitForClusterReady env (parseInt s) tr = None"
    by (simp add: assms(1) waitForClusterReady_eq pollLoop_never_ready_NaN [OF assms(2)])
next
  assume a: "getInput env ''timeout'' = s \<and> s \<noteq> [] \<and> getInput env ''wait-for-ready'' = ''true''
          \<and> reaches_wait_step env tr"
  then have t: "timeoutInput env = NaN"
    using assms(1) by (simp add: timeoutInput_def orElse_def)
  have "waitForClusterReady env NaN h = None" for h
    by (simp add: waitForClusterReady_eq pollLoop_never_ready_NaN [OF assms(2)])
  moreover from a obtain tr2 tr3 where
    "installK0s env (versionInput env) (tr @ main_prologue env) = Some (Returned (), tr2)"
    "startK0s env tr2 = Some (Returned (), tr3)"
    by (auto elim: reaches_wait_stepD)
  moreover from a have "waitForReadyInput env"
    by (simp add: waitForReadyInput_def)
  ultimately show "main env tr = None"
    using t by (simp add: main_at_wait_step)
qed

theorem unparsable_timeout_never_times_out_witness:
  "parseInt ''abc'' = NaN
   \<and> waitForClusterReady (never_up_env [(''timeout'', ''abc''), (''wait-for-ready'', ''true'')])
        (parseInt ''abc'') [] = None
   \<and> main (never_up_env [(''timeout'', ''abc''), (''wait-for-ready'', ''true'')]) [] = None"
proof -
  have nan: "parseInt ''abc'' = NaN"
    by code_simp
  have inputs: "getInput (never_up_env [(''timeout'', ''abc''), (''wait-for-ready'', ''true'')])
        ''timeout'' = ''abc''"
    "getInput (never_up_env [(''timeout'', ''abc''), (''wait-for-ready'', ''true'')])
        ''wait-for-ready'' = ''true''"
    by code_simp+
  have reaches: "reaches_wait_step
      (never_up_env [(''timeout'', ''abc''), (''wait-for-ready'', ''true'')]) []"
    by code_simp
  from unparsable_timeout_never_times_out [OF nan never_up_never_ready,
      of "[(''timeout'', ''abc''), (''wait-for-ready'', ''true'')]" "[]"] nan inputs reaches
  show ?thesis by simp
qed

lemma installK0s_no_readiness_check:
  "emits_only (\<lambda>e. \<not> is_readiness_check e) (installK0s env version)"
  by (rule installK0s_emits)
     (simp_all add: resolve_latest_cmd_def nodes_not_ready_cmd_def pods_not_running_cmd_def)

lemma startK0s_no_readiness_check: "emits_only (\<lambda>e. \<not> is_readiness_check e) (startK0s env)"
  by (rule startK0s_emits) simp_all

lemma no_readiness_checkD:
  "list_all (\<lambda>e. \<not> is_readiness_check e) es \<Longrightarrow> \<not> list_ex is_readiness_check es"
  "list_all (\<lambda>e. \<not> is_readiness_check e) es \<Longrightarrow> \<not> list_ex is_poller_start es"
proof -
  have "is_poller_start e \<Longrightarrow> is_readiness_check e" for e
    by (cases e) simp_all
  then show "list_all (\<lambda>e. \<not> is_readiness_check e) es \<Longrightarrow> \<not> list_ex is_poller_start es"
    by (auto simp: list_all_iff list_ex_iff)
qed (auto simp: list_all_iff list_ex_iff)

lemma waitForClusterReady_starts:
  assumes "waitForClusterReady env t tr = Some (r, tr @ es)"
  shows "list_ex is_poller_start es"
proof -
  have "emits_only (\<lambda>e. True)
       (tryCatchFinally
       (andThen (info (''Waiting for k0s cluster to be ready (timeout: ''
                       @ showNum t @ ''s)...'')) (\<lambda>_.
        andThen (dateNow env) (\<lambda>startTime.
        andThen (pollLoop env t startTime) (\<lambda>_.
        info (check_mark @ '' k0s cluster is fully ready!'')))))
       (\<lambda>error. throw (''Failed waiting for cluster: '' @ errorToString error))
       endGroup)" (is "emits_only _ ?body")
    unfolding core_defs
    by (intro emits_only_intros pollLoop_emits pollCycle_emits TrueI)
  moreover from assms have "?body (tr @ [StartGroup ''Waiting for cluster ready'']) = Some (r, tr @ es)"
    by (simp add: waitForClusterReady_def startGroup_def andThen_emit)
  ultimately obtain es' where "tr @ es = (tr @ [StartGroup ''Waiting for cluster ready'']) @ es'"
    by (auto dest!: emits_onlyD)
  then have "es = StartGroup ''Waiting for cluster ready'' # es'"
    by simp
  then show ?thesis by simp
qed


lemma prologue_no_readiness_check: "list_all (\<lambda>e. \<not> is_readiness_check e) (main_prologue env)"
  by (simp add: main_prologue_def)

lemma epilogue_no_readiness_check: "list_all (\<lambda>e. \<not> is_readiness_check e) main_epilogue"
  by (simp add: main_epilogue_def)

lemma main_hangs_only_in_poller:
  assumes "main env tr = None"
  shows "waitForReadyInput env \<and> reaches_wait_step env tr"
proof -
  obtain r_i es_i where i: "installK0s env (versionInput env) (tr @ main_prologue env)
      = Some (r_i, tr @ main_prologue env @ es_i)"
    using installK0s_run [of env "versionInput env" "tr @ main_prologue env"] by auto
  obtain r_s es_s where s: "startK0s env (tr @ main_prologue env @ es_i)
        = Some (r_s, tr @ main_prologue env @ es_i @ es_s)"
    using startK0s_run [of env "tr @ main_prologue env @ es_i"] by auto
  from assms i have r_i: "r_i = Returned ()"
    by (cases r_i) (simp_all add: main_eq)
  from assms i s r_i have r_s: "r_s = Returned ()"
    by (cases r_s) (simp_all add: main_eq)
  from assms i s r_i r_s have "waitForReadyInput env"
    by (cases "waitForReadyInput env") (simp_all add: main_eq)
  with i s r_i r_s show ?thesis
    by (simp add: reaches_wait_step_def)
qed

lemma main_completes_when_poller_does:
  assumes "reaches_wait_step env tr"
    and "\<And>h. waitForClusterReady env (timeoutInput env) h \<noteq> None"
  shows "main env tr \<noteq> None"
proof
  assume "main env tr = None"
  with assms(1) obtain h where "waitForClusterReady env (timeoutInput env) h = None"
    by (auto simp: main_eq reaches_wait_step_def split: option.splits result.splits if_splits)
  with assms(2) show False by blast
qed

text \<open>
  Claim C10, as the code has it. In a run of \<^verbatim>\<open>main\<close> that completes, the readiness
  poller has been entered if and only if the \<^verbatim>\<open>wait-for-ready\<close> input is exactly
  \<^verbatim>\<open>true\<close> and the installation and the controller start have both returned. For every
  other value of the input the run completes, and no event of it is a readiness check. A run
  that never completes has the input \<^verbatim>\<open>true\<close>, has got through the installation and
  the controller start and has entered the loop of the poller.
\<close>

theorem poller_entered_iff_requested:
  "(\<forall>r tr'. main env tr = Some (r, tr') \<longrightarrow>
      (list_ex is_poller_start (drop (length tr) tr')
         \<longleftrightarrow> getInput env ''wait-for-ready'' = ''true'' \<and> reaches_wait_step env tr)
      \<and> (getInput env ''wait-for-ready'' \<noteq> ''true''
           \<longrightarrow> \<not> list_ex is_readiness_check (drop (length tr) tr')))
   \<and> (getInput env ''wait-for-ready'' \<noteq> ''true'' \<longrightarrow> main env tr \<noteq> None)
   \<and> (main env tr = None
        \<longrightarrow> getInput env ''wait-for-ready'' = ''true'' \<and> reaches_wait_step env tr
            \<and> (\<exists>s h0. loop_entry env tr = Some (s, h0)
                   \<and> list_ex is_poller_start (drop (length tr) h0)))"
proof (intro conjI allI impI)
  assume hangs: "main env tr = None"
  from main_hangs_only_in_poller [OF this]
  show "getInput env ''wait-for-ready'' = ''true''" and "reaches_wait_step env tr"
    by (simp_all add: waitForReadyInput_def)
  from hangs obtain s h0 where entry: "loop_entry env tr = Some (s, h0)"
    by (rule main_hangs)
  then obtain es_i es_s where
    "h0 = tr @ main_prologue env @ es_i @ es_s @ poller_header (timeoutInput env) @ [DateNow s]"
    by (rule loop_entryE)
  then have "list_ex is_poller_start (drop (length tr) h0)"
    by (simp add: poller_header_def)
  with entry show "\<exists>s h0. loop_entry env tr = Some (s, h0)
                   \<and> list_ex is_poller_start (drop (length tr) h0)"
    by blast
next
  assume "getInput env ''wait-for-ready'' \<noteq> ''true''"
  then have "\<not> waitForReadyInput env"
    by (simp add: waitForReadyInput_def)
  with main_hangs_only_in_poller [of env tr] show "main env tr \<noteq> None"
    by blast
next
  fix r tr'
  assume run: "main env tr = Some (r, tr')"
  note p = prologue_no_readiness_check [of env]
  note e = epilogue_no_readiness_check
  from run have "(list_ex is_poller_start (drop (length tr) tr')
         \<longleftrightarrow> waitForReadyInput env \<and> reaches_wait_step env tr)
      \<and> (\<not> waitForReadyInput env \<longrightarrow> \<not> list_ex is_readiness_check (drop (length tr) tr'))"
  proof (cases rule: main_cases)
    case (install_failed err es_i)
    from emits_onlyD [OF installK0s_no_readiness_check install_failed(1)]
    have "list_all (\<lambda>e. \<not> is_readiness_check e) es_i" by auto
    with p have "list_all (\<lambda>e. \<not> is_readiness_check e) (main_prologue env @ es_i)" by simp
    from no_readiness_checkD [OF this] install_failed show ?thesis
      by (simp add: reaches_wait_step_def)
  next
    case (start_failed es_i err es_s)
    from emits_onlyD [OF installK0s_no_readiness_check start_failed(1)]
    have "list_all (\<lambda>e. \<not> is_readiness_check e) es_i" by auto
    moreover from emits_onlyD [OF startK0s_no_readiness_check start_failed(2)]
    have "list_all (\<lambda>e. \<not> is_readiness_check e) es_s" by auto
    ultimately have "list_all (\<lambda>e. \<not> is_readiness_check e) (main_prologue env @ es_i @ es_s)"
      using p by simp
    from no_readiness_checkD [OF this] start_failed show ?thesis
      by (simp add: reaches_wait_step_def)
  next
    case (no_wait es_i es_s)
    from emits_onlyD [OF installK0s_no_readiness_check no_wait(1)]
    have "list_all (\<lambda>e. \<not> is_readiness_check e) es_i" by auto
    moreover from emits_onlyD [OF startK0s_no_readiness_check no_wait(2)]
    have "list_all (\<lambda>e. \<not> is_readiness_check e) es_s" by auto
    ultimately have "list_all (\<lambda>e. \<not> is_readiness_check e)
        (main_prologue env @ es_i @ es_s @ main_epilogue)"
      using p e by simp
    from no_readiness_checkD [OF this] no_wait show ?thesis
      by simp
  next
    case (wait_failed es_i es_s err es_w)
    from waitForClusterReady_starts [of env "timeoutInput env"
        "tr @ main_prologue env @ es_i @ es_s" "Thrown err" es_w] wait_failed(4)
    have "list_ex is_poller_start es_w" by simp
    with wait_failed show ?thesis
      by (simp add: reaches_wait_step_def)
  next
    case (ready es_i es_s es_w)
    from waitForClusterReady_starts [of env "timeoutInput env"
        "tr @ main_prologue env @ es_i @ es_s" "Returned ()" es_w] ready(4)
    have "list_ex is_poller_start es_w" by simp
    with ready show ?thesis
      by (simp add: reaches_wait_step_def)
  qed
  then have both: "(list_ex is_poller_start (drop (length tr) tr')
         \<longleftrightarrow> getInput env ''wait-for-ready'' = ''true'' \<and> reaches_wait_step env tr)
      \<and> (getInput env ''wait-for-ready'' \<noteq> ''true''
           \<longrightarrow> \<not> list_ex is_readiness_check (drop (length tr) tr'))"
    by (simp add: waitForReadyInput_def)
  from both show "list_ex is_poller_start (drop (length tr) tr')
         \<longleftrightarrow> getInput env ''wait-for-ready'' = ''true'' \<and> reaches_wait_step env tr"
    by blast
  assume "getInput env ''wait-for-ready'' \<noteq> ''true''"
  with both show "\<not> list_ex is_readiness_check (drop (length tr) tr')"
    by blast
qed


theorem poller_entered_iff_requested_witness:
  "list_ex is_poller_start (emitted (main (happy_env [(''wait-for-ready'', ''true'')])) [])
   \<and> main (happy_env [(''wait-for-ready'', ''True'')]) [] \<noteq> None
   \<and> \<not> list_ex is_readiness_check
         (emitted (main (happy_env [(''wait-for-ready'', ''True'')])) [])"
proof -
  have reaches: "reaches_wait_step (happy_env [(''wait-for-ready'', ''true'')]) []"
    by code_simp
  have "timeoutInput (happy_env [(''wait-for-ready'', ''true'')]) = Num 300"
    by code_simp
  then have "waitForClusterReady (happy_env [(''wait-for-ready'', ''true'')])
      (timeoutInput (happy_env [(''wait-for-ready'', ''true'')])) h \<noteq> None" for h
    using happy_waitForClusterReady [of "Num 300" "[(''wait-for-ready'', ''true'')]" h]
    by (simp add: greaterThan_js_def)
  with reaches have "main (happy_env [(''wait-for-ready'', ''true'')]) [] \<noteq> None"
    by (rule main_completes_when_poller_does)
  then obtain r tr' where run: "main (happy_env [(''wait-for-ready'', ''true'')]) [] = Some (r, tr')"
    by auto
  have "getInput (happy_env [(''wait-for-ready'', ''true'')]) ''wait-for-ready'' = ''true''"
    by code_simp
  with reaches have "list_ex is_poller_start (drop (length ([] :: trace)) tr')"
    using poller_entered_iff_requested [of "happy_env [(''wait-for-ready'', ''true'')]" "[]"] run
    by blast
  with run have entered:
    "list_ex is_poller_start (emitted (main (happy_env [(''wait-for-ready'', ''true'')])) [])"
    by (simp add: emitted_def)
  have other: "getInput (happy_env [(''wait-for-ready'', ''True'')]) ''wait-for-ready'' \<noteq> ''true''"
    by code_simp
  with poller_entered_iff_requested [of "happy_env [(''wait-for-ready'', ''True'')]" "[]"]
  have completes: "main (happy_env [(''wait-for-ready'', ''True'')]) [] \<noteq> None"
    by blast
  then obtain r2 tr2 where run2: "main (happy_env [(''wait-for-ready'', ''True'')]) [] = Some (r2, tr2)"
    by auto
  with other poller_entered_iff_requested [of "happy_env [(''wait-for-ready'', ''True'')]" "[]"]
  have "\<not> list_ex is_readiness_check (drop (length ([] :: trace)) tr2)"
    by blast
  with run2 have "\<not> list_ex is_readiness_check
         (emitted (main (happy_env [(''wait-for-ready'', ''True'')])) [])"
    by (simp add: emitted_def)
  with entered completes show ?thesis
    by blast
qed

text \<open>
  Claim C10, as stated, fails: with the input \<^verbatim>\<open>true\<close> on a machine where the installer
  throws, the run completes and the poller has not been entered.
\<close>

theorem poller_entered_iff_requested_counterexample:
  "getInput (mips_env [(''wait-for-ready'', ''true'')]) ''wait-for-ready'' = ''true''
   \<and> main (mips_env [(''wait-for-ready'', ''true'')]) [] \<noteq> None
   \<and> \<not> list_ex is_poller_start (emitted (main (mips_env [(''wait-for-ready'', ''true'')])) [])"
  by code_simp

end
